(* ===== verification/Prelude.thy ===== *)
theory Prelude
  imports Main "HOL-Library.Word"
begin

text \<open>
  Shared vocabulary of the development: bytes and byte strings, slices and copies
  as Go performs them on a slice of known length, big-endian integers
  (\<open>encoding/binary\<close>), byte-wise XOR, and the generic lemmas the component theories use.

  The interface \<open>tlv_codec\<close> at the end states what a self-delimiting
  encoding promises (decoding what was encoded returns the value and the rest;
  whatever decodes was encoded); the loops that parse a whole buffer are proved
  correct once inside it and interpreted where the codecs are defined.
\<close>

unbundle bit_operations_syntax

type_synonym byte = "8 word"
type_synonym bytes = "byte list"

text \<open>Collections: numeric constants of the wire format, and definitions a proof unfolds.\<close>

named_theorems code_num "packet codes as numerals"
named_theorems attr_num "attribute type numbers as numerals"
named_theorems limit_num "length limits as numerals"

section \<open>Slices\<close>

text \<open>\<open>slice i j xs\<close> is Go's \<open>xs[i:j]\<close> for \<open>i \<le> j \<le> len(xs)\<close>; the models check the bounds.\<close>

definition slice :: "nat \<Rightarrow> nat \<Rightarrow> 'a list \<Rightarrow> 'a list" where
  "slice i j xs = take (j - i) (drop i xs)"

text \<open>\<open>overwrite i src xs\<close> is \<open>copy(xs[i:i+len(src)], src)\<close> where it fits.\<close>

definition overwrite :: "nat \<Rightarrow> 'a list \<Rightarrow> 'a list \<Rightarrow> 'a list" where
  "overwrite i src xs = take i xs @ src @ drop (i + length src) xs"

lemma length_slice [simp]: "j \<le> length xs \<Longrightarrow> length (slice i j xs) = j - i"
  by (simp add: slice_def)

lemma length_overwrite [simp]:
  "i + length src \<le> length xs \<Longrightarrow> length (overwrite i src xs) = length xs"
  by (simp add: overwrite_def)

lemma slice_append_right: "length xs = n \<Longrightarrow> slice n (n + k) (xs @ ys) = take k ys"
  by (simp add: slice_def)

lemma slice_append_left: "j \<le> length xs \<Longrightarrow> slice i j (xs @ ys) = slice i j xs"
  by (auto simp: slice_def)

lemma take_slice_drop: "i \<le> j \<Longrightarrow> take i xs @ slice i j xs @ drop j xs = xs"
  by (metis append.assoc append_take_drop_id le_add_diff_inverse slice_def take_add)

lemma slice_overwrite_same:
  "i + length src \<le> length xs \<Longrightarrow> slice i (i + length src) (overwrite i src xs) = src"
  by (simp add: slice_def overwrite_def)

lemma overwrite_overwrite:
  "length a = length b \<Longrightarrow> i + length a \<le> length xs \<Longrightarrow>
   overwrite i a (overwrite i b xs) = overwrite i a xs"
  by (simp add: overwrite_def)

lemma overwrite_append_right:
  "length xs = n \<Longrightarrow> overwrite (n + i) src (xs @ ys) = xs @ overwrite i src ys"
  by (simp add: overwrite_def)

lemma overwrite_append_left:
  "i + length src \<le> length xs \<Longrightarrow> overwrite i src (xs @ ys) = overwrite i src xs @ ys"
  by (simp add: overwrite_def)

lemma overwrite_exact: "length src = length xs \<Longrightarrow> overwrite 0 src xs = src"
  by (simp add: overwrite_def)

lemma split_at_16: "length (xs :: 'a list) = 16 \<Longrightarrow> take 16 (xs @ ys) = xs \<and> drop 16 (xs @ ys) = ys"
  by simp

section \<open>Big-endian integers\<close>

definition BE_Uint16 :: "bytes \<Rightarrow> 16 word" where
  "BE_Uint16 b = push_bit 8 (ucast (b ! 0)) OR ucast (b ! 1)"

definition BE_PutUint16 :: "16 word \<Rightarrow> bytes" where
  "BE_PutUint16 v = [ucast (drop_bit 8 v), ucast v]"

definition BE_Uint32 :: "bytes \<Rightarrow> 32 word" where
  "BE_Uint32 b = push_bit 24 (ucast (b ! 0)) OR push_bit 16 (ucast (b ! 1)) OR
                 push_bit 8 (ucast (b ! 2)) OR ucast (b ! 3)"

definition BE_PutUint32 :: "32 word \<Rightarrow> bytes" where
  "BE_PutUint32 v = [ucast (drop_bit 24 v), ucast (drop_bit 16 v), ucast (drop_bit 8 v), ucast v]"

lemma length_BE_Put [simp]: "length (BE_PutUint16 v) = 2" "length (BE_PutUint32 w) = 4"
  by (simp_all add: BE_PutUint16_def BE_PutUint32_def)

lemma BE_Uint16_Put [simp]: "BE_Uint16 (BE_PutUint16 v) = v"
  unfolding BE_Uint16_def BE_PutUint16_def
  by (rule bit_word_eqI) (auto simp: bit_simps)

lemma BE_Uint32_Put [simp]: "BE_Uint32 (BE_PutUint32 v) = v"
proof (rule bit_word_eqI)
  fix n assume "n < LENGTH(32)"
  then have "n < 8 \<or> (8 \<le> n \<and> n < 16) \<or> (16 \<le> n \<and> n < 24) \<or> (24 \<le> n \<and> n < 32)" by auto
  then show "bit (BE_Uint32 (BE_PutUint32 v)) n = bit v n"
    by (auto simp: BE_Uint32_def BE_PutUint32_def bit_simps)
qed

lemma length_2_cases: "length xs = 2 \<Longrightarrow> \<exists>a b. xs = [a, b]"
  by (auto simp: numeral_2_eq_2 length_Suc_conv)

lemma length_4_cases: "length xs = 4 \<Longrightarrow> \<exists>a b c d. xs = [a, b, c, d]"
  by (auto simp: eval_nat_numeral length_Suc_conv)

lemma BE_Put_Uint16:
  assumes "length b = 2" shows "BE_PutUint16 (BE_Uint16 b) = b"
proof -
  obtain x y where b: "b = [x, y]" using length_2_cases [OF assms] by blast
  have "ucast (drop_bit 8 (push_bit 8 (ucast x) OR ucast y :: 16 word)) = x"
    by (rule bit_word_eqI) (auto simp: bit_simps dest: bit_imp_le_length)
  moreover have "ucast (push_bit 8 (ucast x) OR ucast y :: 16 word) = y"
    by (rule bit_word_eqI) (auto simp: bit_simps)
  ultimately show ?thesis by (simp add: b BE_PutUint16_def BE_Uint16_def)
qed

lemma BE_Put_Uint32:
  assumes "length b = 4" shows "BE_PutUint32 (BE_Uint32 b) = b"
proof -
  obtain p q r s where b: "b = [p, q, r, s]" using length_4_cases [OF assms] by blast
  let ?w = "push_bit 24 (ucast p) OR push_bit 16 (ucast q) OR push_bit 8 (ucast r) OR ucast s :: 32 word"
  have "ucast (drop_bit 24 ?w) = p" "ucast (drop_bit 16 ?w) = q"
       "ucast (drop_bit 8 ?w) = r" "ucast ?w = s"
    by (rule bit_word_eqI; auto simp: bit_simps dest: bit_imp_le_length)+
  then show ?thesis by (simp add: b BE_PutUint32_def BE_Uint32_def)
qed

lemma unat_of_nat16 [simp]: "n < 65536 \<Longrightarrow> unat (word_of_nat n :: 16 word) = n"
  by (simp add: unat_of_nat)

lemma unat_of_nat8 [simp]: "n < 256 \<Longrightarrow> unat (word_of_nat n :: byte) = n"
  by (simp add: unat_of_nat)

lemma unat_byte_less [simp]: "unat (b :: byte) < 256"
proof -
  have "unat b < 2 ^ LENGTH(8)" by (rule unsigned_less)
  then show ?thesis by simp
qed

section \<open>Byte-wise XOR\<close>

definition xor_bytes :: "bytes \<Rightarrow> bytes \<Rightarrow> bytes" where
  "xor_bytes xs ys = map2 (XOR) xs ys"

lemma length_xor_bytes [simp]: "length (xor_bytes xs ys) = min (length xs) (length ys)"
  by (simp add: xor_bytes_def)

lemma xor_bytes_cancel: "length xs \<le> length ks \<Longrightarrow> xor_bytes (xor_bytes xs ks) ks = xs"
proof (induction xs arbitrary: ks)
  case Nil
  then show ?case by (simp add: xor_bytes_def)
next
  case (Cons x xs)
  then obtain k ks' where "ks = k # ks'" by (cases ks) auto
  with Cons show ?case by (simp add: xor_bytes_def xor.assoc)
qed

section \<open>Self-delimiting codecs\<close>

text \<open>
  A decoder returns an error or a value with the unread rest. \<open>parse\<close> is the
  loop that decodes until the buffer is empty and stops at the first error.
\<close>

locale tlv_codec =
  fixes enc :: "'a \<Rightarrow> bytes"
    and dec :: "bytes \<Rightarrow> 'e + ('a \<times> bytes)"
    and ok :: "'a \<Rightarrow> bool"
    and parse :: "bytes \<Rightarrow> 'e + 'a list"
  assumes dec_enc: "ok a \<Longrightarrow> dec (enc a @ rest) = Inr (a, rest)"
    and dec_sound: "dec bs = Inr (a, rest) \<Longrightarrow> ok a \<and> bs = enc a @ rest"
    and enc_nonempty: "ok a \<Longrightarrow> enc a \<noteq> []"
    and parse_step: "parse bs = (if bs = [] then Inr []
         else case dec bs of Inl e \<Rightarrow> Inl e
              | Inr (a, rest) \<Rightarrow> (case parse rest of Inl e \<Rightarrow> Inl e | Inr as \<Rightarrow> Inr (a # as)))"
begin

lemma parse_concat: "\<forall>a \<in> set as. ok a \<Longrightarrow> parse (concat (map enc as)) = Inr as"
proof (induction as)
  case Nil
  show ?case by (subst parse_step) simp
next
  case (Cons a as)
  then have "enc a \<noteq> []" by (simp add: enc_nonempty)
  with Cons show ?case by (subst parse_step) (simp add: dec_enc)
qed

lemma parse_sound: "parse bs = Inr as \<Longrightarrow> (\<forall>a \<in> set as. ok a) \<and> bs = concat (map enc as)"
proof (induction "length bs" arbitrary: bs as rule: less_induct)
  case less
  show ?case
  proof (cases "bs = []")
    case True
    with less.prems show ?thesis by (subst (asm) parse_step) simp
  next
    case False
    with less.prems obtain a rest as' where d: "dec bs = Inr (a, rest)"
      and p: "parse rest = Inr as'" and as: "as = a # as'"
      by (subst (asm) parse_step) (auto split: sum.splits)
    from dec_sound [OF d] have a: "ok a" "bs = enc a @ rest" by auto
    with enc_nonempty [OF a(1)] have "length rest < length bs" by auto
    from less.hyps [OF this p] a as show ?thesis by simp
  qed
qed

lemma parse_iff: "parse bs = Inr as \<longleftrightarrow> (\<forall>a \<in> set as. ok a) \<and> bs = concat (map enc as)"
  using parse_sound parse_concat by blast

lemma parse_append:
  "parse xs = Inr as \<Longrightarrow> parse ys = Inr bs \<Longrightarrow> parse (xs @ ys) = Inr (as @ bs)"
  by (simp add: parse_iff) blast

end

end
