(* ===== verification/NetIP.thy ===== *)
theory NetIP
  imports Prelude "HOL-Library.Char_ord"
begin

text \<open>
  What the sources use of Go's package \<open>net\<close>: IP addresses as octet strings of length 4 or
  16, their textual form (\<open>IP.String\<close>, with the longest run of zero groups of an IPv6 address
  shortened), \<open>ParseIP\<close>, \<open>To4\<close>, \<open>To16\<close>, \<open>Equal\<close>, and the address values a socket
  reports. Also \<open>strconv\<close>'s decimal and hexadecimal output.
\<close>

section \<open>Numbers as text\<close>

definition digit_char :: "nat \<Rightarrow> char" where
  "digit_char n = (if n < 10 then char_of (48 + n) else char_of (87 + n))"

fun dec_digits :: "nat \<Rightarrow> string" where
  "dec_digits n = (if n < 10 then [digit_char n] else dec_digits (n div 10) @ [digit_char (n mod 10)])"

declare dec_digits.simps [simp del]

definition itoa :: "int \<Rightarrow> string" where
  "itoa i = (if i < 0 then ''-'' @ dec_digits (nat (- i)) else dec_digits (nat i))"

fun hex_digits :: "nat \<Rightarrow> string" where
  "hex_digits n = (if n < 16 then [digit_char n] else hex_digits (n div 16) @ [digit_char (n mod 16)])"

declare hex_digits.simps [simp del]

definition hex_byte :: "byte \<Rightarrow> string" where
  "hex_byte b = [digit_char (unat b div 16), digit_char (unat b mod 16)]"

definition is_digit :: "char \<Rightarrow> bool" where
  "is_digit c \<longleftrightarrow> 48 \<le> (of_char c :: nat) \<and> (of_char c :: nat) \<le> 57"

definition digit_val :: "char \<Rightarrow> nat" where
  "digit_val c = (of_char c :: nat) - 48"

fun hex_val :: "char \<Rightarrow> nat option" where
  "hex_val c = (let n = of_char c :: nat in
     if 48 \<le> n \<and> n \<le> 57 then Some (n - 48)
     else if 97 \<le> n \<and> n \<le> 102 then Some (n - 87)
     else if 65 \<le> n \<and> n \<le> 70 then Some (n - 55) else None)"

section \<open>Addresses\<close>

definition v4InV6Prefix :: bytes where
  "v4InV6Prefix = replicate 10 0 @ [0xff, 0xff]"

definition IP_To4 :: "bytes \<Rightarrow> bytes option" where
  "IP_To4 ip =
    (if length ip = 4 then Some ip
     else if length ip = 16 \<and> take 12 ip = v4InV6Prefix then Some (drop 12 ip) else None)"

definition IP_To16 :: "bytes \<Rightarrow> bytes option" where
  "IP_To16 ip =
    (if length ip = 4 then Some (v4InV6Prefix @ ip)
     else if length ip = 16 then Some ip else None)"

definition IP_Equal :: "bytes \<Rightarrow> bytes \<Rightarrow> bool" where
  "IP_Equal ip x \<longleftrightarrow>
    (if length ip = length x then ip = x
     else if length ip = 4 \<and> length x = 16 then take 12 x = v4InV6Prefix \<and> ip = drop 12 x
     else if length ip = 16 \<and> length x = 4 then take 12 ip = v4InV6Prefix \<and> drop 12 ip = x
     else False)"

fun join_with :: "string \<Rightarrow> string list \<Rightarrow> string" where
  "join_with sep [] = []"
| "join_with sep [x] = x"
| "join_with sep (x # y # ys) = x @ sep @ join_with sep (y # ys)"

definition ipv4_String :: "bytes \<Rightarrow> string" where
  "ipv4_String ip = join_with ''.'' (map (\<lambda>b. dec_digits (unat b)) ip)"

fun ip_groups :: "bytes \<Rightarrow> nat list" where
  "ip_groups (a # b # rest) = (256 * unat a + unat b) # ip_groups rest"
| "ip_groups _ = []"

text \<open>The first longest run of at least two zero groups, as start and end.\<close>

definition zero_run :: "nat list \<Rightarrow> nat \<Rightarrow> nat" where
  "zero_run gs i = length (takeWhile (\<lambda>g. g = 0) (drop i gs))"

fun best_run :: "nat list \<Rightarrow> nat list \<Rightarrow> (nat \<times> nat) option \<Rightarrow> (nat \<times> nat) option" where
  "best_run gs [] best = best"
| "best_run gs (i # is) best =
    (let l = zero_run gs i;
         cur = (case best of None \<Rightarrow> 0 | Some (s, e) \<Rightarrow> e - s)
     in best_run gs is (if l \<ge> 2 \<and> l > cur then Some (i, i + l) else best))"

definition ipv6_String :: "bytes \<Rightarrow> string" where
  "ipv6_String ip =
    (let gs = ip_groups ip; txt = (\<lambda>xs. join_with '':'' (map hex_digits xs)) in
     case best_run gs [0..<8] None of None \<Rightarrow> txt gs
     | Some (s, e) \<Rightarrow> txt (take s gs) @ ''::'' @ txt (drop e gs))"

definition IP_String :: "bytes \<Rightarrow> string" where
  "IP_String ip =
    (if length ip = 0 then ''<nil>''
     else case IP_To4 ip of Some v4 \<Rightarrow> ipv4_String v4
     | None \<Rightarrow> if length ip = 16 then ipv6_String ip else ''?'' @ concat (map hex_byte ip))"

text \<open>\<open>strings.Split\<close> at one octet, \<open>strings.IndexByte\<close>.\<close>

fun split_on :: "char \<Rightarrow> string \<Rightarrow> string list" where
  "split_on c [] = [[]]"
| "split_on c (x # xs) =
    (if x = c then [] # split_on c xs
     else (case split_on c xs of [] \<Rightarrow> [[x]] | f # fs \<Rightarrow> (x # f) # fs))"

fun IndexByte :: "string \<Rightarrow> char \<Rightarrow> nat option" where
  "IndexByte [] c = None"
| "IndexByte (x # xs) c = (if x = c then Some 0 else map_option Suc (IndexByte xs c))"

lemma IndexByte_none: "c \<notin> set s \<Longrightarrow> IndexByte s c = None"
  by (induction s) auto

lemma IndexByte_append: "c \<notin> set s \<Longrightarrow> IndexByte (s @ c # r) c = Some (length s)"
  by (induction s) auto

text \<open>The dotted form: four fields of one to three digits, no leading zero, at most 255.\<close>

definition dec_value :: "string \<Rightarrow> nat" where
  "dec_value s = foldl (\<lambda>acc c. 10 * acc + digit_val c) 0 s"

definition ipv4_field :: "string \<Rightarrow> byte option" where
  "ipv4_field f =
    (if f = [] \<or> length f > 3 \<or> \<not> list_all is_digit f then None
     else if length f > 1 \<and> hd f = CHR ''0'' then None
     else if dec_value f > 255 then None else Some (word_of_nat (dec_value f)))"

fun all_some :: "'a option list \<Rightarrow> 'a list option" where
  "all_some [] = Some []"
| "all_some (None # xs) = None"
| "all_some (Some x # xs) = (case all_some xs of None \<Rightarrow> None | Some ys \<Rightarrow> Some (x # ys))"

definition parse_ipv4 :: "string \<Rightarrow> bytes option" where
  "parse_ipv4 s =
    (let fs = split_on (CHR ''.'') s in if length fs \<noteq> 4 then None else all_some (map ipv4_field fs))"

text \<open>
  The loop of the IPv6 parser: \<open>ip\<close> are the octets read so far, \<open>ell\<close> the place of
  \<open>::\<close>. The result is the octets with that place.
\<close>

fun take_hex :: "string \<Rightarrow> string \<times> string" where
  "take_hex [] = ([], [])"
| "take_hex (c # cs) = (if hex_val c = None then ([], c # cs)
     else (let (h, r) = take_hex cs in (c # h, r)))"

lemma take_hex_length: "take_hex s = (h, r) \<Longrightarrow> length h + length r = length s"
  by (induction s arbitrary: h r) (auto split: if_splits prod.splits)

definition hex_value :: "string \<Rightarrow> nat" where
  "hex_value s = foldl (\<lambda>acc c. 16 * acc + the (hex_val c)) 0 s"

function ipv6_loop :: "bytes \<Rightarrow> nat option \<Rightarrow> string \<Rightarrow> (bytes \<times> nat option) option" where
  "ipv6_loop ip ell s =
    (if length ip \<ge> 16 then (if s = [] then Some (ip, ell) else None)
     else case take_hex s of (h, rest) \<Rightarrow>
       if h = [] \<or> length h > 4 then None
       else if rest \<noteq> [] \<and> hd rest = CHR ''.'' then
         (if ell = None \<and> length ip \<noteq> 12 then None
          else if length ip + 4 > 16 then None
          else case parse_ipv4 s of None \<Rightarrow> None | Some v4 \<Rightarrow> Some (ip @ v4, ell))
       else let v = hex_value h;
                ip' = ip @ [word_of_nat (v div 256), word_of_nat (v mod 256)] in
         (case rest of [] \<Rightarrow> Some (ip', ell)
          | c # cs \<Rightarrow>
              if c \<noteq> CHR '':'' then None
              else (case cs of [] \<Rightarrow> None
                | d # ds \<Rightarrow>
                    if d = CHR '':'' then
                      (if ell \<noteq> None then None
                       else if ds = [] then Some (ip', Some (length ip'))
                       else ipv6_loop ip' (Some (length ip')) ds)
                    else ipv6_loop ip' ell (d # ds))))"
  by pat_completeness auto
termination
  by (relation "measure (\<lambda>(ip, ell, s). length s)") (auto dest!: take_hex_length [OF sym])

declare ipv6_loop.simps [simp del]

definition parse_ipv6 :: "string \<Rightarrow> bytes option" where
  "parse_ipv6 s =
    (let r = (if take 2 s = ''::'' then
                (if drop 2 s = [] then Some ([], Some 0) else ipv6_loop [] (Some 0) (drop 2 s))
              else ipv6_loop [] None s) in
     case r of None \<Rightarrow> None
     | Some (ip, ell) \<Rightarrow>
         if length ip < 16 then
           (case ell of None \<Rightarrow> None
            | Some k \<Rightarrow> Some (take k ip @ replicate (16 - length ip) 0 @ drop k ip))
         else (case ell of None \<Rightarrow> Some ip | Some k \<Rightarrow> None))"

text \<open>The first of \<open>.\<close>, \<open>:\<close> and \<open>%\<close> decides; an address with a zone is not an IP.\<close>

fun ip_kind :: "string \<Rightarrow> char option" where
  "ip_kind [] = None"
| "ip_kind (c # cs) = (if c = CHR ''.'' \<or> c = CHR '':'' \<or> c = CHR ''%'' then Some c else ip_kind cs)"

definition ParseIP :: "string \<Rightarrow> bytes option" where
  "ParseIP s =
    (case ip_kind s of
       None \<Rightarrow> None
     | Some c \<Rightarrow>
         if c = CHR ''.'' then (case parse_ipv4 s of None \<Rightarrow> None | Some v4 \<Rightarrow> Some (v4InV6Prefix @ v4))
         else if c = CHR '':'' then parse_ipv6 s else None)"

section \<open>Socket addresses\<close>

datatype net_addr =
    UDPAddr bytes int string
  | TCPAddr bytes int string
  | IPAddr bytes string
  | OtherAddr string

definition ipEmptyString :: "bytes \<Rightarrow> string" where
  "ipEmptyString ip = (if length ip = 0 then [] else IP_String ip)"

definition JoinHostPort :: "string \<Rightarrow> string \<Rightarrow> string" where
  "JoinHostPort host port =
    (if CHR '':'' \<in> set host then ''['' @ host @ '']:'' @ port else host @ '':'' @ port)"

fun addr_String :: "net_addr \<Rightarrow> string" where
  "addr_String (UDPAddr ip port zone) =
     JoinHostPort (ipEmptyString ip @ (if zone = [] then [] else ''%'' @ zone)) (itoa port)"
| "addr_String (TCPAddr ip port zone) =
     JoinHostPort (ipEmptyString ip @ (if zone = [] then [] else ''%'' @ zone)) (itoa port)"
| "addr_String (IPAddr ip zone) = ipEmptyString ip @ (if zone = [] then [] else ''%'' @ zone)"
| "addr_String (OtherAddr s) = s"

section \<open>Checks\<close>

lemma IP_String_vectors:
  "IP_String [10, 0, 0, 1] = ''10.0.0.1''"
  "IP_String (v4InV6Prefix @ [192, 168, 1, 255]) = ''192.168.1.255''"
  "IP_String (replicate 16 0) = ''::''"
  "IP_String [0, 1, 0, 0, 0, 0, 0, 2, 0, 0, 0, 0, 0, 0, 0, 3] = ''1:0:0:2::3''"
  by (code_simp, code_simp, code_simp, code_simp)

lemma ParseIP_vectors:
  "ParseIP ''10.0.0.1'' = Some (v4InV6Prefix @ [10, 0, 0, 1])"
  "ParseIP ''10.0.0.256'' = None"
  "ParseIP ''10.0.00.1'' = None"
  "ParseIP ''1::2::3'' = None"
  "ParseIP ''1::2'' = Some ([0, 1] @ replicate 13 0 @ [2])"
  by (code_simp, code_simp, code_simp, code_simp, code_simp)

section \<open>The dotted form is read back\<close>

lemma of_digit_char: "n < 10 \<Longrightarrow> (of_char (digit_char n) :: nat) = 48 + n"
  by (simp add: digit_char_def)

lemma digit_char_facts:
  "n < 10 \<Longrightarrow> is_digit (digit_char n)" "n < 10 \<Longrightarrow> digit_val (digit_char n) = n"
  "n < 10 \<Longrightarrow> digit_char n = CHR ''0'' \<longleftrightarrow> n = 0"
proof -
  assume n: "n < 10"
  show "is_digit (digit_char n)" "digit_val (digit_char n) = n"
    using n by (simp_all add: is_digit_def digit_val_def of_digit_char)
  have "digit_char n = CHR ''0'' \<longleftrightarrow> (of_char (digit_char n) :: nat) = of_char (CHR ''0'')"
    by (rule of_char_eq_iff [symmetric])
  then show "digit_char n = CHR ''0'' \<longleftrightarrow> n = 0" using n by (simp add: of_digit_char)
qed

lemma dec_digits_facts:
  "list_all is_digit (dec_digits n)" "dec_value (dec_digits n) = n" "dec_digits n \<noteq> []"
  "0 < n \<Longrightarrow> hd (dec_digits n) \<noteq> CHR ''0''"
proof (induction n rule: dec_digits.induct)
  case (1 n)
  {
    case 1
    then show ?case using "1.IH"(1) by (subst dec_digits.simps) (simp add: digit_char_facts)
  next
    case 2
    then show ?case using "1.IH"(2)
      by (subst dec_digits.simps) (auto simp: dec_value_def digit_char_facts)
  next
    case 3
    then show ?case by (subst dec_digits.simps) simp
  next
    case 4
    then show ?case using "1.IH"(3,4)
      by (subst dec_digits.simps) (auto simp: digit_char_facts)
  }
qed

lemma dec_digits_short: "n < 1000 \<Longrightarrow> length (dec_digits n) \<le> 3"
  by (subst dec_digits.simps, simp, subst dec_digits.simps, simp, subst dec_digits.simps, simp)

lemma ipv4_field_digits: "ipv4_field (dec_digits (unat (b :: byte))) = Some b"
proof -
  have "unat b < 256" by simp
  then have "unat b < 1000" by linarith
  then have "length (dec_digits (unat b)) \<le> 3" by (rule dec_digits_short)
  moreover have "\<not> 255 < unat b" using \<open>unat b < 256\<close> by linarith
  moreover have "\<not> (1 < length (dec_digits (unat b)) \<and> hd (dec_digits (unat b)) = CHR ''0'')"
  proof (cases "unat b = 0")
    case True
    have "length (dec_digits 0) = 1" by (simp add: dec_digits.simps)
    then show ?thesis unfolding True by simp
  qed (use dec_digits_facts(4) [of "unat b"] in simp)
  ultimately show ?thesis
    using dec_digits_facts(1-3) [of "unat b"] unfolding ipv4_field_def by simp
qed

lemma split_on_no: "c \<notin> set x \<Longrightarrow> split_on c x = [x]"
  by (induction x) auto

lemma split_on_append: "c \<notin> set x \<Longrightarrow> split_on c (x @ c # ys) = x # split_on c ys"
  by (induction x) auto

lemma dot_no_digit: "CHR ''.'' \<notin> set (dec_digits n)"
  using dec_digits_facts(1) [of n] by (auto simp: list_all_iff is_digit_def)

lemma ParseIP_ipv4_String:
  assumes "length ip = 4"
  shows "ParseIP (IP_String ip) = Some (v4InV6Prefix @ ip)"
proof -
  obtain a b c d where ip: "ip = [a, b, c, d]" using length_4_cases [OF assms] by blast
  have s: "IP_String ip = dec_digits (unat a) @ CHR ''.'' # dec_digits (unat b) @ CHR ''.'' #
      dec_digits (unat c) @ CHR ''.'' # dec_digits (unat d)"
    by (simp add: IP_String_def IP_To4_def ip ipv4_String_def)
  have "split_on (CHR ''.'') (IP_String ip) = map (\<lambda>x. dec_digits (unat x)) [a, b, c, d]"
    by (simp add: s split_on_append split_on_no dot_no_digit)
  then have "parse_ipv4 (IP_String ip) = Some ip"
    by (simp add: parse_ipv4_def ipv4_field_digits ip)
  moreover have "ip_kind (x @ CHR ''.'' # ys) = Some (CHR ''.'')" if "list_all is_digit x" for x ys
    using that by (induction x) (auto simp: is_digit_def)
  then have "ip_kind (IP_String ip) = Some (CHR ''.'')"
    by (simp add: s dec_digits_facts(1))
  ultimately show ?thesis by (simp add: ParseIP_def)
qed

end
