(* ===== verification/Errors.thy ===== *)
theory Errors
  imports Prelude
begin

text \<open>
  The sentinel errors of \<open>errors/errors.go\<close> and \<open>protocol/errors.go\<close>, the two errors a
  \<open>context.Context\<close> reports, errors that come unchanged from outside the library
  (\<open>ErrOther\<close>, a handler or an I/O error), and \<open>GoPanic\<close>: the run-time panic of an
  index or slice expression that is out of range. A Go result \<open>(T, error)\<close> is
  \<open>gerror + 'a\<close>: every early return and every panic is a branch of the model.
\<close>

datatype gerror =
    ErrShortBuffer
  | ErrInvalidLength
  | ErrInvalidCode
  | ErrAuthenticatorMismatch
  | ErrInvalidAttribute
  | ErrAttributeTooLong
  | ErrUnknownAttribute
  | ErrUnsupportedValueType
  | ErrSecretEmpty
  | ErrPasswordTooLong
  | ErrMessageAuthenticatorMissing
  | ErrMessageAuthenticatorMismatch
  | ErrTimeout
  | ErrConnClosed
  | ErrMalformedPacket
  | ErrUnknownPeer
  | ErrNoResponse
  | ErrIdentifierExhausted
  | ErrIdentifierMismatch
  | ErrUnexpectedReply
  | CtxCanceled
  | CtxDeadlineExceeded
  | ErrOther string
  | GoPanic

type_synonym 'a res = "gerror + 'a"

text \<open>
  How a goroutine comes to its end: with a result, not at all because it blocks, or in a panic
  that nothing recovers, which takes the whole process down.
\<close>

datatype 'a task = Done 'a | Hangs | Crashes

text \<open>What follows an error, unless it is a panic.\<close>

definition unless_panic :: "gerror \<Rightarrow> 'a task \<Rightarrow> 'a task" where
  "unless_panic e t = (if e = GoPanic then Crashes else t)"

lemma unless_panic_iff:
  "unless_panic e t = Done x \<longleftrightarrow> e \<noteq> GoPanic \<and> t = Done x"
  "unless_panic e t = Hangs \<longleftrightarrow> e \<noteq> GoPanic \<and> t = Hangs"
  "unless_panic e t = Crashes \<longleftrightarrow> e = GoPanic \<or> t = Crashes"
  by (auto simp: unless_panic_def)

lemma map_task_iff:
  "map_task f t = Done y \<longleftrightarrow> (\<exists>x. t = Done x \<and> y = f x)"
  "map_task f t = Hangs \<longleftrightarrow> t = Hangs" "map_task f t = Crashes \<longleftrightarrow> t = Crashes"
  by (cases t; auto)+

text \<open>The message text each sentinel carries (\<open>New\<close> adds the common prefix).\<close>

definition errors_New :: "string \<Rightarrow> string" where
  "errors_New text = ''radius: '' @ text"

fun Error_text :: "gerror \<Rightarrow> string option" where
  "Error_text ErrShortBuffer = Some (errors_New ''buffer too short'')"
| "Error_text ErrInvalidLength = Some (errors_New ''invalid length field'')"
| "Error_text ErrInvalidCode = Some (errors_New ''invalid code'')"
| "Error_text ErrAuthenticatorMismatch = Some (errors_New ''authenticator mismatch'')"
| "Error_text ErrInvalidAttribute = Some (errors_New ''invalid attribute'')"
| "Error_text ErrAttributeTooLong = Some (errors_New ''attribute value exceeds 253 octets'')"
| "Error_text ErrUnknownAttribute = Some (errors_New ''unknown attribute type'')"
| "Error_text ErrUnsupportedValueType = Some (errors_New ''unsupported attribute value type'')"
| "Error_text ErrSecretEmpty = Some (errors_New ''shared secret must not be empty'')"
| "Error_text ErrPasswordTooLong = Some (errors_New ''password exceeds 128 octets'')"
| "Error_text ErrMessageAuthenticatorMissing =
     Some (errors_New ''message-authenticator required but missing'')"
| "Error_text ErrMessageAuthenticatorMismatch =
     Some (errors_New ''message-authenticator verification failed'')"
| "Error_text ErrTimeout = Some (errors_New ''operation timed out'')"
| "Error_text ErrConnClosed = Some (errors_New ''connection closed'')"
| "Error_text ErrMalformedPacket = Some (errors_New ''malformed RADIUS packet'')"
| "Error_text ErrUnknownPeer = Some (errors_New ''packet from unknown peer'')"
| "Error_text ErrNoResponse = Some (errors_New ''no response after all retries'')"
| "Error_text ErrIdentifierExhausted = Some (errors_New ''no free identifier available'')"
| "Error_text ErrIdentifierMismatch = Some (errors_New ''reply identifier mismatch'')"
| "Error_text ErrUnexpectedReply = Some (errors_New ''unexpected reply code'')"
| "Error_text _ = None"

text \<open>Each sentinel is a branch of its own: two of them never share a message.\<close>

definition sentinels :: "gerror list" where
  "sentinels = [ErrShortBuffer, ErrInvalidLength, ErrInvalidCode, ErrAuthenticatorMismatch,
     ErrInvalidAttribute, ErrAttributeTooLong, ErrUnknownAttribute, ErrUnsupportedValueType,
     ErrSecretEmpty, ErrPasswordTooLong, ErrMessageAuthenticatorMissing,
     ErrMessageAuthenticatorMismatch, ErrTimeout, ErrConnClosed, ErrMalformedPacket, ErrUnknownPeer,
     ErrNoResponse, ErrIdentifierExhausted, ErrIdentifierMismatch, ErrUnexpectedReply]"

lemma sentinel_texts_distinct: "distinct (map Error_text sentinels)"
  by (simp add: sentinels_def errors_New_def)

end
