(* ===== verification/Types.thy ===== *)
theory Types
  imports Prelude
begin

text \<open>
  The protocol constants of \<open>types/types.go\<close>: packet codes with their family predicates
  and canonical names, attribute type numbers, length limits and ports. A \<open>Code\<close> is
  a byte (\<open>type Code byte\<close>), so a value off the wire need not be one of the constants.
\<close>

type_synonym code = byte

section \<open>Packet codes\<close>

definition AccessRequest :: code where [code_num]: "AccessRequest = 1"
definition AccessAccept :: code where [code_num]: "AccessAccept = 2"
definition AccessReject :: code where [code_num]: "AccessReject = 3"
definition AccountingRequest :: code where [code_num]: "AccountingRequest = 4"
definition AccountingResponse :: code where [code_num]: "AccountingResponse = 5"
definition AccessChallenge :: code where [code_num]: "AccessChallenge = 11"
definition StatusServer :: code where [code_num]: "StatusServer = 12"
definition StatusClient :: code where [code_num]: "StatusClient = 13"
definition Reserved :: code where [code_num]: "Reserved = 255"
definition CoARequest :: code where [code_num]: "CoARequest = 43"
definition CoAACK :: code where [code_num]: "CoAACK = 44"
definition CoANAK :: code where [code_num]: "CoANAK = 45"
definition DisconnectRequest :: code where [code_num]: "DisconnectRequest = 40"
definition DisconnectACK :: code where [code_num]: "DisconnectACK = 41"
definition DisconnectNAK :: code where [code_num]: "DisconnectNAK = 42"

text \<open>\<open>Code.IsAccess\<close>, \<open>Code.IsAccounting\<close> and \<open>Code.IsDynamicAuthorization\<close>.\<close>

definition IsAccess :: "code \<Rightarrow> bool" where
  "IsAccess c \<longleftrightarrow> c \<in> set [AccessRequest, AccessAccept, AccessReject, AccessChallenge]"

definition IsAccounting :: "code \<Rightarrow> bool" where
  "IsAccounting c \<longleftrightarrow> c = AccountingRequest \<or> c = AccountingResponse"

definition IsDynamicAuthorization :: "code \<Rightarrow> bool" where
  "IsDynamicAuthorization c \<longleftrightarrow>
     c \<in> set [CoARequest, CoAACK, CoANAK, DisconnectRequest, DisconnectACK, DisconnectNAK]"

text \<open>\<open>Code.String\<close>: the canonical name, or \<open>Unknown\<close>.\<close>

definition Code_String :: "code \<Rightarrow> string" where
  "Code_String c =
    (if c = AccessRequest then ''Access-Request''
     else if c = AccessAccept then ''Access-Accept''
     else if c = AccessReject then ''Access-Reject''
     else if c = AccountingRequest then ''Accounting-Request''
     else if c = AccountingResponse then ''Accounting-Response''
     else if c = AccessChallenge then ''Access-Challenge''
     else if c = StatusServer then ''Status-Server''
     else if c = StatusClient then ''Status-Client''
     else if c = CoARequest then ''CoA-Request''
     else if c = CoAACK then ''CoA-ACK''
     else if c = CoANAK then ''CoA-NAK''
     else if c = DisconnectRequest then ''Disconnect-Request''
     else if c = DisconnectACK then ''Disconnect-ACK''
     else if c = DisconnectNAK then ''Disconnect-NAK''
     else if c = Reserved then ''Reserved''
     else ''Unknown'')"

section \<open>Attribute type numbers\<close>

definition AttrUserName :: byte where [attr_num]: "AttrUserName = 1"
definition AttrUserPassword :: byte where [attr_num]: "AttrUserPassword = 2"
definition AttrCHAPPassword :: byte where [attr_num]: "AttrCHAPPassword = 3"
definition AttrNASIPAddress :: byte where [attr_num]: "AttrNASIPAddress = 4"
definition AttrNASPort :: byte where [attr_num]: "AttrNASPort = 5"
definition AttrServiceType :: byte where [attr_num]: "AttrServiceType = 6"
definition AttrFramedProtocol :: byte where [attr_num]: "AttrFramedProtocol = 7"
definition AttrFramedIPAddress :: byte where [attr_num]: "AttrFramedIPAddress = 8"
definition AttrFramedIPNetmask :: byte where [attr_num]: "AttrFramedIPNetmask = 9"
definition AttrFramedRouting :: byte where [attr_num]: "AttrFramedRouting = 10"
definition AttrFilterID :: byte where [attr_num]: "AttrFilterID = 11"
definition AttrFramedMTU :: byte where [attr_num]: "AttrFramedMTU = 12"
definition AttrFramedCompression :: byte where [attr_num]: "AttrFramedCompression = 13"
definition AttrLoginIPHost :: byte where [attr_num]: "AttrLoginIPHost = 14"
definition AttrLoginService :: byte where [attr_num]: "AttrLoginService = 15"
definition AttrLoginTCPPort :: byte where [attr_num]: "AttrLoginTCPPort = 16"
definition AttrReplyMessage :: byte where [attr_num]: "AttrReplyMessage = 18"
definition AttrCallbackNumber :: byte where [attr_num]: "AttrCallbackNumber = 19"
definition AttrCallbackID :: byte where [attr_num]: "AttrCallbackID = 20"
definition AttrFramedRoute :: byte where [attr_num]: "AttrFramedRoute = 22"
definition AttrFramedIPXNetwork :: byte where [attr_num]: "AttrFramedIPXNetwork = 23"
definition AttrState :: byte where [attr_num]: "AttrState = 24"
definition AttrClass :: byte where [attr_num]: "AttrClass = 25"
definition AttrVendorSpecific :: byte where [attr_num]: "AttrVendorSpecific = 26"
definition AttrSessionTimeout :: byte where [attr_num]: "AttrSessionTimeout = 27"
definition AttrIdleTimeout :: byte where [attr_num]: "AttrIdleTimeout = 28"
definition AttrTerminationAction :: byte where [attr_num]: "AttrTerminationAction = 29"
definition AttrCalledStationID :: byte where [attr_num]: "AttrCalledStationID = 30"
definition AttrCallingStationID :: byte where [attr_num]: "AttrCallingStationID = 31"
definition AttrNASIdentifier :: byte where [attr_num]: "AttrNASIdentifier = 32"
definition AttrProxyState :: byte where [attr_num]: "AttrProxyState = 33"
definition AttrLoginLATService :: byte where [attr_num]: "AttrLoginLATService = 34"
definition AttrLoginLATNode :: byte where [attr_num]: "AttrLoginLATNode = 35"
definition AttrLoginLATGroup :: byte where [attr_num]: "AttrLoginLATGroup = 36"
definition AttrFramedAppleTalkLink :: byte where [attr_num]: "AttrFramedAppleTalkLink = 37"
definition AttrFramedAppleTalkNetwork :: byte where [attr_num]: "AttrFramedAppleTalkNetwork = 38"
definition AttrFramedAppleTalkZone :: byte where [attr_num]: "AttrFramedAppleTalkZone = 39"
definition AttrCHAPChallenge :: byte where [attr_num]: "AttrCHAPChallenge = 60"
definition AttrNASPortType :: byte where [attr_num]: "AttrNASPortType = 61"
definition AttrPortLimit :: byte where [attr_num]: "AttrPortLimit = 62"
definition AttrLoginLATPort :: byte where [attr_num]: "AttrLoginLATPort = 63"
definition AttrAcctStatusType :: byte where [attr_num]: "AttrAcctStatusType = 40"
definition AttrAcctDelayTime :: byte where [attr_num]: "AttrAcctDelayTime = 41"
definition AttrAcctInputOctets :: byte where [attr_num]: "AttrAcctInputOctets = 42"
definition AttrAcctOutputOctets :: byte where [attr_num]: "AttrAcctOutputOctets = 43"
definition AttrAcctSessionID :: byte where [attr_num]: "AttrAcctSessionID = 44"
definition AttrAcctAuthentic :: byte where [attr_num]: "AttrAcctAuthentic = 45"
definition AttrAcctSessionTime :: byte where [attr_num]: "AttrAcctSessionTime = 46"
definition AttrAcctInputPackets :: byte where [attr_num]: "AttrAcctInputPackets = 47"
definition AttrAcctOutputPackets :: byte where [attr_num]: "AttrAcctOutputPackets = 48"
definition AttrAcctTerminateCause :: byte where [attr_num]: "AttrAcctTerminateCause = 49"
definition AttrAcctMultiSessionID :: byte where [attr_num]: "AttrAcctMultiSessionID = 50"
definition AttrAcctLinkCount :: byte where [attr_num]: "AttrAcctLinkCount = 51"
definition AttrEAPMessage :: byte where [attr_num]: "AttrEAPMessage = 79"
definition AttrMessageAuthenticator :: byte where [attr_num]: "AttrMessageAuthenticator = 80"
definition AttrNASPortID :: byte where [attr_num]: "AttrNASPortID = 87"
definition AttrAcctInterimInterval :: byte where [attr_num]: "AttrAcctInterimInterval = 85"
definition AttrARAPPassword :: byte where [attr_num]: "AttrARAPPassword = 70"
definition AttrARAPFeatures :: byte where [attr_num]: "AttrARAPFeatures = 71"
definition AttrARAPZoneAccess :: byte where [attr_num]: "AttrARAPZoneAccess = 72"
definition AttrARAPSecurity :: byte where [attr_num]: "AttrARAPSecurity = 73"
definition AttrARAPSecurityData :: byte where [attr_num]: "AttrARAPSecurityData = 74"
definition AttrPasswordRetry :: byte where [attr_num]: "AttrPasswordRetry = 75"
definition AttrPrompt :: byte where [attr_num]: "AttrPrompt = 76"
definition AttrConnectInfo :: byte where [attr_num]: "AttrConnectInfo = 77"
definition AttrConfigurationToken :: byte where [attr_num]: "AttrConfigurationToken = 78"
definition AttrFramedPool :: byte where [attr_num]: "AttrFramedPool = 88"
definition AttrNASIPv6Address :: byte where [attr_num]: "AttrNASIPv6Address = 95"
definition AttrFramedInterfaceID :: byte where [attr_num]: "AttrFramedInterfaceID = 96"
definition AttrFramedIPv6Prefix :: byte where [attr_num]: "AttrFramedIPv6Prefix = 97"
definition AttrLoginIPv6Host :: byte where [attr_num]: "AttrLoginIPv6Host = 98"
definition AttrFramedIPv6Route :: byte where [attr_num]: "AttrFramedIPv6Route = 99"
definition AttrFramedIPv6Pool :: byte where [attr_num]: "AttrFramedIPv6Pool = 100"
definition AttrTunnelType :: byte where [attr_num]: "AttrTunnelType = 64"
definition AttrTunnelMediumType :: byte where [attr_num]: "AttrTunnelMediumType = 65"
definition AttrTunnelClientEndpoint :: byte where [attr_num]: "AttrTunnelClientEndpoint = 66"
definition AttrTunnelServerEndpoint :: byte where [attr_num]: "AttrTunnelServerEndpoint = 67"
definition AttrTunnelPassword :: byte where [attr_num]: "AttrTunnelPassword = 69"
definition AttrTunnelPrivateGroupID :: byte where [attr_num]: "AttrTunnelPrivateGroupID = 81"
definition AttrTunnelAssignmentID :: byte where [attr_num]: "AttrTunnelAssignmentID = 82"
definition AttrTunnelPreference :: byte where [attr_num]: "AttrTunnelPreference = 83"
definition AttrTunnelClientAuthID :: byte where [attr_num]: "AttrTunnelClientAuthID = 90"
definition AttrTunnelServerAuthID :: byte where [attr_num]: "AttrTunnelServerAuthID = 91"
definition AttrErrorCause :: byte where [attr_num]: "AttrErrorCause = 101"
definition AttrExtendedType1 :: byte where [attr_num]: "AttrExtendedType1 = 241"
definition AttrExtendedType2 :: byte where [attr_num]: "AttrExtendedType2 = 242"
definition AttrExtendedType3 :: byte where [attr_num]: "AttrExtendedType3 = 243"
definition AttrExtendedType4 :: byte where [attr_num]: "AttrExtendedType4 = 244"

section \<open>Limits and ports\<close>

definition PacketMinLength :: nat where [limit_num]: "PacketMinLength = 20"
definition PacketMaxLengthRFC2865 :: nat where [limit_num]: "PacketMaxLengthRFC2865 = 4096"
definition PacketMaxLengthRFC2866 :: nat where [limit_num]: "PacketMaxLengthRFC2866 = 4095"
definition AuthenticatorLength :: nat where [limit_num]: "AuthenticatorLength = 16"
definition AttrMinLength :: nat where [limit_num]: "AttrMinLength = 2"
definition AttrMaxLength :: nat where [limit_num]: "AttrMaxLength = 255"
definition AttrValueMaxLength :: nat where [limit_num]: "AttrValueMaxLength = 253"
definition UserPasswordMaxLength :: nat where [limit_num]: "UserPasswordMaxLength = 128"

definition PortAuth :: nat where [limit_num]: "PortAuth = 1812"
definition PortAccounting :: nat where [limit_num]: "PortAccounting = 1813"
definition PortCoA :: nat where [limit_num]: "PortCoA = 3799"
definition PortTCP :: nat where [limit_num]: "PortTCP = 5080"

lemma attr_numbers_distinct:
  "distinct [AttrUserName, AttrUserPassword, AttrCHAPPassword, AttrNASIPAddress, AttrNASPort, AttrServiceType, AttrFramedProtocol, AttrFramedIPAddress, AttrFramedIPNetmask, AttrFramedRouting, AttrFilterID, AttrFramedMTU, AttrFramedCompression, AttrLoginIPHost, AttrLoginService, AttrLoginTCPPort, AttrReplyMessage, AttrCallbackNumber, AttrCallbackID, AttrFramedRoute, AttrFramedIPXNetwork, AttrState, AttrClass, AttrVendorSpecific, AttrSessionTimeout, AttrIdleTimeout, AttrTerminationAction, AttrCalledStationID, AttrCallingStationID, AttrNASIdentifier, AttrProxyState, AttrLoginLATService, AttrLoginLATNode, AttrLoginLATGroup, AttrFramedAppleTalkLink, AttrFramedAppleTalkNetwork, AttrFramedAppleTalkZone, AttrCHAPChallenge, AttrNASPortType, AttrPortLimit, AttrLoginLATPort, AttrAcctStatusType, AttrAcctDelayTime, AttrAcctInputOctets, AttrAcctOutputOctets, AttrAcctSessionID, AttrAcctAuthentic, AttrAcctSessionTime, AttrAcctInputPackets, AttrAcctOutputPackets, AttrAcctTerminateCause, AttrAcctMultiSessionID, AttrAcctLinkCount, AttrEAPMessage, AttrMessageAuthenticator, AttrNASPortID, AttrAcctInterimInterval, AttrARAPPassword, AttrARAPFeatures, AttrARAPZoneAccess, AttrARAPSecurity, AttrARAPSecurityData, AttrPasswordRetry, AttrPrompt, AttrConnectInfo, AttrConfigurationToken, AttrFramedPool, AttrNASIPv6Address, AttrFramedInterfaceID, AttrFramedIPv6Prefix, AttrLoginIPv6Host, AttrFramedIPv6Route, AttrFramedIPv6Pool, AttrTunnelType, AttrTunnelMediumType, AttrTunnelClientEndpoint, AttrTunnelServerEndpoint, AttrTunnelPassword, AttrTunnelPrivateGroupID, AttrTunnelAssignmentID, AttrTunnelPreference, AttrTunnelClientAuthID, AttrTunnelServerAuthID, AttrErrorCause, AttrExtendedType1, AttrExtendedType2, AttrExtendedType3, AttrExtendedType4]"
  by (simp add: attr_num)

end
