(* ===== verification/Attribute.thy ===== *)
theory Attribute
  imports NetIP Errors Types
begin

text \<open>
  \<open>packet/attribute.go\<close>: one attribute (Type, Length, Value) with its wire encoding,
  constructors and typed readers. \<open>net.IP\<close> is a byte list; \<open>To4\<close> and \<open>To16\<close>
  are those of Go's \<open>net\<close> package. The wire codec is an instance of the interface
  \<open>tlv_codec\<close>, so the loop that parses an attribute section (of
  \<open>Packet.Unmarshal\<close>) inherits its round trip in both directions.
\<close>

record attribute =
  aType :: byte
  aValue :: bytes

definition MarshalBinary :: "attribute \<Rightarrow> bytes res" where
  "MarshalBinary a =
    (if length (aValue a) > AttrValueMaxLength then Inl ErrAttributeTooLong
     else Inr ([aType a, word_of_nat (2 + length (aValue a))] @ aValue a))"

definition UnmarshalAttribute :: "bytes \<Rightarrow> (attribute \<times> bytes) res" where
  "UnmarshalAttribute data =
    (if length data < 2 then Inl ErrShortBuffer
     else let attrType = data ! 0; attrLen = unat (data ! 1) in
       if attrLen < 2 then Inl ErrInvalidAttribute
       else if attrLen > length data then Inl ErrInvalidLength
       else Inr (\<lparr>aType = attrType, aValue = slice 2 attrLen data\<rparr>, drop attrLen data))"

section \<open>Typed readers\<close>

definition attr_String :: "attribute \<Rightarrow> bytes res" where
  "attr_String a = Inr (aValue a)"

definition attr_Integer :: "attribute \<Rightarrow> 32 word res" where
  "attr_Integer a =
    (if length (aValue a) \<noteq> 4 then Inl ErrInvalidAttribute else Inr (BE_Uint32 (aValue a)))"

definition attr_IPAddr :: "attribute \<Rightarrow> bytes res" where
  "attr_IPAddr a =
    (if length (aValue a) \<noteq> 4 then Inl ErrInvalidAttribute else Inr (aValue a))"

definition attr_IPv6Addr :: "attribute \<Rightarrow> bytes res" where
  "attr_IPv6Addr a =
    (if length (aValue a) \<noteq> 16 then Inl ErrInvalidAttribute else Inr (aValue a))"

definition attr_VendorSpecific :: "attribute \<Rightarrow> (32 word \<times> bytes) res" where
  "attr_VendorSpecific a =
    (if length (aValue a) < 5 then Inl ErrInvalidAttribute
     else Inr (BE_Uint32 (take 4 (aValue a)), drop 4 (aValue a)))"

section \<open>Constructors\<close>

definition NewString :: "byte \<Rightarrow> bytes \<Rightarrow> attribute" where
  "NewString t s = \<lparr>aType = t, aValue = s\<rparr>"

definition NewInteger :: "byte \<Rightarrow> 32 word \<Rightarrow> attribute" where
  "NewInteger t n = \<lparr>aType = t, aValue = BE_PutUint32 n\<rparr>"

definition NewIPAddr :: "byte \<Rightarrow> bytes \<Rightarrow> attribute" where
  "NewIPAddr t ip = \<lparr>aType = t,
     aValue = (case IP_To4 ip of None \<Rightarrow> replicate 4 0 | Some v4 \<Rightarrow> v4)\<rparr>"

definition NewIPv6Addr :: "byte \<Rightarrow> bytes \<Rightarrow> attribute" where
  "NewIPv6Addr t ip = \<lparr>aType = t,
     aValue = (case IP_To16 ip of None \<Rightarrow> replicate 16 0 | Some v6 \<Rightarrow> v6)\<rparr>"

definition NewOctets :: "byte \<Rightarrow> bytes \<Rightarrow> attribute" where
  "NewOctets t b = \<lparr>aType = t, aValue = b\<rparr>"

definition NewVendorSpecific :: "32 word \<Rightarrow> bytes \<Rightarrow> attribute" where
  "NewVendorSpecific vendorID data =
     \<lparr>aType = AttrVendorSpecific, aValue = BE_PutUint32 vendorID @ data\<rparr>"

section \<open>Parsing an attribute section\<close>

text \<open>The loop of \<open>Packet.Unmarshal\<close>: decode until the section is used up.\<close>

lemma UnmarshalAttribute_consumes:
  "UnmarshalAttribute data = Inr (a, rest) \<Longrightarrow> length rest < length data"
  by (auto simp: UnmarshalAttribute_def Let_def split: if_splits)

function parse_attributes :: "bytes \<Rightarrow> attribute list res" where
  "parse_attributes attrData =
    (if attrData = [] then Inr []
     else case UnmarshalAttribute attrData of Inl e \<Rightarrow> Inl e
       | Inr (a, remain) \<Rightarrow> (case parse_attributes remain of Inl e \<Rightarrow> Inl e
           | Inr attrs \<Rightarrow> Inr (a # attrs)))"
  by pat_completeness auto
termination
  by (relation "measure length") (auto dest: UnmarshalAttribute_consumes)

declare parse_attributes.simps [simp del]

text \<open>What the wire carries: an attribute whose value fits, and its encoding.\<close>

definition attr_fits :: "attribute \<Rightarrow> bool" where
  "attr_fits a \<longleftrightarrow> length (aValue a) \<le> 253"

definition attr_wire :: "attribute \<Rightarrow> bytes" where
  "attr_wire a = [aType a, word_of_nat (2 + length (aValue a))] @ aValue a"

lemma MarshalBinary_iff: "MarshalBinary a = Inr w \<longleftrightarrow> attr_fits a \<and> w = attr_wire a"
  by (auto simp: MarshalBinary_def attr_fits_def attr_wire_def limit_num)

lemma length_attr_wire [simp]: "length (attr_wire a) = 2 + length (aValue a)"
  by (simp add: attr_wire_def)

lemma Unmarshal_shape:
  "unat l = 2 + length v \<Longrightarrow>
   UnmarshalAttribute (t # l # v @ rest) = Inr (\<lparr>aType = t, aValue = v\<rparr>, rest)"
  by (simp add: UnmarshalAttribute_def slice_def)

lemma Unmarshal_attr_wire:
  assumes "attr_fits a" shows "UnmarshalAttribute (attr_wire a @ rest) = Inr (a, rest)"
proof -
  have "unat (word_of_nat (2 + length (aValue a)) :: byte) = 2 + length (aValue a)"
    by (rule unat_of_nat8) (use assms in \<open>simp add: attr_fits_def\<close>)
  from Unmarshal_shape [OF this] show ?thesis by (simp add: attr_wire_def)
qed

lemma Unmarshal_sound:
  assumes "UnmarshalAttribute data = Inr (a, rest)"
  shows "attr_fits a \<and> data = attr_wire a @ rest"
proof -
  let ?n = "unat (data ! 1)"
  from assms have c: "2 \<le> length data" "2 \<le> ?n" "?n \<le> length data"
    and a: "a = \<lparr>aType = data ! 0, aValue = slice 2 ?n data\<rparr>" and r: "rest = drop ?n data"
    by (auto simp: UnmarshalAttribute_def Let_def split: if_splits)
  have l: "length (slice 2 ?n data) = ?n - 2" using c by simp
  obtain x y ds where d: "data = x # y # ds" using c(1) by (cases data; cases "tl data") auto
  have "?n - 2 \<le> 253" using unat_byte_less [of "data ! 1"] by linarith
  then have "attr_fits a" using l by (simp add: a attr_fits_def)
  moreover have "2 + length (aValue a) = ?n" using l c(2) by (simp add: a)
  then have "word_of_nat (2 + length (aValue a)) = data ! 1" by (simp only:) simp
  moreover have "slice 2 ?n data @ rest = drop 2 data"
    using c r by (simp add: slice_def) (metis append_take_drop_id drop_drop le_add_diff_inverse2)
  ultimately show ?thesis
    by (simp add: attr_wire_def a d)
qed

interpretation attrs: tlv_codec attr_wire UnmarshalAttribute attr_fits parse_attributes
proof unfold_locales
  fix a rest bs
  show "attr_fits a \<Longrightarrow> UnmarshalAttribute (attr_wire a @ rest) = Inr (a, rest)"
    by (rule Unmarshal_attr_wire)
  show "UnmarshalAttribute bs = Inr (a, rest) \<Longrightarrow> attr_fits a \<and> bs = attr_wire a @ rest"
    by (rule Unmarshal_sound)
  show "attr_wire a \<noteq> []" by (simp add: attr_wire_def)
  show "parse_attributes bs = (if bs = [] then Inr []
      else case UnmarshalAttribute bs of Inl e \<Rightarrow> Inl e
        | Inr (a, rest) \<Rightarrow> (case parse_attributes rest of Inl e \<Rightarrow> Inl e
            | Inr as \<Rightarrow> Inr (a # as)))"
    by (rule parse_attributes.simps)
qed

lemmas parse_attributes_iff = attrs.parse_iff

section \<open>Properties\<close>

text \<open>
  An attribute whose value has at most 253 octets encodes to 2 + n octets that decode,
  whatever follows them, to the same attribute and leave what follows; one with a longer
  value is refused. Conversely whatever decodes is the encoding of the result followed by
  the rest: the wire form is canonical.
\<close>

theorem attribute_codec:
  "(case MarshalBinary a of
      Inl e \<Rightarrow> e = ErrAttributeTooLong \<and> length (aValue a) > 253
    | Inr w \<Rightarrow> length w = 2 + length (aValue a) \<and> UnmarshalAttribute (w @ rest) = Inr (a, rest))
   \<and> (case UnmarshalAttribute data of Inl e \<Rightarrow> True
      | Inr (b, remain) \<Rightarrow> \<exists>w. MarshalBinary b = Inr w \<and> data = w @ remain)"
proof (intro conjI)
  show "case MarshalBinary a of
      Inl e \<Rightarrow> e = ErrAttributeTooLong \<and> length (aValue a) > 253
    | Inr w \<Rightarrow> length w = 2 + length (aValue a) \<and> UnmarshalAttribute (w @ rest) = Inr (a, rest)"
  proof (cases "MarshalBinary a")
    case (Inl e)
    then show ?thesis by (auto simp: MarshalBinary_def limit_num split: if_splits)
  next
    case (Inr w)
    then have "attr_fits a" "w = attr_wire a" by (simp_all add: MarshalBinary_iff)
    with Inr show ?thesis by (simp add: Unmarshal_attr_wire)
  qed
  show "case UnmarshalAttribute data of Inl e \<Rightarrow> True
      | Inr (b, remain) \<Rightarrow> \<exists>w. MarshalBinary b = Inr w \<and> data = w @ remain"
    by (auto simp: MarshalBinary_iff split: sum.split dest: Unmarshal_sound)
qed

text \<open>
  The typed readers invert the constructors: integers, IPv4 and IPv6 addresses of
  the right size and vendor-specific payloads of at least one octet come back unchanged.
\<close>

theorem attribute_readers:
  "attr_Integer (NewInteger t n) = Inr n
   \<and> (length ip4 = 4 \<longrightarrow> attr_IPAddr (NewIPAddr t ip4) = Inr ip4)
   \<and> (length ip6 = 16 \<longrightarrow> attr_IPv6Addr (NewIPv6Addr t ip6) = Inr ip6)
   \<and> attr_VendorSpecific (NewVendorSpecific vid payload)
       = (if payload = [] then Inl ErrInvalidAttribute else Inr (vid, payload))"
  by (cases payload)
     (auto simp: attr_Integer_def NewInteger_def attr_IPAddr_def NewIPAddr_def IP_To4_def
      attr_IPv6Addr_def NewIPv6Addr_def IP_To16_def attr_VendorSpecific_def NewVendorSpecific_def)

theorem attribute_readers_witness:
  "attr_IPAddr (NewIPAddr 4 [10, 0, 0, 1]) = Inr [10, 0, 0, 1]
   \<and> attr_IPv6Addr (NewIPv6Addr 95 (replicate 16 1)) = Inr (replicate 16 1)"
  using attribute_readers [of 4 0 "[10, 0, 0, 1]" "replicate 16 1" 0 "[]"]
        attribute_readers [of 95 0 "[10, 0, 0, 1]" "replicate 16 1" 0 "[]"] by simp

end
