(* ===== verification/Digest.thy ===== *)
theory Digest
  imports Prelude
begin

text \<open>
  The digests of Go's standard library that the program calls: \<open>md5.Sum\<close> (RFC 1321) and
  \<open>hmac.New(md5.New, key)\<close> (RFC 2104). Both are executable; two published test vectors
  are checked by evaluation in the kernel. \<open>subtle.ConstantTimeCompare\<close> returns 1 exactly
  for equal byte strings of equal length, which is equality of byte lists.

  What the rest of the development uses of them is the interface \<open>block_digest\<close>: a digest
  has a fixed output length that is smaller than its block. HMAC keys are normalised to
  one block and HMAC outputs have the digest's length for every such digest.
\<close>

section \<open>MD5\<close>

type_synonym u32 = "32 word"
type_synonym md5_state = "u32 \<times> u32 \<times> u32 \<times> u32"

definition md5_K :: "u32 list" where
  "md5_K =
    [0xd76aa478, 0xe8c7b756, 0x242070db, 0xc1bdceee, 0xf57c0faf, 0x4787c62a,
     0xa8304613, 0xfd469501, 0x698098d8, 0x8b44f7af, 0xffff5bb1, 0x895cd7be,
     0x6b901122, 0xfd987193, 0xa679438e, 0x49b40821, 0xf61e2562, 0xc040b340,
     0x265e5a51, 0xe9b6c7aa, 0xd62f105d, 0x02441453, 0xd8a1e681, 0xe7d3fbc8,
     0x21e1cde6, 0xc33707d6, 0xf4d50d87, 0x455a14ed, 0xa9e3e905, 0xfcefa3f8,
     0x676f02d9, 0x8d2a4c8a, 0xfffa3942, 0x8771f681, 0x6d9d6122, 0xfde5380c,
     0xa4beea44, 0x4bdecfa9, 0xf6bb4b60, 0xbebfbc70, 0x289b7ec6, 0xeaa127fa,
     0xd4ef3085, 0x04881d05, 0xd9d4d039, 0xe6db99e5, 0x1fa27cf8, 0xc4ac5665,
     0xf4292244, 0x432aff97, 0xab9423a7, 0xfc93a039, 0x655b59c3, 0x8f0ccc92,
     0xffeff47d, 0x85845dd1, 0x6fa87e4f, 0xfe2ce6e0, 0xa3014314, 0x4e0811a1,
     0xf7537e82, 0xbd3af235, 0x2ad7d2bb, 0xeb86d391]"

definition md5_S :: "nat list" where
  "md5_S = concat (replicate 4 [7, 12, 17, 22]) @ concat (replicate 4 [5, 9, 14, 20]) @
     concat (replicate 4 [4, 11, 16, 23]) @ concat (replicate 4 [6, 10, 15, 21])"

definition LE_Uint32 :: "bytes \<Rightarrow> u32" where
  "LE_Uint32 b = ucast (b ! 0) OR push_bit 8 (ucast (b ! 1)) OR
                 push_bit 16 (ucast (b ! 2)) OR push_bit 24 (ucast (b ! 3))"

definition LE_PutUint32 :: "u32 \<Rightarrow> bytes" where
  "LE_PutUint32 v = [ucast v, ucast (drop_bit 8 v), ucast (drop_bit 16 v), ucast (drop_bit 24 v)]"

definition LE_PutUint64 :: "64 word \<Rightarrow> bytes" where
  "LE_PutUint64 v = map (\<lambda>i. ucast (drop_bit (8 * i) v)) [0..<8]"

fun md5_words :: "bytes \<Rightarrow> u32 list" where
  "md5_words (a # b # c # d # rest) = LE_Uint32 [a, b, c, d] # md5_words rest"
| "md5_words _ = []"

fun md5_round :: "u32 list \<Rightarrow> nat \<Rightarrow> u32 \<Rightarrow> nat \<Rightarrow> md5_state \<Rightarrow> md5_state" where
  "md5_round M i k s (a, b, c, d) =
    (let (f, g) =
       (if i < 16 then ((b AND c) OR (NOT b AND d), i)
        else if i < 32 then ((d AND b) OR (NOT d AND c), (5 * i + 1) mod 16)
        else if i < 48 then (b XOR c XOR d, (3 * i + 5) mod 16)
        else (c XOR (b OR NOT d), (7 * i) mod 16))
     in (d, b + word_rotl s (f + a + k + M ! g), b, c))"

definition md5_block :: "md5_state \<Rightarrow> bytes \<Rightarrow> md5_state" where
  "md5_block st bs =
    (let M = md5_words bs;
         (a, b, c, d) = st;
         (a', b', c', d') =
           foldl (\<lambda>s (i, k, r). md5_round M i k r s) st (zip [0..<64] (zip md5_K md5_S))
     in (a + a', b + b', c + c', d + d'))"

function md5_blocks :: "md5_state \<Rightarrow> bytes \<Rightarrow> md5_state" where
  "md5_blocks st bs =
    (if length bs < 64 then st else md5_blocks (md5_block st (take 64 bs)) (drop 64 bs))"
  by pat_completeness auto
termination by (relation "measure (\<lambda>(st, bs). length bs)") auto

definition md5_pad :: "bytes \<Rightarrow> bytes" where
  "md5_pad m = m @ [0x80] @ replicate ((119 - length m mod 64) mod 64) 0 @
     LE_PutUint64 (of_nat (8 * length m))"

definition md5_Sum :: "bytes \<Rightarrow> bytes" where
  "md5_Sum m =
    (let (a, b, c, d) =
       md5_blocks (0x67452301, 0xefcdab89, 0x98badcfe, 0x10325476) (md5_pad m)
     in LE_PutUint32 a @ LE_PutUint32 b @ LE_PutUint32 c @ LE_PutUint32 d)"

declare md5_blocks.simps [simp del]

lemma length_md5_Sum [simp]: "length (md5_Sum m) = 16"
  by (simp add: md5_Sum_def LE_PutUint32_def split: prod.split)

lemma length_LE_PutUint64 [simp]: "length (LE_PutUint64 v) = 8"
  by (simp add: LE_PutUint64_def)

lemma pad_to_64: "(n + ((119 - n mod 64) mod 64 + 9)) mod 64 = (0 :: nat)"
proof -
  define r where "r = n mod 64"
  have "r < 64" by (simp add: r_def)
  have "r + ((119 - r) mod 64 + 9) = 64 \<or> r + ((119 - r) mod 64 + 9) = 128"
  proof (cases "r \<le> 55")
    case True
    then have "119 - r = 64 + (55 - r)" by simp
    then have "(119 - r) mod 64 = 55 - r" by (simp only: mod_add_self1) simp
    with True show ?thesis by simp
  next
    case False
    then have "(119 - r) mod 64 = 119 - r" by simp
    with \<open>r < 64\<close> show ?thesis by simp
  qed
  then have "(r + ((119 - r) mod 64 + 9)) mod 64 = 0"
    by (elim disjE; simp only:) simp_all
  then have "(n + ((119 - r) mod 64 + 9)) mod 64 = 0" by (simp only: r_def mod_add_left_eq)
  then show ?thesis by (simp only: r_def)
qed

lemma length_md5_pad: "length (md5_pad m) mod 64 = 0"
proof -
  define k where "k = (119 - length m mod 64) mod 64"
  have "length (md5_pad m) = length m + (k + 9)"
    by (simp add: md5_pad_def flip: k_def)
  then show ?thesis by (simp only: k_def pad_to_64)
qed

text \<open>RFC 1321, appendix A.5: the digests of the empty message and of \<open>abc\<close>.\<close>

lemma md5_vector_empty:
  "md5_Sum [] = [0xd4, 0x1d, 0x8c, 0xd9, 0x8f, 0x00, 0xb2, 0x04,
                 0xe9, 0x80, 0x09, 0x98, 0xec, 0xf8, 0x42, 0x7e]"
  by code_simp

lemma md5_vector_abc:
  "md5_Sum [0x61, 0x62, 0x63] = [0x90, 0x01, 0x50, 0x98, 0x3c, 0xd2, 0x4f, 0xb0,
                                 0xd6, 0x96, 0x3f, 0x7d, 0x28, 0xe1, 0x7f, 0x72]"
  by code_simp

section \<open>HMAC\<close>

definition hmac_key :: "(bytes \<Rightarrow> bytes) \<Rightarrow> nat \<Rightarrow> bytes \<Rightarrow> bytes" where
  "hmac_key H bs key =
    (let k = (if length key > bs then H key else key) in k @ replicate (bs - length k) 0)"

definition hmac :: "(bytes \<Rightarrow> bytes) \<Rightarrow> nat \<Rightarrow> bytes \<Rightarrow> bytes \<Rightarrow> bytes" where
  "hmac H bs key msg =
    (let k = hmac_key H bs key;
         ipad = map (\<lambda>b. b XOR 0x36) k;
         opad = map (\<lambda>b. b XOR 0x5c) k
     in H (opad @ H (ipad @ msg)))"

definition hmac_md5 :: "bytes \<Rightarrow> bytes \<Rightarrow> bytes" where
  "hmac_md5 key msg = hmac md5_Sum 64 key msg"

locale block_digest =
  fixes H :: "bytes \<Rightarrow> bytes" and blk len :: nat
  assumes digest_length: "length (H m) = len"
    and len_le_blk: "len \<le> blk"
begin

lemma hmac_key_length: "length (hmac_key H blk key) = blk"
  using digest_length len_le_blk by (simp add: hmac_key_def Let_def)

lemma hmac_length: "length (hmac H blk key msg) = len"
  by (simp add: hmac_def Let_def digest_length)

end

interpretation md5: block_digest md5_Sum 64 16
  by unfold_locales auto

lemma length_hmac_md5 [simp]: "length (hmac_md5 key msg) = 16"
  by (simp add: hmac_md5_def md5.hmac_length)

text \<open>RFC 2202, test case 2: key \<open>Jefe\<close>, data \<open>what do ya want for nothing?\<close>.\<close>

lemma hmac_md5_vector:
  "hmac_md5 [0x4a, 0x65, 0x66, 0x65]
     [0x77, 0x68, 0x61, 0x74, 0x20, 0x64, 0x6f, 0x20, 0x79, 0x61, 0x20, 0x77, 0x61, 0x6e,
      0x74, 0x20, 0x66, 0x6f, 0x72, 0x20, 0x6e, 0x6f, 0x74, 0x68, 0x69, 0x6e, 0x67, 0x3f]
   = [0x75, 0x0c, 0x78, 0x3e, 0x6a, 0xb0, 0xb5, 0x03, 0xea, 0xa8, 0x6e, 0x31, 0x0a, 0x5d, 0xb7, 0x38]"
  by code_simp

section \<open>Comparison\<close>

definition ConstantTimeCompare :: "bytes \<Rightarrow> bytes \<Rightarrow> int" where
  "ConstantTimeCompare x y = (if length x \<noteq> length y then 0 else if x = y then 1 else 0)"

lemma ConstantTimeCompare_iff [simp]: "ConstantTimeCompare x y = 1 \<longleftrightarrow> x = y"
  by (simp add: ConstantTimeCompare_def)

end
