(* ===== verification/Password.thy ===== *)
theory Password
  imports Errors Types Digest
begin

text \<open>
  \<open>crypto/crypto.go\<close>: the Response and Accounting-Request authenticators, User-Password
  hiding (RFC 2865 section 5.2) and the Message-Authenticator HMAC.

  The hiding loop chains MD5 over the previous cipher block. Its round trip is proved
  once in the interface \<open>feedback_cipher\<close>: a block cipher in feedback mode whose
  key stream block depends on a state, the state after a block being that block of
  ciphertext. The User-Password loops are an instance here, the salted loops of
  \<open>crypto/tunnel.go\<close> another one in theory Tunnel.
\<close>

section \<open>Authenticators\<close>

definition zeros16 :: bytes where
  "zeros16 = replicate 16 0"

definition ComputeResponseAuthenticator ::
  "byte \<Rightarrow> byte \<Rightarrow> 16 word \<Rightarrow> bytes \<Rightarrow> bytes \<Rightarrow> bytes \<Rightarrow> bytes" where
  "ComputeResponseAuthenticator code ident len requestAuth attributes secret =
     md5_Sum ([code, ident] @ BE_PutUint16 len @ requestAuth @ attributes @ secret)"

definition ComputeAccountingRequestAuthenticator ::
  "byte \<Rightarrow> byte \<Rightarrow> 16 word \<Rightarrow> bytes \<Rightarrow> bytes \<Rightarrow> bytes" where
  "ComputeAccountingRequestAuthenticator code ident len attributes secret =
     md5_Sum ([code, ident] @ BE_PutUint16 len @ zeros16 @ attributes @ secret)"

definition ComputeMessageAuthenticator :: "bytes \<Rightarrow> bytes \<Rightarrow> bytes" where
  "ComputeMessageAuthenticator packetBytes secret = hmac_md5 secret packetBytes"

definition crypto_VerifyMessageAuthenticator :: "bytes \<Rightarrow> bytes \<Rightarrow> bytes \<Rightarrow> bool" where
  "crypto_VerifyMessageAuthenticator packetBytes received secret \<longleftrightarrow>
     ConstantTimeCompare (ComputeMessageAuthenticator packetBytes secret) received = 1"

definition EqualConstantTime :: "bytes \<Rightarrow> bytes \<Rightarrow> bool" where
  "EqualConstantTime a b \<longleftrightarrow> ConstantTimeCompare a b = 1"

lemma EqualConstantTime_iff [simp]: "EqualConstantTime a b \<longleftrightarrow> a = b"
  by (simp add: EqualConstantTime_def)

lemma length_authenticators [simp]:
  "length (ComputeResponseAuthenticator c i l ra as s) = 16"
  "length (ComputeAccountingRequestAuthenticator c i l as s) = 16"
  "length (ComputeMessageAuthenticator p s) = 16"
  by (simp_all add: ComputeResponseAuthenticator_def ComputeAccountingRequestAuthenticator_def
      ComputeMessageAuthenticator_def)

text \<open>
  The accounting formula is the response formula with a Request Authenticator of
  16 zero octets.
\<close>

lemma accounting_is_response_zero:
  "ComputeAccountingRequestAuthenticator c i l as s = ComputeResponseAuthenticator c i l zeros16 as s"
  by (simp add: ComputeAccountingRequestAuthenticator_def ComputeResponseAuthenticator_def)

section \<open>Feedback ciphers\<close>

locale feedback_cipher =
  fixes ks :: "bytes \<Rightarrow> bytes"
    and enc dec :: "bytes \<Rightarrow> bytes \<Rightarrow> bytes"
  assumes ks_length: "length (ks prev) = 16"
    and enc_step: "enc prev p = (if p = [] then []
          else let c = xor_bytes (take 16 p) (ks prev) in c @ enc c (drop 16 p))"
    and dec_step: "dec prev c = (if c = [] then []
          else xor_bytes (take 16 c) (ks prev) @ dec (take 16 c) (drop 16 c))"
begin

lemma length_enc: "length (enc prev p) = length p"
proof (induction "length p" arbitrary: prev p rule: less_induct)
  case less
  show ?case
  proof (cases "p = []")
    case True
    then show ?thesis by (subst enc_step) simp
  next
    case False
    then have "length (drop 16 p) < length p" by simp
    note less.hyps [OF this]
    with False show ?thesis by (subst enc_step) (auto simp: Let_def ks_length)
  qed
qed

lemma dec_enc: "16 dvd length p \<Longrightarrow> dec prev (enc prev p) = p"
proof (induction "length p" arbitrary: prev p rule: less_induct)
  case less
  show ?case
  proof (cases "p = []")
    case True
    then show ?thesis by (subst enc_step, subst dec_step) simp
  next
    case False
    let ?c = "xor_bytes (take 16 p) (ks prev)"
    from False less.prems have "16 \<le> length p" by (simp add: dvd_imp_le)
    then have c: "length ?c = 16" by (simp add: ks_length)
    have lt: "length (drop 16 p) < length p" and dv: "16 dvd length (drop 16 p)"
      using False less.prems by (auto simp: dvd_diff_nat)
    have e: "enc prev p = ?c @ enc ?c (drop 16 p)"
      by (subst enc_step) (use False in \<open>simp add: Let_def\<close>)
    from c have "?c @ enc ?c (drop 16 p) \<noteq> []"
      by (metis append_is_Nil_conv list.size(3) zero_neq_numeral)
    then have "dec prev (enc prev p) = xor_bytes ?c (ks prev) @ dec ?c (enc ?c (drop 16 p))"
      unfolding e by (subst dec_step) (simp only: if_False split_at_16 [OF c])
    also have "xor_bytes ?c (ks prev) = take 16 p"
      by (rule xor_bytes_cancel) (simp add: ks_length)
    finally show ?thesis by (simp add: less.hyps [OF lt dv])
  qed
qed

end

section \<open>User-Password hiding\<close>

text \<open>
  The block loop of \<open>encryptUserPassword\<close> on the padded password: \<open>prev\<close> is the
  previous ciphertext block, first the Request Authenticator.
\<close>

function encrypt_blocks :: "bytes \<Rightarrow> bytes \<Rightarrow> bytes \<Rightarrow> bytes" where
  "encrypt_blocks secret prev padded =
    (if padded = [] then []
     else let b = md5_Sum (secret @ prev);
              c = xor_bytes (take 16 padded) b
          in c @ encrypt_blocks secret c (drop 16 padded))"
  by pat_completeness auto
termination by (relation "measure (\<lambda>(s, prev, p). length p)") auto

function decrypt_blocks :: "bytes \<Rightarrow> bytes \<Rightarrow> bytes \<Rightarrow> bytes" where
  "decrypt_blocks secret prev ciphertext =
    (if ciphertext = [] then []
     else let b = md5_Sum (secret @ prev)
          in xor_bytes (take 16 ciphertext) b @
             decrypt_blocks secret (take 16 ciphertext) (drop 16 ciphertext))"
  by pat_completeness auto
termination by (relation "measure (\<lambda>(s, prev, c). length c)") auto

declare encrypt_blocks.simps [simp del] decrypt_blocks.simps [simp del]

interpretation up: feedback_cipher "\<lambda>prev. md5_Sum (secret @ prev)"
  "encrypt_blocks secret" "decrypt_blocks secret" for secret
proof unfold_locales
  fix prev p c
  show "encrypt_blocks secret prev p = (if p = [] then []
      else let c = xor_bytes (take 16 p) (md5_Sum (secret @ prev))
           in c @ encrypt_blocks secret c (drop 16 p))"
    by (subst encrypt_blocks.simps) (simp add: Let_def)
  show "decrypt_blocks secret prev c = (if c = [] then []
      else xor_bytes (take 16 c) (md5_Sum (secret @ prev)) @
           decrypt_blocks secret (take 16 c) (drop 16 c))"
    by (subst decrypt_blocks.simps) (simp add: Let_def)
qed simp

definition padded_len :: "nat \<Rightarrow> nat" where
  "padded_len n = (let l = ((n + 15) div 16) * 16 in if l = 0 then 16 else l)"

definition encryptUserPassword :: "bytes \<Rightarrow> bytes \<Rightarrow> bytes \<Rightarrow> bytes" where
  "encryptUserPassword password requestAuth secret =
     encrypt_blocks secret requestAuth
       (password @ replicate (padded_len (length password) - length password) 0)"

definition decryptUserPasswordBlocks :: "bytes \<Rightarrow> bytes \<Rightarrow> bytes \<Rightarrow> bytes" where
  "decryptUserPasswordBlocks ciphertext requestAuth secret =
     decrypt_blocks secret requestAuth ciphertext"

definition EncryptUserPassword :: "bytes \<Rightarrow> bytes \<Rightarrow> bytes \<Rightarrow> bytes res" where
  "EncryptUserPassword password requestAuth secret =
    (if length secret = 0 then Inl ErrSecretEmpty
     else if length password > UserPasswordMaxLength then Inl ErrPasswordTooLong
     else Inr (encryptUserPassword password requestAuth secret))"

text \<open>\<open>strip_nuls\<close> is the loop that drops trailing NUL octets.\<close>

definition strip_nuls :: "bytes \<Rightarrow> bytes" where
  "strip_nuls p = rev (dropWhile (\<lambda>b. b = 0) (rev p))"

definition DecryptUserPassword :: "bytes \<Rightarrow> bytes \<Rightarrow> bytes \<Rightarrow> bytes res" where
  "DecryptUserPassword ciphertext requestAuth secret =
    (if length secret = 0 then Inl ErrSecretEmpty
     else if length ciphertext = 0 \<or> length ciphertext mod 16 \<noteq> 0
             \<or> length ciphertext > UserPasswordMaxLength then Inl ErrInvalidAttribute
     else Inr (strip_nuls (decryptUserPasswordBlocks ciphertext requestAuth secret)))"

subsection \<open>Lengths\<close>

lemma padded_len_ge: "n \<le> padded_len n"
  by (simp add: padded_len_def Let_def) linarith

lemma padded_len_dvd: "16 dvd padded_len n"
  by (simp add: padded_len_def Let_def)

lemma padded_len_le: "n \<le> 128 \<Longrightarrow> padded_len n \<le> 128"
  by (simp add: padded_len_def Let_def) linarith

lemma padded_len_pos: "16 \<le> padded_len n"
  by (simp add: padded_len_def Let_def)

lemma length_encryptUserPassword [simp]:
  "length (encryptUserPassword pw ra s) = padded_len (length pw)"
  using padded_len_ge [of "length pw"]
  by (simp add: encryptUserPassword_def up.length_enc)

lemma strip_nuls_padding: "p = [] \<or> last p \<noteq> 0 \<Longrightarrow> strip_nuls (p @ replicate n 0) = p"
proof -
  assume a: "p = [] \<or> last p \<noteq> 0"
  have "dropWhile (\<lambda>b. b = 0) (replicate n (0::byte) @ rev p) = dropWhile (\<lambda>b. b = 0) (rev p)"
    by (induction n) auto
  moreover from a have "dropWhile (\<lambda>b. b = 0) (rev p) = rev p"
    by (cases p rule: rev_cases) auto
  ultimately show ?thesis by (simp add: strip_nuls_def)
qed

lemma strip_nuls_prefix: "\<exists>n. p = strip_nuls p @ replicate n 0"
proof -
  have "rev p = takeWhile (\<lambda>b. b = 0) (rev p) @ dropWhile (\<lambda>b. b = 0) (rev p)" by simp
  moreover have "takeWhile (\<lambda>b. b = 0) (rev p) = replicate (length (takeWhile (\<lambda>b. b = 0) (rev p))) (0::byte)"
    by (rule replicate_length_same [symmetric]) (auto dest: set_takeWhileD)
  ultimately have "rev p = replicate (length (takeWhile (\<lambda>b. b = 0) (rev p))) 0 @ dropWhile (\<lambda>b. b = 0) (rev p)"
    by metis
  then have "p = strip_nuls p @ replicate (length (takeWhile (\<lambda>b. b = 0) (rev p))) 0"
    unfolding strip_nuls_def by (metis rev_append rev_replicate rev_rev_ident)
  then show ?thesis ..
qed

subsection \<open>Properties\<close>

lemma decrypt_encrypt_blocks:
  "decryptUserPasswordBlocks (encryptUserPassword pw ra s) ra s =
   pw @ replicate (padded_len (length pw) - length pw) 0"
proof -
  have "16 dvd length (pw @ replicate (padded_len (length pw) - length pw) (0::byte))"
    using padded_len_ge [of "length pw"] padded_len_dvd [of "length pw"] by simp
  then show ?thesis
    by (simp add: encryptUserPassword_def decryptUserPasswordBlocks_def up.dec_enc)
qed

lemma strip_nuls_append_zeros: "strip_nuls (p @ replicate n 0) = strip_nuls p"
proof -
  have "dropWhile (\<lambda>b. b = 0) (replicate n (0::byte) @ rev p) = dropWhile (\<lambda>b. b = 0) (rev p)"
    by (induction n) auto
  then show ?thesis by (simp add: strip_nuls_def)
qed

text \<open>
  C26: RFC 2865 section 5.2: a password of at most 128 octets is hidden into 16 to 128 octets, a
  multiple of 16, and revealing it under the same Request Authenticator and secret gives it
  back up to trailing NUL octets; a password that does not end in NUL comes back exactly.
\<close>

theorem user_password_roundtrip:
  assumes "secret \<noteq> []" and "length pw \<le> 128"
  shows "\<exists>c. EncryptUserPassword pw ra secret = Inr c \<and> 16 dvd length c
      \<and> 16 \<le> length c \<and> length c \<le> 128
      \<and> DecryptUserPassword c ra secret = Inr (strip_nuls pw)
      \<and> (pw = [] \<or> last pw \<noteq> 0 \<longrightarrow> strip_nuls pw = pw)"
proof -
  let ?c = "encryptUserPassword pw ra secret"
  have len: "length ?c = padded_len (length pw)" by simp
  have e: "EncryptUserPassword pw ra secret = Inr ?c"
    using assms by (simp add: EncryptUserPassword_def limit_num)
  have dvd: "16 dvd length ?c" and lo: "16 \<le> length ?c" and hi: "length ?c \<le> 128"
    unfolding len using padded_len_dvd padded_len_pos padded_len_le [OF assms(2)] by auto
  have "decryptUserPasswordBlocks ?c ra secret = pw @ replicate (padded_len (length pw) - length pw) 0"
    by (rule decrypt_encrypt_blocks)
  then have d: "DecryptUserPassword ?c ra secret = Inr (strip_nuls pw)"
    using assms(1) dvd lo hi
    by (simp only: DecryptUserPassword_def strip_nuls_append_zeros) (auto simp: limit_num)
  show ?thesis
    using e d dvd lo hi strip_nuls_padding [of pw 0] by (intro exI [of _ ?c]) simp
qed

theorem user_password_roundtrip_witness:
  "\<exists>c. EncryptUserPassword [0x70, 0x77] (replicate 16 7) [0x73] = Inr c
     \<and> DecryptUserPassword c (replicate 16 7) [0x73] = Inr [0x70, 0x77]"
  using user_password_roundtrip [of "[0x73]" "[0x70, 0x77]" "replicate 16 7"] by auto

end
