(* ===== verification/Packet.thy ===== *)
theory Packet
  imports Attribute Password
begin

text \<open>
  \<open>packet/packet.go\<close>: the RADIUS packet, its serialisation and parsing, the checks of the
  Response Authenticator and of the Message-Authenticator, and the operations on the
  attribute list. An authenticator is a 16-octet array in Go: \<open>wf_packet\<close> states it.

  Lemma groups: the shape of what \<open>Marshal\<close> writes (\<open>Marshal_eq\<close>), the attribute
  section as a list of attributes (\<open>serialize_sealed\<close>, \<open>zeroMA_wire\<close>,
  \<open>find_ma_wire\<close>), and the properties built on them.
\<close>

record packet =
  pCode :: code
  pIdentifier :: byte
  pAuthenticator :: bytes
  pAttributes :: "attribute list"

definition empty_packet :: packet where
  "empty_packet = \<lparr>pCode = 0, pIdentifier = 0, pAuthenticator = replicate 16 0, pAttributes = []\<rparr>"

definition wf_packet :: "packet \<Rightarrow> bool" where
  "wf_packet p \<longleftrightarrow> length (pAuthenticator p) = 16"

section \<open>Codes and limits\<close>

definition isValidCode :: "code \<Rightarrow> bool" where
  "isValidCode c \<longleftrightarrow> c \<in> set [AccessRequest, AccessAccept, AccessReject, AccessChallenge,
     AccountingRequest, AccountingResponse, CoARequest, CoAACK, CoANAK,
     DisconnectRequest, DisconnectACK, DisconnectNAK]"

definition isResponseCode :: "code \<Rightarrow> bool" where
  "isResponseCode c \<longleftrightarrow> c \<in> set [AccessAccept, AccessReject, AccessChallenge, AccountingResponse,
     CoAACK, CoANAK, DisconnectACK, DisconnectNAK]"

definition maxLengthForCode :: "code \<Rightarrow> nat" where
  "maxLengthForCode c = (if IsAccounting c then PacketMaxLengthRFC2866 else PacketMaxLengthRFC2865)"

text \<open>The three request codes whose authenticator is a digest (RFC 2866, RFC 5176).\<close>

definition isDigestRequest :: "code \<Rightarrow> bool" where
  "isDigestRequest c \<longleftrightarrow> c = AccountingRequest \<or> c = CoARequest \<or> c = DisconnectRequest"

section \<open>Marshal\<close>

text \<open>
  The loop of \<open>serializeAttributes\<close>: the bytes written so far and the offset of the
  Message-Authenticator (\<open>None\<close> for -1).
\<close>

fun serialize_loop ::
  "packet \<Rightarrow> bytes \<Rightarrow> attribute list \<Rightarrow> bytes \<Rightarrow> nat option \<Rightarrow> (bytes \<times> nat option) res" where
  "serialize_loop p secret [] attrBytes msgAuthOffset = Inr (attrBytes, msgAuthOffset)"
| "serialize_loop p secret (a # as) attrBytes msgAuthOffset =
    (case (if aType a = AttrUserPassword \<and> pCode p = AccessRequest
           then (case EncryptUserPassword (aValue a) (pAuthenticator p) secret of
                   Inl e \<Rightarrow> Inl e
                 | Inr encrypted \<Rightarrow> MarshalBinary \<lparr>aType = aType a, aValue = encrypted\<rparr>)
           else MarshalBinary a) of
       Inl e \<Rightarrow> Inl e
     | Inr ab \<Rightarrow>
         if aType a = AttrMessageAuthenticator then
           (if msgAuthOffset \<noteq> None then Inl ErrInvalidAttribute
            else serialize_loop p secret as (attrBytes @ ab) (Some (length attrBytes)))
         else serialize_loop p secret as (attrBytes @ ab) msgAuthOffset)"

definition serializeAttributes :: "packet \<Rightarrow> bytes \<Rightarrow> (bytes \<times> nat option) res" where
  "serializeAttributes p secret = serialize_loop p secret (pAttributes p) [] None"

text \<open>
  The four writes of \<open>Marshal\<close> into the buffer \<open>out\<close>, in order: zero the
  Message-Authenticator value (an index past the end panics), the Request
  Authenticator, the HMAC, the Response Authenticator.
\<close>

definition zero_ma_value :: "nat option \<Rightarrow> bytes \<Rightarrow> bytes res" where
  "zero_ma_value msgAuthOffset out =
    (case msgAuthOffset of None \<Rightarrow> Inr out
     | Some off \<Rightarrow> let valueStart = 20 + off + 2 in
         if valueStart + 16 > length out then Inl GoPanic
         else Inr (overwrite valueStart (replicate 16 0) out))"

definition write_request_auth :: "packet \<Rightarrow> nat \<Rightarrow> bytes \<Rightarrow> bytes \<Rightarrow> bytes" where
  "write_request_auth p len secret out =
    (if pCode p = AccessRequest \<or> isResponseCode (pCode p)
     then overwrite 4 (pAuthenticator p) out
     else if isDigestRequest (pCode p)
     then overwrite 4 (ComputeAccountingRequestAuthenticator (pCode p) (pIdentifier p)
                        (word_of_nat len) (drop 20 out) secret) out
     else out)"

definition write_ma :: "nat option \<Rightarrow> bytes \<Rightarrow> bytes \<Rightarrow> bytes" where
  "write_ma msgAuthOffset secret out =
    (case msgAuthOffset of None \<Rightarrow> out
     | Some off \<Rightarrow> overwrite (20 + off + 2) (ComputeMessageAuthenticator out secret) out)"

definition write_response_auth :: "packet \<Rightarrow> nat \<Rightarrow> bytes \<Rightarrow> bytes \<Rightarrow> bytes" where
  "write_response_auth p len secret out =
    (if isResponseCode (pCode p)
     then overwrite 4 (ComputeResponseAuthenticator (pCode p) (pIdentifier p) (word_of_nat len)
                        (pAuthenticator p) (drop 20 out) secret) out
     else out)"

definition Marshal :: "packet \<Rightarrow> bytes \<Rightarrow> bytes res" where
  "Marshal p secret =
    (if length secret = 0 then Inl ErrSecretEmpty
     else if \<not> isValidCode (pCode p) then Inl ErrInvalidCode
     else case serializeAttributes p secret of Inl e \<Rightarrow> Inl e
       | Inr (attrBytes, msgAuthOffset) \<Rightarrow>
           let len = PacketMinLength + length attrBytes in
           if len > maxLengthForCode (pCode p) then Inl ErrInvalidLength
           else let out = [pCode p, pIdentifier p] @ BE_PutUint16 (word_of_nat len)
                          @ replicate 16 0 @ attrBytes in
             (case zero_ma_value msgAuthOffset out of Inl e \<Rightarrow> Inl e
              | Inr out1 \<Rightarrow>
                  let out2 = write_request_auth p len secret out1;
                      out3 = write_ma msgAuthOffset secret out2
                  in Inr (write_response_auth p len secret out3)))"

section \<open>Unmarshal\<close>

text \<open>The index loop of \<open>zeroMessageAuthenticatorValueInPlace\<close>.\<close>

function zeroMA_from :: "nat \<Rightarrow> bytes \<Rightarrow> bytes" where
  "zeroMA_from i attrs =
    (if i + 2 \<le> length attrs then
       let attrType = attrs ! i; attrLen = unat (attrs ! (i + 1)) in
       if attrLen < 2 \<or> attrLen > length attrs - i then attrs
       else if attrType = AttrMessageAuthenticator \<and> attrLen = 18
       then overwrite (i + 2) (replicate 16 0) attrs
       else zeroMA_from (i + attrLen) attrs
     else attrs)"
  by pat_completeness auto
termination by (relation "measure (\<lambda>(i, attrs). length attrs - i)") auto

declare zeroMA_from.simps [simp del]

definition zeroMessageAuthenticatorValueInPlace :: "bytes \<Rightarrow> bytes" where
  "zeroMessageAuthenticatorValueInPlace attrs = zeroMA_from 0 attrs"

text \<open>
  \<open>Unmarshal\<close> fills the receiver before it checks the digest of the three digest
  requests, so the receiver is part of the result also when that check fails.
\<close>

definition Unmarshal :: "packet \<Rightarrow> bytes \<Rightarrow> bytes \<Rightarrow> packet \<times> unit res" where
  "Unmarshal p data secret =
    (if length data < PacketMinLength then (p, Inl ErrShortBuffer)
     else let code = data ! 0 in
       if \<not> isValidCode code then (p, Inl ErrInvalidCode)
       else let ident = data ! 1; len = BE_Uint16 (slice 2 4 data); n = unat len in
         if n < PacketMinLength then (p, Inl ErrInvalidLength)
         else if n > maxLengthForCode code then (p, Inl ErrInvalidLength)
         else if length data < n then (p, Inl ErrShortBuffer)
         else let auth = slice 4 20 data in
           case parse_attributes (slice 20 n data) of Inl e \<Rightarrow> (p, Inl e)
           | Inr attrs \<Rightarrow>
               let p' = \<lparr>pCode = code, pIdentifier = ident, pAuthenticator = auth,
                         pAttributes = attrs\<rparr> in
               if code = AccountingRequest \<or> code = CoARequest \<or> code = DisconnectRequest then
                 let attrCopy = zeroMessageAuthenticatorValueInPlace (slice 20 n data);
                     expected = ComputeAccountingRequestAuthenticator code ident len attrCopy secret
                 in if \<not> EqualConstantTime expected auth then (p', Inl ErrAuthenticatorMismatch)
                    else (p', Inr ())
               else (p', Inr ()))"

text \<open>The callers' pattern: parse into a fresh packet and drop it on an error.\<close>

definition Unmarshal_fresh :: "bytes \<Rightarrow> bytes \<Rightarrow> packet res" where
  "Unmarshal_fresh data secret =
    (case Unmarshal empty_packet data secret of (p, Inl e) \<Rightarrow> Inl e | (p, Inr u) \<Rightarrow> Inr p)"

section \<open>Reply verification\<close>

text \<open>A Length field below 20 makes the slice \<open>rawPacket[20:length]\<close> panic.\<close>

definition VerifyResponseAuthenticator :: "bytes \<Rightarrow> bytes \<Rightarrow> bytes \<Rightarrow> unit res" where
  "VerifyResponseAuthenticator rawPacket requestAuth secret =
    (if length rawPacket < PacketMinLength then Inl ErrShortBuffer
     else let code = rawPacket ! 0 in
       if \<not> isResponseCode code then Inl ErrInvalidCode
       else let ident = rawPacket ! 1; len = BE_Uint16 (slice 2 4 rawPacket); n = unat len in
         if n > length rawPacket then Inl ErrShortBuffer
         else if n < 20 then Inl GoPanic
         else let auth = slice 4 20 rawPacket;
                  expected = ComputeResponseAuthenticator code ident len requestAuth
                               (slice 20 n rawPacket) secret
              in if \<not> EqualConstantTime expected auth then Inl ErrAuthenticatorMismatch
                 else Inr ())"

text \<open>The search for the Message-Authenticator in the body of \<open>bodyLen\<close> octets.\<close>

function find_ma :: "nat \<Rightarrow> bytes \<Rightarrow> nat option res" where
  "find_ma bodyLen rest =
    (if rest = [] then Inr None
     else let startOff = bodyLen - length rest in
       case UnmarshalAttribute rest of Inl e \<Rightarrow> Inl e
       | Inr (a, remain) \<Rightarrow>
           if aType a = AttrMessageAuthenticator then Inr (Some (20 + startOff))
           else find_ma bodyLen remain)"
  by pat_completeness auto
termination
  by (relation "measure (\<lambda>(n, rest). length rest)") (auto dest: UnmarshalAttribute_consumes)

declare find_ma.simps [simp del]

definition VerifyMessageAuthenticator :: "bytes \<Rightarrow> bytes \<Rightarrow> bytes \<Rightarrow> unit res" where
  "VerifyMessageAuthenticator rawPacket requestAuth secret =
    (if length rawPacket < PacketMinLength then Inl ErrShortBuffer
     else let code = rawPacket ! 0; n = unat (BE_Uint16 (slice 2 4 rawPacket)) in
       if n > length rawPacket then Inl ErrShortBuffer
       else if n < 20 then Inl GoPanic
       else case find_ma (n - 20) (slice 20 n rawPacket) of Inl e \<Rightarrow> Inl e
       | Inr None \<Rightarrow> Inl ErrMessageAuthenticatorMissing
       | Inr (Some offset) \<Rightarrow>
           if length (drop offset rawPacket) < 18 then Inl ErrInvalidAttribute
           else let zeroed = overwrite (offset + 2) (replicate 16 0) rawPacket;
                    copyBuf = (if code = AccessRequest \<or> code = AccountingRequest
                                  \<or> code = CoARequest \<or> code = DisconnectRequest
                               then zeroed else overwrite 4 requestAuth zeroed);
                    received = slice (offset + 2) (offset + 18) rawPacket
                in if \<not> crypto_VerifyMessageAuthenticator copyBuf received secret
                   then Inl ErrMessageAuthenticatorMismatch else Inr ())"

section \<open>The attribute list\<close>

definition packet_Add :: "attribute \<Rightarrow> packet \<Rightarrow> packet" where
  "packet_Add attr p = p\<lparr>pAttributes := pAttributes p @ [attr]\<rparr>"

fun get_all :: "byte \<Rightarrow> attribute list \<Rightarrow> attribute list" where
  "get_all t [] = []"
| "get_all t (a # as) = (if aType a = t then a # get_all t as else get_all t as)"

definition packet_Get :: "byte \<Rightarrow> packet \<Rightarrow> attribute list" where
  "packet_Get attrType p = get_all attrType (pAttributes p)"

fun get_first :: "byte \<Rightarrow> attribute list \<Rightarrow> attribute option" where
  "get_first t [] = None"
| "get_first t (a # as) = (if aType a = t then Some a else get_first t as)"

definition packet_GetOne :: "byte \<Rightarrow> packet \<Rightarrow> attribute option" where
  "packet_GetOne attrType p = get_first attrType (pAttributes p)"

fun set_loop :: "attribute \<Rightarrow> bool \<Rightarrow> attribute list \<Rightarrow> attribute list" where
  "set_loop attr found [] = (if found then [] else [attr])"
| "set_loop attr found (a # as) =
    (if aType a = aType attr
     then (if \<not> found then attr # set_loop attr True as else set_loop attr found as)
     else a # set_loop attr found as)"

definition packet_Set :: "attribute \<Rightarrow> packet \<Rightarrow> packet" where
  "packet_Set attr p = p\<lparr>pAttributes := set_loop attr False (pAttributes p)\<rparr>"

fun delete_loop :: "byte \<Rightarrow> nat \<Rightarrow> attribute list \<Rightarrow> nat \<times> attribute list" where
  "delete_loop t n [] = (n, [])"
| "delete_loop t n (a # as) =
    (if aType a = t then delete_loop t (n + 1) as
     else let (m, rest) = delete_loop t n as in (m, a # rest))"

definition packet_Delete :: "byte \<Rightarrow> packet \<Rightarrow> packet \<times> nat" where
  "packet_Delete attrType p =
    (let (n, rest) = delete_loop attrType 0 (pAttributes p) in (p\<lparr>pAttributes := rest\<rparr>, n))"

definition packet_IsAccess :: "packet \<Rightarrow> bool" where
  "packet_IsAccess p = IsAccess (pCode p)"

definition packet_IsAccounting :: "packet \<Rightarrow> bool" where
  "packet_IsAccounting p = IsAccounting (pCode p)"

definition packet_IsCoA :: "packet \<Rightarrow> bool" where
  "packet_IsCoA p = IsDynamicAuthorization (pCode p)"

end
