(* ===== verification/Transport.thy ===== *)
theory Transport
  imports Packet
begin

text \<open>
  \<open>transport/\<close>: reading and writing RADIUS packets on UDP sockets and on TCP, TLS and DTLS
  connections. What the operating system (and pion/dtls) does is an explicit environment
  inside the connection: the results its \<open>Read\<close> and \<open>Write\<close> calls are going to give, in
  order. An error from outside is described by what \<open>errors.Is\<close> and \<open>errors.As\<close> find in it
  (\<open>net_error\<close>). A stream whose script is used up has been closed by the peer
  (\<open>io.EOF\<close>); a UDP socket whose script is used up blocks (\<open>None\<close>). Locks and log
  records are left out: a write is one step of the model, which is what the locks give.
\<close>

section \<open>Errors and contexts\<close>

record net_error =
  neText :: string
  neClosed :: bool          \<comment> \<open>\<open>errors.Is(err, net.ErrClosed)\<close>\<close>
  nePionClosed :: bool      \<comment> \<open>\<open>errors.Is(err, piondtls.ErrConnClosed)\<close>\<close>
  neDeadline :: bool        \<comment> \<open>\<open>errors.Is(err, os.ErrDeadlineExceeded)\<close>\<close>
  neTimeout :: bool         \<comment> \<open>\<open>errors.As(err, &ne) && ne.Timeout()\<close>\<close>
  neEOF :: bool             \<comment> \<open>\<open>errors.Is(err, io.EOF)\<close>\<close>
  neUnexpectedEOF :: bool   \<comment> \<open>\<open>errors.Is(err, io.ErrUnexpectedEOF)\<close>\<close>

definition plain_error :: "string \<Rightarrow> net_error" where
  "plain_error s = \<lparr>neText = s, neClosed = False, nePionClosed = False, neDeadline = False,
     neTimeout = False, neEOF = False, neUnexpectedEOF = False\<rparr>"

definition io_EOF :: net_error where
  "io_EOF = (plain_error ''EOF'')\<lparr>neEOF := True\<rparr>"

definition io_ErrUnexpectedEOF :: net_error where
  "io_ErrUnexpectedEOF = (plain_error ''unexpected EOF'')\<lparr>neUnexpectedEOF := True\<rparr>"

text \<open>What Go's own connections and listeners answer once they are closed.\<close>

definition net_ErrClosed :: net_error where
  "net_ErrClosed = (plain_error ''use of closed network connection'')\<lparr>neClosed := True\<rparr>"

text \<open>An error that is passed on unchanged.\<close>

definition raw_error :: "net_error \<Rightarrow> gerror" where
  "raw_error e = ErrOther (neText e)"

text \<open>A context: its deadline, and what \<open>ctx.Err()\<close> says when the operation asks.\<close>

record go_ctx =
  cxDeadline :: "nat option"
  cxErr :: "gerror option"

fun strings_HasPrefix :: "string \<Rightarrow> string \<Rightarrow> bool" where
  "strings_HasPrefix s [] = True"
| "strings_HasPrefix [] (y # ys) = False"
| "strings_HasPrefix (x # xs) (y # ys) = (x = y \<and> strings_HasPrefix xs ys)"

fun strings_Contains :: "string \<Rightarrow> string \<Rightarrow> bool" where
  "strings_Contains [] sub = (sub = [])"
| "strings_Contains (x # xs) sub = (strings_HasPrefix (x # xs) sub \<or> strings_Contains xs sub)"

definition isClosed :: "net_error \<Rightarrow> bool" where
  "isClosed e \<longleftrightarrow>
    (if neClosed e then True
     else if nePionClosed e then True
     else if strings_Contains (neText e) ''listener closed'' then True else False)"

definition isTimeout :: "net_error \<Rightarrow> go_ctx option \<Rightarrow> bool" where
  "isTimeout e ctx \<longleftrightarrow>
    (if neDeadline e then True
     else if neTimeout e then True
     else case ctx of Some c \<Rightarrow> cxErr c = Some CtxDeadlineExceeded | None \<Rightarrow> False)"

definition mapReadErr :: "net_error \<Rightarrow> go_ctx option \<Rightarrow> gerror" where
  "mapReadErr e ctx =
    (if isClosed e then ErrConnClosed
     else if neEOF e \<or> neUnexpectedEOF e then ErrConnClosed
     else if isTimeout e ctx then ErrTimeout
     else raw_error e)"

definition isAccountingCode :: "code \<Rightarrow> bool" where
  "isAccountingCode c = IsAccounting c"

section \<open>Connections\<close>

text \<open>
  \<open>kIn\<close>: the results of the coming reads (a chunk of the stream, or a record of a
  message-oriented connection), \<open>kOut\<close>: the octets written, \<open>kWr\<close>: the results of
  the coming writes (used up: complete), \<open>kDlErr\<close>: what setting a deadline returns,
  \<open>kReadDl\<close>, \<open>kWriteDl\<close>: the deadlines in force,
  \<open>kCloseErr\<close>: what the connection answers once it is closed (\<open>net_ErrClosed\<close>, or pion's error).
\<close>

record conn =
  kIn :: "(net_error + bytes) list"
  kOut :: bytes
  kWr :: "(net_error + nat) list"
  kDlErr :: "net_error option"
  kReadDl :: "nat option"
  kWriteDl :: "nat option"
  kClosed :: bool
  kCloseErr :: net_error
  kTooSmall :: net_error    \<comment> \<open>pion's error for a record larger than the buffer\<close>

text \<open>\<open>io.ReadFull\<close> for \<open>k\<close> octets over the stream's chunks, \<open>acc\<close> read so far.\<close>

fun io_ReadFull :: "nat \<Rightarrow> bytes \<Rightarrow> (net_error + bytes) list \<Rightarrow> (net_error + bytes) \<times> (net_error + bytes) list" where
  "io_ReadFull k acc [] =
    (if length acc \<ge> k then (Inr acc, [])
     else (Inl (if acc = [] then io_EOF else io_ErrUnexpectedEOF), []))"
| "io_ReadFull k acc (r # rs) =
    (if length acc \<ge> k then (Inr acc, r # rs)
     else case r of
       Inl e \<Rightarrow> (Inl (if acc \<noteq> [] \<and> neEOF e then io_ErrUnexpectedEOF else e), rs)
     | Inr bs \<Rightarrow>
         (let m = k - length acc in
          if length bs \<le> m then io_ReadFull k (acc @ bs) rs
          else (Inr (acc @ take m bs), Inr (drop m bs) # rs)))"

definition conn_ReadFull :: "nat \<Rightarrow> conn \<Rightarrow> (net_error + bytes) \<times> conn" where
  "conn_ReadFull k c = (let (r, rs) = io_ReadFull k [] (kIn c) in (r, c\<lparr>kIn := rs\<rparr>))"

definition conn_Write :: "bytes \<Rightarrow> conn \<Rightarrow> (net_error + nat) \<times> conn" where
  "conn_Write raw c =
    (if kClosed c then (Inl (kCloseErr c), c)
     else case kWr c of
       [] \<Rightarrow> (Inr (length raw), c\<lparr>kOut := kOut c @ raw\<rparr>)
     | Inl e # ws \<Rightarrow> (Inl e, c\<lparr>kWr := ws\<rparr>)
     | Inr n # ws \<Rightarrow> (Inr (min n (length raw)), c\<lparr>kOut := kOut c @ take n raw, kWr := ws\<rparr>))"

definition applyReadDeadline :: "conn \<Rightarrow> go_ctx \<Rightarrow> net_error option \<times> conn" where
  "applyReadDeadline c ctx =
    (case cxDeadline ctx of
       Some dl \<Rightarrow> (kDlErr c, case kDlErr c of None \<Rightarrow> c\<lparr>kReadDl := Some dl\<rparr> | Some _ \<Rightarrow> c)
     | None \<Rightarrow> (kDlErr c, case kDlErr c of None \<Rightarrow> c\<lparr>kReadDl := None\<rparr> | Some _ \<Rightarrow> c))"

text \<open>
  Closing. Every read sets its deadline first, and that is where a closed TCP or TLS connection
  fails; setting a deadline on a closed connection of pion does not, its reads give \<open>io.EOF\<close>.
\<close>

definition conn_Close :: "conn \<Rightarrow> conn" where
  "conn_Close c = c\<lparr>kClosed := True, kIn := [], kDlErr := Some (kCloseErr c)\<rparr>"

definition pion_Close :: "conn \<Rightarrow> conn" where
  "pion_Close c = c\<lparr>kClosed := True, kIn := []\<rparr>"

section \<open>framed.go\<close>

definition validateRadiusLength :: "bytes \<Rightarrow> 16 word res" where
  "validateRadiusLength header =
    (let len = BE_Uint16 (slice 2 4 header) in
     if unat len < PacketMinLength then Inl ErrMalformedPacket
     else let maxLen = if isAccountingCode (header ! 0) then PacketMaxLengthRFC2866
                       else PacketMaxLengthRFC2865 in
       if unat len > maxLen then Inl ErrMalformedPacket else Inr len)"

definition readFramedStream :: "conn \<Rightarrow> go_ctx \<Rightarrow> bytes res \<times> conn" where
  "readFramedStream c ctx =
    (case applyReadDeadline c ctx of
       (Some e, c1) \<Rightarrow> (Inl (if isClosed e then ErrConnClosed else raw_error e), c1)
     | (None, c1) \<Rightarrow>
         (case conn_ReadFull 4 c1 of (Inl e, c2) \<Rightarrow> (Inl (mapReadErr e (Some ctx)), c2)
          | (Inr header, c2) \<Rightarrow>
              (case validateRadiusLength header of Inl e \<Rightarrow> (Inl e, c2)
               | Inr len \<Rightarrow>
                   (case conn_ReadFull (unat len - 4) c2 of
                      (Inl e, c3) \<Rightarrow> (Inl (mapReadErr e (Some ctx)), c3)
                    | (Inr payload, c3) \<Rightarrow> (Inr (header @ payload), c3)))))"

text \<open>One \<open>Read\<close> of a message-oriented connection into a buffer of \<open>k\<close> octets.\<close>

definition msg_Read :: "nat \<Rightarrow> conn \<Rightarrow> (net_error + bytes) \<times> conn" where
  "msg_Read k c =
    (case kIn c of
       [] \<Rightarrow> (Inl io_EOF, c)
     | Inl e # rs \<Rightarrow> (Inl e, c\<lparr>kIn := rs\<rparr>)
     | Inr rec # rs \<Rightarrow> if length rec > k then (Inl (kTooSmall c), c) else (Inr rec, c\<lparr>kIn := rs\<rparr>))"

definition readFramedMessage :: "conn \<Rightarrow> go_ctx \<Rightarrow> bytes res \<times> conn" where
  "readFramedMessage c ctx =
    (case applyReadDeadline c ctx of
       (Some e, c1) \<Rightarrow> (Inl (if isClosed e then ErrConnClosed else raw_error e), c1)
     | (None, c1) \<Rightarrow>
         (case msg_Read PacketMaxLengthRFC2866 c1 of (Inl e, c2) \<Rightarrow> (Inl (mapReadErr e (Some ctx)), c2)
          | (Inr buf, c2) \<Rightarrow>
              if length buf < 4 then (Inl ErrMalformedPacket, c2)
              else (case validateRadiusLength (slice 0 4 buf) of Inl e \<Rightarrow> (Inl e, c2)
               | Inr len \<Rightarrow>
                   if unat len > length buf then (Inl ErrMalformedPacket, c2)
                   else (Inr (slice 0 (unat len) buf), c2))))"

definition writeFramedPacket :: "conn \<Rightarrow> bytes \<Rightarrow> unit res \<times> conn" where
  "writeFramedPacket c raw =
    (case conn_Write raw c of
       (Inl e, c1) \<Rightarrow> (Inl (if isClosed e then ErrConnClosed else raw_error e), c1)
     | (Inr n, c1) \<Rightarrow> if n \<noteq> length raw then (Inl ErrShortBuffer, c1) else (Inr (), c1))"

section \<open>tcp.go\<close>

definition TCPConn_applyReadDeadline :: "conn \<Rightarrow> go_ctx \<Rightarrow> net_error option \<times> conn" where
  "TCPConn_applyReadDeadline c ctx =
    (case cxDeadline ctx of
       Some dl \<Rightarrow> (kDlErr c, case kDlErr c of None \<Rightarrow> c\<lparr>kReadDl := Some dl\<rparr> | Some _ \<Rightarrow> c)
     | None \<Rightarrow> (kDlErr c, case kDlErr c of None \<Rightarrow> c\<lparr>kReadDl := None\<rparr> | Some _ \<Rightarrow> c))"

definition TCPConn_ReadPacket :: "conn \<Rightarrow> go_ctx \<Rightarrow> bytes res \<times> conn" where
  "TCPConn_ReadPacket c ctx =
    (case TCPConn_applyReadDeadline c ctx of
       (Some e, c1) \<Rightarrow> (Inl (if isClosed e then ErrConnClosed else raw_error e), c1)
     | (None, c1) \<Rightarrow>
         (case conn_ReadFull 4 c1 of (Inl e, c2) \<Rightarrow> (Inl (mapReadErr e (Some ctx)), c2)
          | (Inr header, c2) \<Rightarrow>
              let len = BE_Uint16 (slice 2 4 header) in
              if unat len < PacketMinLength then (Inl ErrMalformedPacket, c2)
              else let maxLen = if isAccountingCode (header ! 0) then PacketMaxLengthRFC2866
                                else PacketMaxLengthRFC2865 in
                if unat len > maxLen then (Inl ErrMalformedPacket, c2)
                else (case conn_ReadFull (unat len - 4) c2 of
                      (Inl e, c3) \<Rightarrow> (Inl (mapReadErr e (Some ctx)), c3)
                    | (Inr payload, c3) \<Rightarrow> (Inr (header @ payload), c3))))"

definition TCPConn_WritePacket :: "conn \<Rightarrow> bytes \<Rightarrow> unit res \<times> conn" where
  "TCPConn_WritePacket c raw =
    (case conn_Write raw c of
       (Inl e, c1) \<Rightarrow> (Inl (if isClosed e then ErrConnClosed else raw_error e), c1)
     | (Inr n, c1) \<Rightarrow> if n \<noteq> length raw then (Inl ErrShortBuffer, c1) else (Inr (), c1))"

definition TCPClient_Exchange :: "conn \<Rightarrow> go_ctx \<Rightarrow> bytes \<Rightarrow> bytes res \<times> conn" where
  "TCPClient_Exchange c ctx raw =
    (case (case cxDeadline ctx of Some dl \<Rightarrow> kDlErr c | None \<Rightarrow> None) of
       Some e \<Rightarrow> (Inl (raw_error e), c)
     | None \<Rightarrow>
         (let c0 = (case cxDeadline ctx of Some dl \<Rightarrow> c\<lparr>kReadDl := Some dl, kWriteDl := Some dl\<rparr> | None \<Rightarrow> c) in
          case TCPConn_WritePacket c0 raw of (Inl e, c1) \<Rightarrow> (Inl e, c1)
          | (Inr _, c1) \<Rightarrow> TCPConn_ReadPacket c1 ctx))"

section \<open>tls.go and dtls.go\<close>

definition TLSConn_ReadPacket :: "conn \<Rightarrow> go_ctx \<Rightarrow> bytes res \<times> conn" where
  "TLSConn_ReadPacket c ctx = readFramedStream c ctx"

definition TLSConn_WritePacket :: "conn \<Rightarrow> bytes \<Rightarrow> unit res \<times> conn" where
  "TLSConn_WritePacket c raw = writeFramedPacket c raw"

definition TLSClient_Exchange :: "conn \<Rightarrow> go_ctx \<Rightarrow> bytes \<Rightarrow> bytes res \<times> conn" where
  "TLSClient_Exchange c ctx raw =
    (case TLSConn_WritePacket c raw of (Inl e, c1) \<Rightarrow> (Inl e, c1)
     | (Inr _, c1) \<Rightarrow> TLSConn_ReadPacket c1 ctx)"

definition DTLSConn_ReadPacket :: "conn \<Rightarrow> go_ctx \<Rightarrow> bytes res \<times> conn" where
  "DTLSConn_ReadPacket c ctx = readFramedMessage c ctx"

definition DTLSConn_WritePacket :: "conn \<Rightarrow> bytes \<Rightarrow> unit res \<times> conn" where
  "DTLSConn_WritePacket c raw = writeFramedPacket c raw"

definition DTLSClient_Exchange :: "conn \<Rightarrow> go_ctx \<Rightarrow> bytes \<Rightarrow> bytes res \<times> conn" where
  "DTLSClient_Exchange c ctx raw =
    (case DTLSConn_WritePacket c raw of (Inl e, c1) \<Rightarrow> (Inl e, c1)
     | (Inr _, c1) \<Rightarrow> DTLSConn_ReadPacket c1 ctx)"

text \<open>
  The \<open>Close\<close> methods of connections and clients; \<open>r\<close> is what closing the connection underneath
  answers. All of them hand it on and keep no state of their own.
\<close>

definition TCPConn_Close :: "net_error option \<Rightarrow> conn \<Rightarrow> gerror option \<times> conn" where
  "TCPConn_Close r c = (map_option raw_error r, conn_Close c)"

definition TLSConn_Close :: "net_error option \<Rightarrow> conn \<Rightarrow> gerror option \<times> conn" where
  "TLSConn_Close r c = (map_option raw_error r, conn_Close c)"

definition DTLSConn_Close :: "net_error option \<Rightarrow> conn \<Rightarrow> gerror option \<times> conn" where
  "DTLSConn_Close r c = (map_option raw_error r, pion_Close c)"

definition tcp_transport_Close :: "net_error option \<Rightarrow> conn \<Rightarrow> gerror option \<times> conn" where
  "tcp_transport_Close r c = TCPConn_Close r c"

definition TLSClient_Close :: "net_error option \<Rightarrow> conn \<Rightarrow> gerror option \<times> conn" where
  "TLSClient_Close r c = TLSConn_Close r c"

definition DTLSClient_Close :: "net_error option \<Rightarrow> conn \<Rightarrow> gerror option \<times> conn" where
  "DTLSClient_Close r c = DTLSConn_Close r c"

text \<open>
  \<open>Accept\<close> races the listener against the context: \<open>AcceptCanceled\<close> when \<open>ctx.Done()\<close>
  wins, otherwise the listener's result and, for TLS, the result of the handshake.
\<close>

datatype accept_event = AcceptCanceled | AcceptDone "net_error + conn" "net_error option"

definition accept_error :: "net_error \<Rightarrow> gerror" where
  "accept_error e = (if isClosed e then ErrConnClosed else raw_error e)"

definition ctx_error :: "go_ctx \<Rightarrow> gerror" where
  "ctx_error ctx = (case cxErr ctx of Some e \<Rightarrow> e | None \<Rightarrow> CtxCanceled)"

definition TCPListener_Accept :: "go_ctx \<Rightarrow> accept_event \<Rightarrow> conn res" where
  "TCPListener_Accept ctx ev =
    (case ev of AcceptCanceled \<Rightarrow> Inl (ctx_error ctx)
     | AcceptDone (Inl e) _ \<Rightarrow> Inl (accept_error e)
     | AcceptDone (Inr c) _ \<Rightarrow> Inr c)"

text \<open>A failed handshake closes the accepted connection: the second component.\<close>

definition TLSListener_Accept :: "go_ctx \<Rightarrow> accept_event \<Rightarrow> conn res \<times> conn option" where
  "TLSListener_Accept ctx ev =
    (case ev of AcceptCanceled \<Rightarrow> (Inl (ctx_error ctx), None)
     | AcceptDone (Inl e) _ \<Rightarrow> (Inl (accept_error e), None)
     | AcceptDone (Inr c) (Some he) \<Rightarrow> (Inl (accept_error he), Some (conn_Close c))
     | AcceptDone (Inr c) None \<Rightarrow> (Inr c, None))"

definition DTLSListener_Accept :: "go_ctx \<Rightarrow> accept_event \<Rightarrow> conn res" where
  "DTLSListener_Accept ctx ev =
    (case ev of AcceptCanceled \<Rightarrow> Inl (ctx_error ctx)
     | AcceptDone (Inl e) _ \<Rightarrow> Inl (accept_error e)
     | AcceptDone (Inr c) _ \<Rightarrow> Inr c)"

text \<open>
  A listener is the script of the coming results of its \<open>Accept\<close>; once it is closed the next
  one is an error, pion's being a parameter.
\<close>

definition TCPListener_Close :: "net_error option \<Rightarrow> accept_event list \<Rightarrow> gerror option \<times> accept_event list" where
  "TCPListener_Close r ln = (map_option raw_error r, [AcceptDone (Inl net_ErrClosed) None])"

definition TLSListener_Close :: "net_error option \<Rightarrow> accept_event list \<Rightarrow> gerror option \<times> accept_event list" where
  "TLSListener_Close r ln = (map_option raw_error r, [AcceptDone (Inl net_ErrClosed) None])"

definition DTLSListener_Close ::
  "net_error \<Rightarrow> net_error option \<Rightarrow> accept_event list \<Rightarrow> gerror option \<times> accept_event list" where
  "DTLSListener_Close closedErr r ln = (map_option raw_error r, [AcceptDone (Inl closedErr) None])"

text \<open>
  Listening and dialling: \<open>certs\<close> is \<open>None\<close> for a nil config, otherwise the number of
  certificates; \<open>r\<close> is what the operating system answers; \<open>hs\<close> the handshake's result.
\<close>

definition ListenTCP :: "(net_error + 'l) \<Rightarrow> 'l res" where
  "ListenTCP r = (case r of Inl e \<Rightarrow> Inl (raw_error e) | Inr ln \<Rightarrow> Inr ln)"

definition ListenTLS :: "nat option \<Rightarrow> (net_error + 'l) \<Rightarrow> 'l res" where
  "ListenTLS certs r =
    (if certs = None \<or> certs = Some 0 then Inl ErrInvalidAttribute
     else case r of Inl e \<Rightarrow> Inl (raw_error e) | Inr ln \<Rightarrow> Inr ln)"

definition ListenDTLS :: "nat \<Rightarrow> (net_error + 'l) \<Rightarrow> 'l res" where
  "ListenDTLS nopts r =
    (if nopts = 0 then Inl ErrInvalidAttribute
     else case r of Inl e \<Rightarrow> Inl (raw_error e) | Inr ln \<Rightarrow> Inr ln)"

definition DialTCP :: "(net_error + conn) \<Rightarrow> conn res" where
  "DialTCP r = (case r of Inl e \<Rightarrow> Inl (raw_error e) | Inr c \<Rightarrow> Inr c)"

definition DialTLS :: "(net_error + conn) \<Rightarrow> net_error option \<Rightarrow> conn res \<times> conn option" where
  "DialTLS r hs =
    (case r of Inl e \<Rightarrow> (Inl (raw_error e), None)
     | Inr c \<Rightarrow> (case hs of Some e \<Rightarrow> (Inl (raw_error e), Some (conn_Close c)) | None \<Rightarrow> (Inr c, None)))"

definition DialDTLS :: "(net_error + conn) \<Rightarrow> net_error option \<Rightarrow> conn res \<times> conn option" where
  "DialDTLS r hs =
    (case r of Inl e \<Rightarrow> (Inl (raw_error e), None)
     | Inr c \<Rightarrow> (case hs of Some e \<Rightarrow> (Inl (raw_error e), Some (pion_Close c)) | None \<Rightarrow> (Inr c, None)))"

section \<open>udp.go\<close>

fun udpAddrEqual :: "net_addr \<Rightarrow> net_addr \<Rightarrow> bool" where
  "udpAddrEqual (UDPAddr ipa pa za) (UDPAddr ipb pb zb) = (IP_Equal ipa ipb \<and> pa = pb \<and> za = zb)"
| "udpAddrEqual _ _ = False"

definition udpReadBufferSize :: nat where [limit_num]: "udpReadBufferSize = 4096"

text \<open>
  A socket: the coming results of \<open>ReadFrom\<close> (a datagram with its source; what does not
  fit the buffer is cut off), the datagrams sent, the results of the coming writes.
\<close>

record udp_sock =
  uIn :: "(net_error + (bytes \<times> net_addr)) list"
  uOut :: "(bytes \<times> net_addr) list"
  uWr :: "(net_error + nat) list"
  uDlErr :: "net_error option"
  uReadDl :: "nat option"
  uWriteDl :: "nat option"
  uClosed :: bool

text \<open>Once the socket is closed, setting a deadline and writing fail, and nothing comes in.\<close>

definition udp_Close :: "udp_sock \<Rightarrow> udp_sock" where
  "udp_Close t = t\<lparr>uClosed := True, uIn := [], uDlErr := Some net_ErrClosed\<rparr>"

definition UDPTransport_Close :: "net_error option \<Rightarrow> udp_sock \<Rightarrow> gerror option \<times> udp_sock" where
  "UDPTransport_Close r t = (map_option raw_error r, udp_Close t)"

definition udp_transport_Close :: "net_error option \<Rightarrow> udp_sock \<Rightarrow> gerror option \<times> udp_sock" where
  "udp_transport_Close r t = (map_option raw_error r, udp_Close t)"

definition read_error :: "net_error \<Rightarrow> go_ctx \<Rightarrow> gerror" where
  "read_error e ctx =
    (if isClosed e then ErrConnClosed else if isTimeout e (Some ctx) then ErrTimeout else raw_error e)"

definition ListenUDP :: "net_error + udp_sock \<Rightarrow> udp_sock res" where
  "ListenUDP r = (case r of Inl e \<Rightarrow> Inl (raw_error e) | Inr t \<Rightarrow> Inr t)"

definition DialUDP :: "net_error + udp_sock \<Rightarrow> udp_sock res" where
  "DialUDP r = (case r of Inl e \<Rightarrow> Inl (raw_error e) | Inr t \<Rightarrow> Inr t)"

definition UDPTransport_applyReadDeadline :: "udp_sock \<Rightarrow> go_ctx \<Rightarrow> net_error option \<times> udp_sock" where
  "UDPTransport_applyReadDeadline t ctx =
    (uDlErr t, case uDlErr t of None \<Rightarrow> t\<lparr>uReadDl := cxDeadline ctx\<rparr> | Some _ \<Rightarrow> t)"

definition UDPTransport_ReadPacket :: "udp_sock \<Rightarrow> go_ctx \<Rightarrow> ((bytes \<times> net_addr) res \<times> udp_sock) option" where
  "UDPTransport_ReadPacket t ctx =
    (case UDPTransport_applyReadDeadline t ctx of
       (Some e, t1) \<Rightarrow> Some (Inl (if isClosed e then ErrConnClosed else raw_error e), t1)
     | (None, t1) \<Rightarrow>
         (case uIn t1 of [] \<Rightarrow> None
          | Inl e # rs \<Rightarrow> Some (Inl (read_error e ctx), t1\<lparr>uIn := rs\<rparr>)
          | Inr (dg, src) # rs \<Rightarrow> Some (Inr (take udpReadBufferSize dg, src), t1\<lparr>uIn := rs\<rparr>)))"

definition udp_Write :: "bytes \<Rightarrow> net_addr \<Rightarrow> udp_sock \<Rightarrow> (net_error + nat) \<times> udp_sock" where
  "udp_Write data dst t =
    (if uClosed t then (Inl net_ErrClosed, t)
     else case uWr t of
       [] \<Rightarrow> (Inr (length data), t\<lparr>uOut := uOut t @ [(data, dst)]\<rparr>)
     | Inl e # ws \<Rightarrow> (Inl e, t\<lparr>uWr := ws\<rparr>)
     | Inr n # ws \<Rightarrow> (Inr (min n (length data)), t\<lparr>uOut := uOut t @ [(take n data, dst)], uWr := ws\<rparr>))"

definition UDPTransport_SendPacket :: "udp_sock \<Rightarrow> bytes \<Rightarrow> net_addr \<Rightarrow> unit res \<times> udp_sock" where
  "UDPTransport_SendPacket t data dst =
    (case udp_Write data dst t of
       (Inl e, t1) \<Rightarrow> (Inl (if isClosed e then ErrConnClosed else raw_error e), t1)
     | (Inr n, t1) \<Rightarrow> if n \<noteq> length data then (Inl ErrShortBuffer, t1) else (Inr (), t1))"

definition UDPClient_applyDeadline :: "udp_sock \<Rightarrow> go_ctx \<Rightarrow> net_error option \<times> udp_sock" where
  "UDPClient_applyDeadline t ctx =
    (case cxDeadline ctx of
       Some dl \<Rightarrow> (uDlErr t, case uDlErr t of None \<Rightarrow> t\<lparr>uReadDl := Some dl, uWriteDl := Some dl\<rparr> | Some _ \<Rightarrow> t)
     | None \<Rightarrow> (None, case uDlErr t of None \<Rightarrow> t\<lparr>uReadDl := None, uWriteDl := None\<rparr> | Some _ \<Rightarrow> t))"

text \<open>The receive loop of \<open>UDPClient.Exchange\<close>: strays are skipped.\<close>

fun exchange_loop :: "net_addr \<Rightarrow> go_ctx \<Rightarrow> (net_error + (bytes \<times> net_addr)) list
    \<Rightarrow> (bytes res \<times> (net_error + (bytes \<times> net_addr)) list) option" where
  "exchange_loop server ctx [] = None"
| "exchange_loop server ctx (Inl e # rs) = Some (Inl (read_error e ctx), rs)"
| "exchange_loop server ctx (Inr (dg, src) # rs) =
    (if \<not> udpAddrEqual src server then exchange_loop server ctx rs
     else Some (Inr (take udpReadBufferSize dg), rs))"

definition UDPClient_Exchange :: "net_addr \<Rightarrow> udp_sock \<Rightarrow> go_ctx \<Rightarrow> bytes \<Rightarrow> (bytes res \<times> udp_sock) option" where
  "UDPClient_Exchange server t ctx raw =
    (case UDPClient_applyDeadline t ctx of
       (Some e, t1) \<Rightarrow> Some (Inl (if isClosed e then ErrConnClosed else raw_error e), t1)
     | (None, t1) \<Rightarrow>
         (case udp_Write raw server t1 of
            (Inl e, t2) \<Rightarrow> Some (Inl (read_error e ctx), t2)
          | (Inr n, t2) \<Rightarrow>
              if n \<noteq> length raw then Some (Inl ErrShortBuffer, t2)
              else (case exchange_loop server ctx (uIn t2) of None \<Rightarrow> None
                    | Some (r, rs) \<Rightarrow> Some (r, t2\<lparr>uIn := rs\<rparr>))))"

end
