(* ===== verification/Protocol.thy ===== *)
theory Protocol
  imports Packet Transport
begin

text \<open>
  The parts of \<open>protocol/\<close> below the client: the pool of identifiers (\<open>identifier.go\<close>), the
  retransmission policy (\<open>retransmit.go\<close>), the random authenticator
  (\<open>authenticator.go\<close>), the verification of a reply (\<open>verify.go\<close>) and the request builders
  (\<open>builder.go\<close>).
\<close>

section \<open>identifier.go\<close>

text \<open>
  The buffered channel of tokens is a queue of at most 256 octets. \<open>Acquire\<close> selects
  between a token and the cancelled context; \<open>canceled\<close> says that the context is done and
  that the select takes that branch; with no token and no cancellation the call blocks
  (\<open>None\<close>).
\<close>

type_synonym id_pool = "byte list"

definition NewIdentifierPool :: id_pool where
  "NewIdentifierPool = map word_of_nat [0..<256]"

definition pool_Acquire :: "bool \<Rightarrow> id_pool \<Rightarrow> (byte res \<times> id_pool) option" where
  "pool_Acquire canceled tokens =
    (if canceled then Some (Inl ErrIdentifierExhausted, tokens)
     else case tokens of [] \<Rightarrow> None | i # rest \<Rightarrow> Some (Inr i, rest))"

definition pool_Release :: "byte \<Rightarrow> id_pool \<Rightarrow> id_pool" where
  "pool_Release i tokens = (if length tokens < 256 then tokens @ [i] else tokens)"

section \<open>retransmit.go\<close>

text \<open>
  A \<open>time.Duration\<close> is a signed 64-bit number of nanoseconds. The jitter is a float64;
  the model keeps whether it is positive (\<open>rpJittered\<close>) and takes as a parameter
  \<open>scale\<close> what \<open>time.Duration(float64(base) * factor)\<close> is for the factor drawn.
\<close>

type_synonym duration = "64 word"

definition time_Second :: duration where "time_Second = 1000000000"

record retransmit_policy =
  rpMaxAttempts :: int
  rpInitial :: duration
  rpMax :: duration
  rpJittered :: bool

definition DefaultRetransmitPolicy :: retransmit_policy where
  "DefaultRetransmitPolicy = \<lparr>rpMaxAttempts = 3, rpInitial = 2 * time_Second,
     rpMax = 16 * time_Second, rpJittered = True\<rparr>"

definition NextDelay :: "(duration \<Rightarrow> duration) \<Rightarrow> retransmit_policy \<Rightarrow> int \<Rightarrow> duration" where
  "NextDelay scale p attempt =
    (let n = (if attempt < 0 then 0 else attempt);
         shifted = push_bit (nat n) (rpInitial p);
         base = (if sint shifted \<le> 0 \<or> sint shifted > sint (rpMax p) then rpMax p else shifted)
     in if \<not> rpJittered p then base else scale base)"

definition Attempts :: "retransmit_policy \<Rightarrow> int" where
  "Attempts p = (if rpMaxAttempts p \<le> 0 then rpMaxAttempts DefaultRetransmitPolicy else rpMaxAttempts p)"

section \<open>authenticator.go\<close>

text \<open>\<open>rnd\<close> is what \<open>crypto/rand\<close> gives: an error or 16 random octets.\<close>

definition NewAccessRequestAuthenticator :: "gerror + bytes \<Rightarrow> bytes res" where
  "NewAccessRequestAuthenticator rnd = (case rnd of Inl e \<Rightarrow> Inl e | Inr a \<Rightarrow> Inr a)"

section \<open>verify.go\<close>

fun has_ma_loop :: "attribute list \<Rightarrow> bool" where
  "has_ma_loop [] = False"
| "has_ma_loop (a # as) = (if aType a = AttrMessageAuthenticator then True else has_ma_loop as)"

definition hasMessageAuthenticator :: "packet \<Rightarrow> bool" where
  "hasMessageAuthenticator pkt = has_ma_loop (pAttributes pkt)"

definition VerifyResponse :: "bytes \<Rightarrow> byte \<Rightarrow> bytes \<Rightarrow> bytes \<Rightarrow> packet res" where
  "VerifyResponse raw expectedIdentifier requestAuth secret =
    (case Unmarshal empty_packet raw secret of (_, Inl e) \<Rightarrow> Inl e
     | (pkt, Inr _) \<Rightarrow>
         if pIdentifier pkt \<noteq> expectedIdentifier then Inl ErrIdentifierMismatch
         else case VerifyResponseAuthenticator raw requestAuth secret of Inl e \<Rightarrow> Inl e
         | Inr _ \<Rightarrow>
             if hasMessageAuthenticator pkt then
               (case VerifyMessageAuthenticator raw requestAuth secret of Inl e \<Rightarrow> Inl e
                | Inr _ \<Rightarrow> Inr pkt)
             else Inr pkt)"

section \<open>Requests and their builders\<close>

definition AuthPAP :: int where "AuthPAP = 0"
definition AuthEAP :: int where "AuthEAP = 1"

record access_request =
  arAuthenticator :: bytes
  arAttributes :: "attribute list"
  arMethod :: int

record accounting_request =
  acAttributes :: "attribute list"

record coa_request =
  coAttributes :: "attribute list"
  coMessageAuthenticator :: "bool option"

record disconnect_request =
  dcAttributes :: "attribute list"
  dcMessageAuthenticator :: "bool option"

definition NewAccessRequest :: access_request where
  "NewAccessRequest = \<lparr>arAuthenticator = replicate 16 0, arAttributes = [], arMethod = AuthPAP\<rparr>"

definition access_PAP :: "bytes \<Rightarrow> bytes \<Rightarrow> access_request \<Rightarrow> access_request" where
  "access_PAP user password b = b\<lparr>arMethod := AuthPAP, arAttributes := arAttributes b @
     [NewString AttrUserName user, NewString AttrUserPassword password]\<rparr>"

definition access_EAP :: "access_request \<Rightarrow> access_request" where
  "access_EAP b = b\<lparr>arMethod := AuthEAP\<rparr>"

definition access_Method :: "int \<Rightarrow> access_request \<Rightarrow> access_request" where
  "access_Method m b = b\<lparr>arMethod := m\<rparr>"

definition access_Authenticator :: "bytes \<Rightarrow> access_request \<Rightarrow> access_request" where
  "access_Authenticator a b = b\<lparr>arAuthenticator := a\<rparr>"

definition access_Attr :: "attribute \<Rightarrow> access_request \<Rightarrow> access_request" where
  "access_Attr a b = b\<lparr>arAttributes := arAttributes b @ [a]\<rparr>"

definition access_AttrString :: "byte \<Rightarrow> bytes \<Rightarrow> access_request \<Rightarrow> access_request" where
  "access_AttrString t s b = access_Attr (NewString t s) b"

definition access_AttrInteger :: "byte \<Rightarrow> 32 word \<Rightarrow> access_request \<Rightarrow> access_request" where
  "access_AttrInteger t n b = access_Attr (NewInteger t n) b"

definition access_AttrIP :: "byte \<Rightarrow> bytes \<Rightarrow> access_request \<Rightarrow> access_request" where
  "access_AttrIP t ip b = access_Attr (NewIPAddr t ip) b"

definition access_AttrIPv6 :: "byte \<Rightarrow> bytes \<Rightarrow> access_request \<Rightarrow> access_request" where
  "access_AttrIPv6 t ip b = access_Attr (NewIPv6Addr t ip) b"

definition access_Attrs :: "attribute list \<Rightarrow> access_request \<Rightarrow> access_request" where
  "access_Attrs attrs b = b\<lparr>arAttributes := attrs\<rparr>"

definition access_Build :: "access_request \<Rightarrow> access_request" where
  "access_Build b = b"

definition NewAccountingRequest :: accounting_request where
  "NewAccountingRequest = \<lparr>acAttributes = []\<rparr>"

definition accounting_Attr :: "attribute \<Rightarrow> accounting_request \<Rightarrow> accounting_request" where
  "accounting_Attr a b = b\<lparr>acAttributes := acAttributes b @ [a]\<rparr>"

definition accounting_AttrString :: "byte \<Rightarrow> bytes \<Rightarrow> accounting_request \<Rightarrow> accounting_request" where
  "accounting_AttrString t s b = accounting_Attr (NewString t s) b"

definition accounting_AttrInteger :: "byte \<Rightarrow> 32 word \<Rightarrow> accounting_request \<Rightarrow> accounting_request" where
  "accounting_AttrInteger t n b = accounting_Attr (NewInteger t n) b"

definition accounting_AttrIP :: "byte \<Rightarrow> bytes \<Rightarrow> accounting_request \<Rightarrow> accounting_request" where
  "accounting_AttrIP t ip b = accounting_Attr (NewIPAddr t ip) b"

definition accounting_AttrIPv6 :: "byte \<Rightarrow> bytes \<Rightarrow> accounting_request \<Rightarrow> accounting_request" where
  "accounting_AttrIPv6 t ip b = accounting_Attr (NewIPv6Addr t ip) b"

definition accounting_Attrs :: "attribute list \<Rightarrow> accounting_request \<Rightarrow> accounting_request" where
  "accounting_Attrs attrs b = b\<lparr>acAttributes := attrs\<rparr>"

definition accounting_Build :: "accounting_request \<Rightarrow> accounting_request" where
  "accounting_Build b = b"

definition NewCoARequest :: coa_request where
  "NewCoARequest = \<lparr>coAttributes = [], coMessageAuthenticator = None\<rparr>"

definition coa_Attr :: "attribute \<Rightarrow> coa_request \<Rightarrow> coa_request" where
  "coa_Attr a b = b\<lparr>coAttributes := coAttributes b @ [a]\<rparr>"

definition coa_AttrString :: "byte \<Rightarrow> bytes \<Rightarrow> coa_request \<Rightarrow> coa_request" where
  "coa_AttrString t s b = coa_Attr (NewString t s) b"

definition coa_AttrInteger :: "byte \<Rightarrow> 32 word \<Rightarrow> coa_request \<Rightarrow> coa_request" where
  "coa_AttrInteger t n b = coa_Attr (NewInteger t n) b"

definition coa_AttrIP :: "byte \<Rightarrow> bytes \<Rightarrow> coa_request \<Rightarrow> coa_request" where
  "coa_AttrIP t ip b = coa_Attr (NewIPAddr t ip) b"

definition coa_AttrIPv6 :: "byte \<Rightarrow> bytes \<Rightarrow> coa_request \<Rightarrow> coa_request" where
  "coa_AttrIPv6 t ip b = coa_Attr (NewIPv6Addr t ip) b"

definition coa_Attrs :: "attribute list \<Rightarrow> coa_request \<Rightarrow> coa_request" where
  "coa_Attrs attrs b = b\<lparr>coAttributes := attrs\<rparr>"

definition coa_Build :: "coa_request \<Rightarrow> coa_request" where
  "coa_Build b = b"

definition NewDisconnectRequest :: disconnect_request where
  "NewDisconnectRequest = \<lparr>dcAttributes = [], dcMessageAuthenticator = None\<rparr>"

definition disconnect_Attr :: "attribute \<Rightarrow> disconnect_request \<Rightarrow> disconnect_request" where
  "disconnect_Attr a b = b\<lparr>dcAttributes := dcAttributes b @ [a]\<rparr>"

definition disconnect_AttrString :: "byte \<Rightarrow> bytes \<Rightarrow> disconnect_request \<Rightarrow> disconnect_request" where
  "disconnect_AttrString t s b = disconnect_Attr (NewString t s) b"

definition disconnect_AttrInteger :: "byte \<Rightarrow> 32 word \<Rightarrow> disconnect_request \<Rightarrow> disconnect_request" where
  "disconnect_AttrInteger t n b = disconnect_Attr (NewInteger t n) b"

definition disconnect_AttrIP :: "byte \<Rightarrow> bytes \<Rightarrow> disconnect_request \<Rightarrow> disconnect_request" where
  "disconnect_AttrIP t ip b = disconnect_Attr (NewIPAddr t ip) b"

definition disconnect_AttrIPv6 :: "byte \<Rightarrow> bytes \<Rightarrow> disconnect_request \<Rightarrow> disconnect_request" where
  "disconnect_AttrIPv6 t ip b = disconnect_Attr (NewIPv6Addr t ip) b"

definition disconnect_Attrs :: "attribute list \<Rightarrow> disconnect_request \<Rightarrow> disconnect_request" where
  "disconnect_Attrs attrs b = b\<lparr>dcAttributes := attrs\<rparr>"

definition disconnect_Build :: "disconnect_request \<Rightarrow> disconnect_request" where
  "disconnect_Build b = b"

definition coa_MessageAuthenticator :: "coa_request \<Rightarrow> coa_request" where
  "coa_MessageAuthenticator b = b\<lparr>coMessageAuthenticator := Some True\<rparr>"

definition coa_WithoutMessageAuthenticator :: "coa_request \<Rightarrow> coa_request" where
  "coa_WithoutMessageAuthenticator b = b\<lparr>coMessageAuthenticator := Some False\<rparr>"

definition disconnect_MessageAuthenticator :: "disconnect_request \<Rightarrow> disconnect_request" where
  "disconnect_MessageAuthenticator b = b\<lparr>dcMessageAuthenticator := Some True\<rparr>"

definition disconnect_WithoutMessageAuthenticator :: "disconnect_request \<Rightarrow> disconnect_request" where
  "disconnect_WithoutMessageAuthenticator b = b\<lparr>dcMessageAuthenticator := Some False\<rparr>"

end
