(* ===== verification/Logging.thy ===== *)
theory Logging
  imports Prelude
begin

text \<open>
  \<open>log/\<close> and the logrus bridge of \<open>cmd/radius-tool/root.go\<close>: the logger interface of the
  library and its three implementations, the silent one, the adapter of \<open>log/slog\<close> and the
  adapter of logrus. A call yields the records it hands to the back end. What every logger
  promises of \<open>With\<close> is the locale \<open>structured_logger\<close>, interpreted for all three.
\<close>

section \<open>Arguments\<close>

text \<open>
  An argument of type \<open>any\<close>: a string, an \<open>slog.Attr\<close>, or a value of another type (by its
  printed form).
\<close>

datatype log_value = LogString string | LogAttr string log_value | LogOther string

datatype log_level = LevelDebug | LevelInfo | LevelWarn | LevelError

text \<open>Alternating keys and values, as the interface asks for.\<close>

fun key_value_pairs :: "log_value list \<Rightarrow> bool" where
  "key_value_pairs [] = True"
| "key_value_pairs (LogString k # v # rest) = key_value_pairs rest"
| "key_value_pairs _ = False"

section \<open>The silent logger\<close>

datatype nop_logger = NopLogger

fun Nop_log :: "nop_logger \<Rightarrow> log_level \<Rightarrow> string \<Rightarrow> log_value list \<Rightarrow> unit list" where
  "Nop_log NopLogger level msg args = []"

fun Nop_With :: "nop_logger \<Rightarrow> log_value list \<Rightarrow> nop_logger" where
  "Nop_With n args = n"

section \<open>The slog adapter\<close>

text \<open>
  An \<open>slog.Logger\<close>: the least level its handler is enabled for and the attributes added by
  \<open>With\<close>. A value where a key is expected, or a key without a value, is filed under
  \<open>!BADKEY\<close>.
\<close>

record slog_logger =
  slMin :: int
  slAttrs :: "(string \<times> log_value) list"

type_synonym slog_record = "log_level \<times> string \<times> (string \<times> log_value) list"

fun slog_level :: "log_level \<Rightarrow> int" where
  "slog_level LevelDebug = - 4"
| "slog_level LevelInfo = 0"
| "slog_level LevelWarn = 4"
| "slog_level LevelError = 8"

fun slog_attrs :: "log_value list \<Rightarrow> (string \<times> log_value) list" where
  "slog_attrs [] = []"
| "slog_attrs (LogString k # v # rest) = (k, v) # slog_attrs rest"
| "slog_attrs [LogString k] = [(''!BADKEY'', LogString k)]"
| "slog_attrs (LogAttr k v # rest) = (k, v) # slog_attrs rest"
| "slog_attrs (LogOther v # rest) = (''!BADKEY'', LogOther v) # slog_attrs rest"

definition slog_log :: "slog_logger \<Rightarrow> log_level \<Rightarrow> string \<Rightarrow> log_value list \<Rightarrow> slog_record list" where
  "slog_log l level msg args =
    (if slog_level level < slMin l then [] else [(level, msg, slAttrs l @ slog_attrs args)])"

definition slog_With :: "slog_logger \<Rightarrow> log_value list \<Rightarrow> slog_logger" where
  "slog_With l args = (if args = [] then l else l\<lparr>slAttrs := slAttrs l @ slog_attrs args\<rparr>)"

datatype slog_adapter = SlogAdapter slog_logger

fun Slog_log :: "slog_adapter \<Rightarrow> log_level \<Rightarrow> string \<Rightarrow> log_value list \<Rightarrow> slog_record list" where
  "Slog_log (SlogAdapter l) level msg args = slog_log l level msg args"

fun Slog_With :: "slog_adapter \<Rightarrow> log_value list \<Rightarrow> slog_adapter" where
  "Slog_With (SlogAdapter l) args = SlogAdapter (slog_With l args)"

section \<open>The logrus adapter\<close>

text \<open>
  \<open>lrEnabled\<close> is logrus's \<open>IsLevelEnabled\<close>; a record is what \<open>WithFields(fields).Log\<close>
  receives.
\<close>

type_synonym log_fields = "string \<rightharpoonup> log_value"

record logrus_adapter =
  lrEnabled :: "log_level \<Rightarrow> bool"
  lrFields :: log_fields

definition newLogrusAdapter :: "(log_level \<Rightarrow> bool) \<Rightarrow> logrus_adapter" where
  "newLogrusAdapter enabled = \<lparr>lrEnabled = enabled, lrFields = Map.empty\<rparr>"

fun merge_loop :: "log_fields \<Rightarrow> log_value list \<Rightarrow> log_fields" where
  "merge_loop out (LogString key # v # rest) = merge_loop (out(key \<mapsto> v)) rest"
| "merge_loop out (LogAttr _ _ # v # rest) = merge_loop out rest"
| "merge_loop out (LogOther _ # v # rest) = merge_loop out rest"
| "merge_loop out [a] = out"
| "merge_loop out [] = out"

definition mergeFields :: "log_fields \<Rightarrow> log_value list \<Rightarrow> log_fields" where
  "mergeFields base args = merge_loop base args"

definition Logrus_log :: "logrus_adapter \<Rightarrow> log_level \<Rightarrow> string \<Rightarrow> log_value list
    \<Rightarrow> (log_level \<times> string \<times> log_fields) list" where
  "Logrus_log a level msg args =
    (if \<not> lrEnabled a level then [] else [(level, msg, mergeFields (lrFields a) args)])"

definition Logrus_With :: "logrus_adapter \<Rightarrow> log_value list \<Rightarrow> logrus_adapter" where
  "Logrus_With a args = a\<lparr>lrFields := mergeFields (lrFields a) args\<rparr>"

text \<open>\<open>initLogger\<close>: with \<open>verbose\<close> every level is enabled, otherwise all but the lowest.\<close>

definition initLogger :: "bool \<Rightarrow> logrus_adapter" where
  "initLogger verbose = newLogrusAdapter (\<lambda>level. verbose \<or> level \<noteq> LevelDebug)"

section \<open>The package-level logger\<close>

text \<open>The dynamic type behind the interface; a nil interface is \<open>None\<close>.\<close>

datatype logger = NopL nop_logger | SlogL slog_adapter | LogrusL logrus_adapter

definition NewSlogAdapter :: "slog_logger option \<Rightarrow> logger" where
  "NewSlogAdapter l = (case l of None \<Rightarrow> NopL NopLogger | Some s \<Rightarrow> SlogL (SlogAdapter s))"

definition initial_Default :: logger where
  "initial_Default = NopL NopLogger"

definition SetDefault :: "logger option \<Rightarrow> logger \<Rightarrow> logger" where
  "SetDefault l current = (case l of None \<Rightarrow> NopL NopLogger | Some x \<Rightarrow> x)"

definition GetDefault :: "logger \<Rightarrow> logger" where
  "GetDefault current = current"

section \<open>What \<open>With\<close> promises\<close>

locale structured_logger =
  fixes emit :: "'l \<Rightarrow> log_level \<Rightarrow> string \<Rightarrow> log_value list \<Rightarrow> 'r list"
    and extend :: "'l \<Rightarrow> log_value list \<Rightarrow> 'l"
  assumes emit_extend: "key_value_pairs as \<Longrightarrow> emit (extend l as) level msg bs = emit l level msg (as @ bs)"
begin

lemma emit_extends:
  "\<forall>as \<in> set ass. key_value_pairs as \<Longrightarrow>
   emit (foldl extend l ass) level msg bs = emit l level msg (concat ass @ bs)"
proof (induction ass arbitrary: l)
  case (Cons as ass)
  then have "emit (foldl extend (extend l as) ass) level msg bs = emit (extend l as) level msg (concat ass @ bs)"
    by simp
  with Cons.prems emit_extend show ?case by simp
qed simp

end

lemma slog_attrs_append: "key_value_pairs as \<Longrightarrow> slog_attrs (as @ bs) = slog_attrs as @ slog_attrs bs"
  by (induction as rule: key_value_pairs.induct) auto

lemma merge_loop_append: "key_value_pairs as \<Longrightarrow> merge_loop out (as @ bs) = merge_loop (merge_loop out as) bs"
  by (induction as arbitrary: out rule: key_value_pairs.induct) auto

interpretation nop: structured_logger Nop_log Nop_With
proof
  show "Nop_log (Nop_With l as) level msg bs = Nop_log l level msg (as @ bs)" for l as level msg bs
    by (cases l) simp
qed

interpretation slog: structured_logger Slog_log Slog_With
proof
  show "key_value_pairs as \<Longrightarrow> Slog_log (Slog_With l as) level msg bs = Slog_log l level msg (as @ bs)"
    for l as level msg bs
    by (cases l) (simp add: slog_log_def slog_With_def slog_attrs_append)
qed

interpretation logrus: structured_logger Logrus_log Logrus_With
proof
  show "key_value_pairs as \<Longrightarrow> Logrus_log (Logrus_With l as) level msg bs = Logrus_log l level msg (as @ bs)"
    for l as level msg bs
    by (simp add: Logrus_log_def Logrus_With_def mergeFields_def merge_loop_append)
qed

text \<open>The logger behind the interface, as the library calls it; the records by their back end.\<close>

datatype log_record = SlogRecord slog_record | LogrusRecord "log_level \<times> string \<times> log_fields"

fun logger_log :: "logger \<Rightarrow> log_level \<Rightarrow> string \<Rightarrow> log_value list \<Rightarrow> log_record list" where
  "logger_log (NopL n) level msg args = []"
| "logger_log (SlogL s) level msg args = map SlogRecord (Slog_log s level msg args)"
| "logger_log (LogrusL a) level msg args = map LogrusRecord (Logrus_log a level msg args)"

fun logger_With :: "logger \<Rightarrow> log_value list \<Rightarrow> logger" where
  "logger_With (NopL n) args = NopL (Nop_With n args)"
| "logger_With (SlogL s) args = SlogL (Slog_With s args)"
| "logger_With (LogrusL a) args = LogrusL (Logrus_With a args)"

interpretation dyn: structured_logger logger_log logger_With
proof
  show "key_value_pairs as \<Longrightarrow> logger_log (logger_With l as) level msg bs = logger_log l level msg (as @ bs)"
    for l as level msg bs
    by (cases l) (simp_all add: slog.emit_extend logrus.emit_extend)
qed

text \<open>An odd argument at the end is dropped by the logrus bridge, silently.\<close>

lemma merge_odd: "key_value_pairs as \<Longrightarrow> mergeFields base (as @ [a]) = mergeFields base as"
  by (cases a) (simp_all add: mergeFields_def merge_loop_append)

text \<open>
  Whatever logger is installed (a nil one counts as silent), and however many times \<open>With\<close>
  was called on it with pairs of keys and values, a record carries those pairs in front of its
  own, and the back end sees exactly the record it would see had they all been passed at once.
\<close>

lemma installed_logger_keeps_pairs:
  assumes "\<forall>as \<in> set ass. key_value_pairs as"
  shows "logger_log (foldl logger_With (GetDefault (SetDefault l current)) ass) level msg bs =
    (case l of None \<Rightarrow> [] | Some x \<Rightarrow> logger_log x level msg (concat ass @ bs))"
  using dyn.emit_extends [OF assms, of "GetDefault (SetDefault l current)" level msg bs]
  by (cases l) (simp_all add: SetDefault_def GetDefault_def)

end
