(* ===== verification/Client.thy ===== *)
theory Client
  imports Protocol Logging
begin

text \<open>
  \<open>protocol/client.go\<close>: the four calls of the client. The world a call meets is its
  environment: whether the acquisition of an identifier is cancelled, the random octets, the
  jitter, and for each attempt what the transport answers and what the context says
  (\<open>attempt_env\<close>). A call returns its result, the waits and sends it made, in order, and
  the client with its pool; \<open>None\<close> is a call that blocks waiting for an identifier.
  A deferred release is the last step of every path.
\<close>

section \<open>Data\<close>

record response =
  rsCode :: code
  rsIdentifier :: byte
  rsAuthenticator :: bytes
  rsAttributes :: "attribute list"

record client =
  clSecret :: bytes
  clPool :: id_pool
  clRetransmit :: retransmit_policy
  clDefaultTimeout :: duration
  clCoaMessageAuthenticator :: bool
  clLog :: logger

text \<open>
  \<open>aeCtxDone\<close>: the select before a retransmission took \<open>ctx.Done()\<close>, with this error;
  \<open>aeReply\<close>: what \<open>transport.Exchange\<close> returns; \<open>aeCtxErr\<close>: \<open>ctx.Err()\<close> after a
  failed exchange.
\<close>

record attempt_env =
  aeCtxDone :: "gerror option"
  aeReply :: "gerror + bytes"
  aeCtxErr :: "gerror option"

record call_env =
  ceNow :: nat
  ceCanceled :: bool
  ceRand :: "gerror + bytes"
  ceScale :: "nat \<Rightarrow> duration \<Rightarrow> duration"
  ceAttempt :: "go_ctx \<Rightarrow> nat \<Rightarrow> attempt_env"

datatype client_event = Wait duration | Send bytes "duration option"

section \<open>Construction\<close>

definition WithRetransmitPolicy :: "retransmit_policy \<Rightarrow> client \<Rightarrow> client" where
  "WithRetransmitPolicy p c = c\<lparr>clRetransmit := p\<rparr>"

definition WithIdentifierPool :: "id_pool \<Rightarrow> client \<Rightarrow> client" where
  "WithIdentifierPool p c = c\<lparr>clPool := p\<rparr>"

definition WithDefaultTimeout :: "duration \<Rightarrow> client \<Rightarrow> client" where
  "WithDefaultTimeout d c = c\<lparr>clDefaultTimeout := d\<rparr>"

definition WithMessageAuthenticatorRequired :: "bool \<Rightarrow> client \<Rightarrow> client" where
  "WithMessageAuthenticatorRequired required c = c\<lparr>clCoaMessageAuthenticator := required\<rparr>"

text \<open>A nil logger discards.\<close>

definition WithLogger :: "logger option \<Rightarrow> client \<Rightarrow> client" where
  "WithLogger l c = (case l of None \<Rightarrow> c\<lparr>clLog := NopL NopLogger\<rparr> | Some x \<Rightarrow> c\<lparr>clLog := x\<rparr>)"

text \<open>\<open>dflt\<close>: the package-level logger when the client is constructed.\<close>

definition NewClient :: "logger \<Rightarrow> bytes \<Rightarrow> (client \<Rightarrow> client) list \<Rightarrow> client" where
  "NewClient dflt secret opts =
    fold (\<lambda>opt c. opt c) opts
      \<lparr>clSecret = secret, clPool = NewIdentifierPool, clRetransmit = DefaultRetransmitPolicy,
       clDefaultTimeout = 0, clCoaMessageAuthenticator = False, clLog = dflt\<rparr>"

definition applyDefaultTimeout :: "client \<Rightarrow> nat \<Rightarrow> go_ctx \<Rightarrow> go_ctx" where
  "applyDefaultTimeout c now ctx =
    (if sint (clDefaultTimeout c) \<le> 0 then ctx
     else if cxDeadline ctx \<noteq> None then ctx
     else ctx\<lparr>cxDeadline := Some (now + unat (clDefaultTimeout c))\<rparr>)"

definition acquireID :: "client \<Rightarrow> bool \<Rightarrow> (byte res \<times> client) option" where
  "acquireID c canceled =
    (case pool_Acquire canceled (clPool c) of None \<Rightarrow> None
     | Some (r, tokens) \<Rightarrow> Some (r, c\<lparr>clPool := tokens\<rparr>))"

definition release_id :: "byte \<Rightarrow> client \<Rightarrow> client" where
  "release_id i c = c\<lparr>clPool := pool_Release i (clPool c)\<rparr>"

fun contains_ma_loop :: "attribute list \<Rightarrow> bool" where
  "contains_ma_loop [] = False"
| "contains_ma_loop (a # as) = (if aType a = AttrMessageAuthenticator then True else contains_ma_loop as)"

definition containsMessageAuthenticator :: "attribute list \<Rightarrow> bool" where
  "containsMessageAuthenticator attrs = contains_ma_loop attrs"

definition shouldIncludeMessageAuthenticator :: "bool \<Rightarrow> bool option \<Rightarrow> bool" where
  "shouldIncludeMessageAuthenticator clientDefault reqMA =
    (case reqMA of Some b \<Rightarrow> b | None \<Rightarrow> clientDefault)"

section \<open>The exchange\<close>

text \<open>
  Attempt \<open>k\<close> with \<open>r\<close> attempts left after it. Both kinds of a reply that fails
  verification (a wrong identifier, or anything else) only differ in what is logged.
\<close>

fun retransmit_loop :: "retransmit_policy \<Rightarrow> bytes \<Rightarrow> (nat \<Rightarrow> duration \<Rightarrow> duration) \<Rightarrow> (nat \<Rightarrow> attempt_env)
    \<Rightarrow> bytes \<Rightarrow> byte \<Rightarrow> bytes \<Rightarrow> nat \<Rightarrow> nat \<Rightarrow> gerror option \<Rightarrow> packet res \<times> client_event list" where
  "retransmit_loop p secret sc env raw expectedID requestAuth k 0 lastErr =
    (case lastErr of Some e \<Rightarrow> Inl e | None \<Rightarrow> Inl ErrNoResponse, [])"
| "retransmit_loop p secret sc env raw expectedID requestAuth k (Suc r) lastErr =
    (let wait = (if k > 0 then [Wait (NextDelay (sc (2 * k)) p (int k - 1))] else []) in
     case (if k > 0 then aeCtxDone (env k) else None) of
       Some e \<Rightarrow> (Inl e, wait)
     | None \<Rightarrow>
         (let perAttempt = (if r > 0 then
                 (let d = NextDelay (sc (2 * k + 1)) p (int k) in if sint d > 0 then Some d else None)
               else None);
              sent = wait @ [Send raw perAttempt] in
          case aeReply (env k) of
            Inl err \<Rightarrow>
              if err = CtxCanceled then (Inl err, sent)
              else (case aeCtxErr (env k) of
                  Some ctxErr \<Rightarrow> (Inl ctxErr, sent)
                | None \<Rightarrow>
                    (let (res, evs) = retransmit_loop p secret sc env raw expectedID requestAuth
                                        (Suc k) r (Some err) in (res, sent @ evs)))
          | Inr reply \<Rightarrow>
              (case VerifyResponse reply expectedID requestAuth secret of
                 Inl vErr \<Rightarrow>
                    (let (res, evs) = retransmit_loop p secret sc env raw expectedID requestAuth
                                        (Suc k) r (Some vErr) in (res, sent @ evs))
               | Inr pkt \<Rightarrow> (Inr pkt, sent))))"

definition exchangeWithRetransmit :: "client \<Rightarrow> (nat \<Rightarrow> duration \<Rightarrow> duration) \<Rightarrow> (nat \<Rightarrow> attempt_env)
    \<Rightarrow> bytes \<Rightarrow> byte \<Rightarrow> bytes \<Rightarrow> packet res \<times> client_event list" where
  "exchangeWithRetransmit c sc env raw expectedID requestAuth =
    retransmit_loop (clRetransmit c) (clSecret c) sc env raw expectedID requestAuth
      0 (nat (Attempts (clRetransmit c))) None"

definition to_response :: "packet \<Rightarrow> response" where
  "to_response reply = \<lparr>rsCode = pCode reply, rsIdentifier = pIdentifier reply,
     rsAuthenticator = pAuthenticator reply, rsAttributes = pAttributes reply\<rparr>"

section \<open>The calls\<close>

definition Authenticate ::
  "client \<Rightarrow> call_env \<Rightarrow> go_ctx \<Rightarrow> access_request \<Rightarrow> (response res \<times> client_event list \<times> client) option" where
  "Authenticate c env ctx0 req =
    (let ctx = applyDefaultTimeout c (ceNow env) ctx0 in
     case acquireID c (ceCanceled env) of None \<Rightarrow> None
     | Some (Inl e, c1) \<Rightarrow> Some (Inl e, [], c1)
     | Some (Inr allocated, c1) \<Rightarrow>
         (let done = release_id allocated c1 in
          case (if arAuthenticator req = replicate 16 0 then NewAccessRequestAuthenticator (ceRand env)
                else Inr (arAuthenticator req)) of
            Inl e \<Rightarrow> Some (Inl e, [], done)
          | Inr auth \<Rightarrow>
              (let attrs = (if arMethod req = AuthEAP \<and> \<not> containsMessageAuthenticator (arAttributes req)
                            then NewOctets AttrMessageAuthenticator (replicate 16 0) # arAttributes req
                            else arAttributes req);
                   pkt = \<lparr>pCode = AccessRequest, pIdentifier = allocated, pAuthenticator = auth,
                          pAttributes = attrs\<rparr> in
               case Marshal pkt (clSecret c1) of Inl e \<Rightarrow> Some (Inl e, [], done)
               | Inr raw \<Rightarrow>
                   (case exchangeWithRetransmit c1 (ceScale env) (ceAttempt env ctx) raw allocated auth of
                      (Inl e, evs) \<Rightarrow> Some (Inl e, evs, done)
                    | (Inr reply, evs) \<Rightarrow>
                        if pCode reply = AccessAccept \<or> pCode reply = AccessReject
                           \<or> pCode reply = AccessChallenge
                        then Some (Inr (to_response reply), evs, done)
                        else Some (Inl ErrUnexpectedReply, evs, done)))))"

definition Account ::
  "client \<Rightarrow> call_env \<Rightarrow> go_ctx \<Rightarrow> accounting_request \<Rightarrow> (response res \<times> client_event list \<times> client) option" where
  "Account c env ctx0 req =
    (let ctx = applyDefaultTimeout c (ceNow env) ctx0 in
     case acquireID c (ceCanceled env) of None \<Rightarrow> None
     | Some (Inl e, c1) \<Rightarrow> Some (Inl e, [], c1)
     | Some (Inr allocated, c1) \<Rightarrow>
         (let done = release_id allocated c1;
              pkt = \<lparr>pCode = AccountingRequest, pIdentifier = allocated,
                     pAuthenticator = replicate 16 0, pAttributes = acAttributes req\<rparr> in
          case Marshal pkt (clSecret c1) of Inl e \<Rightarrow> Some (Inl e, [], done)
          | Inr raw \<Rightarrow>
              (let reqAuth = slice 4 20 raw in
               case exchangeWithRetransmit c1 (ceScale env) (ceAttempt env ctx) raw allocated reqAuth of
                 (Inl e, evs) \<Rightarrow> Some (Inl e, evs, done)
               | (Inr reply, evs) \<Rightarrow>
                   if pCode reply \<noteq> AccountingResponse then Some (Inl ErrUnexpectedReply, evs, done)
                   else Some (Inr (to_response reply), evs, done))))"

definition SendCoA ::
  "client \<Rightarrow> call_env \<Rightarrow> go_ctx \<Rightarrow> coa_request \<Rightarrow> (response res \<times> client_event list \<times> client) option" where
  "SendCoA c env ctx0 req =
    (let ctx = applyDefaultTimeout c (ceNow env) ctx0 in
     case acquireID c (ceCanceled env) of None \<Rightarrow> None
     | Some (Inl e, c1) \<Rightarrow> Some (Inl e, [], c1)
     | Some (Inr allocated, c1) \<Rightarrow>
         (let done = release_id allocated c1;
              attrs = (if shouldIncludeMessageAuthenticator (clCoaMessageAuthenticator c1)
                             (coMessageAuthenticator req)
                          \<and> \<not> containsMessageAuthenticator (coAttributes req)
                       then NewOctets AttrMessageAuthenticator (replicate 16 0) # coAttributes req
                       else coAttributes req);
              pkt = \<lparr>pCode = CoARequest, pIdentifier = allocated,
                     pAuthenticator = replicate 16 0, pAttributes = attrs\<rparr> in
          case Marshal pkt (clSecret c1) of Inl e \<Rightarrow> Some (Inl e, [], done)
          | Inr raw \<Rightarrow>
              (let reqAuth = slice 4 20 raw in
               case exchangeWithRetransmit c1 (ceScale env) (ceAttempt env ctx) raw allocated reqAuth of
                 (Inl e, evs) \<Rightarrow> Some (Inl e, evs, done)
               | (Inr reply, evs) \<Rightarrow>
                   if pCode reply = CoAACK \<or> pCode reply = CoANAK
                   then Some (Inr (to_response reply), evs, done)
                   else Some (Inl ErrUnexpectedReply, evs, done))))"

definition SendDisconnect ::
  "client \<Rightarrow> call_env \<Rightarrow> go_ctx \<Rightarrow> disconnect_request \<Rightarrow> (response res \<times> client_event list \<times> client) option" where
  "SendDisconnect c env ctx0 req =
    (let ctx = applyDefaultTimeout c (ceNow env) ctx0 in
     case acquireID c (ceCanceled env) of None \<Rightarrow> None
     | Some (Inl e, c1) \<Rightarrow> Some (Inl e, [], c1)
     | Some (Inr allocated, c1) \<Rightarrow>
         (let done = release_id allocated c1;
              attrs = (if shouldIncludeMessageAuthenticator (clCoaMessageAuthenticator c1)
                             (dcMessageAuthenticator req)
                          \<and> \<not> containsMessageAuthenticator (dcAttributes req)
                       then NewOctets AttrMessageAuthenticator (replicate 16 0) # dcAttributes req
                       else dcAttributes req);
              pkt = \<lparr>pCode = DisconnectRequest, pIdentifier = allocated,
                     pAuthenticator = replicate 16 0, pAttributes = attrs\<rparr> in
          case Marshal pkt (clSecret c1) of Inl e \<Rightarrow> Some (Inl e, [], done)
          | Inr raw \<Rightarrow>
              (let reqAuth = slice 4 20 raw in
               case exchangeWithRetransmit c1 (ceScale env) (ceAttempt env ctx) raw allocated reqAuth of
                 (Inl e, evs) \<Rightarrow> Some (Inl e, evs, done)
               | (Inr reply, evs) \<Rightarrow>
                   if pCode reply = DisconnectACK \<or> pCode reply = DisconnectNAK
                   then Some (Inr (to_response reply), evs, done)
                   else Some (Inl ErrUnexpectedReply, evs, done))))"

end
