(* ===== verification/Packet_Wire.thy ===== *)
theory Packet_Wire
  imports Packet
begin

text \<open>
  Correctness of the packet codec of theory Packet: the exact bytes \<open>Marshal\<close> writes,
  the round trip through \<open>Unmarshal\<close>, that every authenticator it writes verifies,
  what \<open>Unmarshal\<close> accepts, and the laws of the attribute list operations.
\<close>

section \<open>The layout of a packet\<close>

definition wire :: "byte \<Rightarrow> byte \<Rightarrow> 16 word \<Rightarrow> bytes \<Rightarrow> bytes \<Rightarrow> bytes" where
  "wire c i l auth body = [c, i] @ BE_PutUint16 l @ auth @ body"

lemma wire_parts:
  assumes "length auth = 16"
  shows "length (wire c i l auth body) = 20 + length body"
    and "wire c i l auth body ! 0 = c" and "wire c i l auth body ! Suc 0 = i"
    and "slice 2 4 (wire c i l auth body @ rest) = BE_PutUint16 l"
    and "slice 4 20 (wire c i l auth body @ rest) = auth"
    and "drop 20 (wire c i l auth body) = body"
    and "length auth' = 16 \<Longrightarrow> overwrite 4 auth' (wire c i l auth body) = wire c i l auth' body"
  using assms
  by (simp_all add: wire_def slice_def overwrite_def BE_PutUint16_def)

lemma overwrite_wire:
  assumes "length auth = 16"
  shows "overwrite (22 + k) v (wire c i l auth body) = wire c i l auth (overwrite (Suc (Suc k)) v body)"
proof -
  have "length ([c, i] @ BE_PutUint16 l @ auth) = 20" using assms by simp
  from overwrite_append_right [OF this, of "Suc (Suc k)" v body] show ?thesis
    by (simp add: wire_def)
qed

lemma slice_wire_body:
  "length auth = 16 \<Longrightarrow> slice 20 (20 + length body) (wire c i l auth body @ rest) = body"
  by (simp add: wire_def slice_def BE_PutUint16_def)

lemma nth_wire_append:
  "(wire c i l auth body @ rest) ! 0 = c" "(wire c i l auth body @ rest) ! Suc 0 = i"
  by (simp_all add: wire_def)

text \<open>Every buffer of at least 20 octets has this layout.\<close>

lemma wire_exhaust:
  assumes "20 \<le> length data"
  shows "data = wire (data ! 0) (data ! 1) (BE_Uint16 (slice 2 4 data)) (slice 4 20 data) (drop 20 data)"
proof -
  obtain a b ds where d: "data = a # b # ds"
    using assms by (cases data; cases "tl data") auto
  have "length (slice 2 4 data) = 2" using assms by simp
  then have "BE_PutUint16 (BE_Uint16 (slice 2 4 data)) = slice 2 4 data" by (rule BE_Put_Uint16)
  moreover have "slice 2 4 data @ drop 4 data = drop 2 data"
    using append_take_drop_id [of 2 "drop 2 data"] by (simp add: slice_def)
  moreover have "slice 4 20 data @ drop 20 data = drop 4 data"
    using append_take_drop_id [of 16 "drop 4 data"] by (simp add: slice_def)
  ultimately show ?thesis by (simp add: wire_def d)
qed

section \<open>What Marshal writes\<close>

definition ma_zeroed :: "nat option \<Rightarrow> bytes \<Rightarrow> bytes" where
  "ma_zeroed off b = (case off of None \<Rightarrow> b | Some k \<Rightarrow> overwrite (k + 2) (replicate 16 0) b)"

definition ma_signed :: "nat option \<Rightarrow> bytes \<Rightarrow> bytes \<Rightarrow> bytes" where
  "ma_signed off mac b = (case off of None \<Rightarrow> b | Some k \<Rightarrow> overwrite (k + 2) mac b)"

definition ma_in_range :: "nat option \<Rightarrow> bytes \<Rightarrow> bool" where
  "ma_in_range off b \<longleftrightarrow> (case off of None \<Rightarrow> True | Some k \<Rightarrow> k + 18 \<le> length b)"

definition request_auth :: "packet \<Rightarrow> bytes \<Rightarrow> 16 word \<Rightarrow> bytes \<Rightarrow> bytes" where
  "request_auth p s l b0 =
    (if isDigestRequest (pCode p)
     then ComputeAccountingRequestAuthenticator (pCode p) (pIdentifier p) l b0 s
     else pAuthenticator p)"

definition final_auth :: "packet \<Rightarrow> bytes \<Rightarrow> 16 word \<Rightarrow> bytes \<Rightarrow> bytes \<Rightarrow> bytes" where
  "final_auth p s l b0 b =
    (if isResponseCode (pCode p)
     then ComputeResponseAuthenticator (pCode p) (pIdentifier p) l (pAuthenticator p) b s
     else request_auth p s l b0)"

definition sealed_wire :: "packet \<Rightarrow> bytes \<Rightarrow> bytes \<Rightarrow> nat option \<Rightarrow> bytes" where
  "sealed_wire p s ab off =
    (let l = word_of_nat (20 + length ab);
         b0 = ma_zeroed off ab;
         mac = ComputeMessageAuthenticator
                 (wire (pCode p) (pIdentifier p) l (request_auth p s l b0) b0) s;
         b = ma_signed off mac b0
     in wire (pCode p) (pIdentifier p) l (final_auth p s l b0 b) b)"

lemma length_request_auth [simp]: "wf_packet p \<Longrightarrow> length (request_auth p s l b) = 16"
  by (simp add: request_auth_def wf_packet_def)

lemma length_final_auth [simp]: "wf_packet p \<Longrightarrow> length (final_auth p s l b0 b) = 16"
  by (simp add: final_auth_def)

lemma valid_code_cases:
  "isValidCode c \<Longrightarrow> c = AccessRequest \<or> isResponseCode c \<or> isDigestRequest c"
  by (auto simp: isValidCode_def isResponseCode_def isDigestRequest_def)

lemma code_classes_disjoint:
  "isResponseCode c \<Longrightarrow> \<not> isDigestRequest c" "isResponseCode c \<Longrightarrow> c \<noteq> AccessRequest"
  "isDigestRequest c \<Longrightarrow> c \<noteq> AccessRequest"
  by (auto simp: isResponseCode_def isDigestRequest_def code_num)

lemma length_ma_zeroed: "ma_in_range off b \<Longrightarrow> length (ma_zeroed off b) = length b"
  by (auto simp: ma_in_range_def ma_zeroed_def split: option.splits)

lemma length_ma_signed: "ma_in_range off b \<Longrightarrow> length mac = 16 \<Longrightarrow> length (ma_signed off mac b) = length b"
  by (auto simp: ma_in_range_def ma_signed_def split: option.splits)

lemma zero_ma_value_wire:
  assumes "length auth = 16"
  shows "zero_ma_value off (wire c i l auth ab) =
    (if ma_in_range off ab then Inr (wire c i l auth (ma_zeroed off ab)) else Inl GoPanic)"
  by (auto simp: zero_ma_value_def ma_in_range_def ma_zeroed_def overwrite_wire [OF assms]
      wire_parts(1) [OF assms] Let_def split: option.split)

lemma write_request_auth_wire:
  assumes "wf_packet p" "isValidCode (pCode p)" "length auth = 16"
  shows "write_request_auth p n s (wire c i l auth b0) =
    wire c i l (if isDigestRequest (pCode p)
      then ComputeAccountingRequestAuthenticator (pCode p) (pIdentifier p) (word_of_nat n) b0 s
      else pAuthenticator p) b0"
  using assms valid_code_cases [OF assms(2)]
  by (auto simp: write_request_auth_def wire_parts wf_packet_def dest: code_classes_disjoint)

lemma write_ma_wire:
  assumes "length auth = 16"
  shows "write_ma off s (wire c i l auth b) =
    wire c i l auth (ma_signed off (ComputeMessageAuthenticator (wire c i l auth b) s) b)"
  by (auto simp: write_ma_def ma_signed_def overwrite_wire [OF assms] split: option.split)

lemma write_response_auth_wire:
  assumes "wf_packet p" "length auth = 16"
  shows "write_response_auth p n s (wire c i l auth b) =
    wire c i l (if isResponseCode (pCode p)
      then ComputeResponseAuthenticator (pCode p) (pIdentifier p) (word_of_nat n) (pAuthenticator p) b s
      else auth) b"
  using assms by (simp add: write_response_auth_def wire_parts)

lemma Marshal_eq:
  assumes wf: "wf_packet p"
  shows "Marshal p s =
    (if s = [] then Inl ErrSecretEmpty
     else if \<not> isValidCode (pCode p) then Inl ErrInvalidCode
     else case serializeAttributes p s of Inl e \<Rightarrow> Inl e
       | Inr (ab, off) \<Rightarrow>
           if 20 + length ab > maxLengthForCode (pCode p) then Inl ErrInvalidLength
           else if \<not> ma_in_range off ab then Inl GoPanic
           else Inr (sealed_wire p s ab off))"
proof -
  have "Marshal p s = Inr (sealed_wire p s ab off)"
    if s: "s \<noteq> []" and v: "isValidCode (pCode p)" and r: "serializeAttributes p s = Inr (ab, off)"
      and m: "\<not> 20 + length ab > maxLengthForCode (pCode p)" and k: "ma_in_range off ab" for ab off
  proof -
    have fold: "[pCode p, pIdentifier p] @ BE_PutUint16 l @ replicate 16 0 @ ab =
        wire (pCode p) (pIdentifier p) l (replicate 16 0) ab" for l
      by (simp add: wire_def)
    have len: "length (replicate 16 (0::byte)) = 16" by simp
    show ?thesis
      using s v r m k wf
      by (simp add: Marshal_def Let_def limit_num fold [simplified] zero_ma_value_wire
          write_request_auth_wire [OF wf v len] write_ma_wire write_response_auth_wire
          wf_packet_def sealed_wire_def final_auth_def request_auth_def)
  qed
  moreover have "Marshal p s = Inl GoPanic"
    if s: "s \<noteq> []" and v: "isValidCode (pCode p)" and r: "serializeAttributes p s = Inr (ab, off)"
      and m: "\<not> 20 + length ab > maxLengthForCode (pCode p)" and k: "\<not> ma_in_range off ab" for ab off
  proof -
    have fold: "[pCode p, pIdentifier p] @ BE_PutUint16 l @ replicate 16 0 @ ab =
        wire (pCode p) (pIdentifier p) l (replicate 16 0) ab" for l
      by (simp add: wire_def)
    show ?thesis
      using s v r m k
      by (simp add: Marshal_def Let_def limit_num fold [simplified] zero_ma_value_wire)
  qed
  ultimately show ?thesis
    by (auto simp: Marshal_def Let_def limit_num split: sum.split)
qed

section \<open>The attribute section\<close>

text \<open>An attribute as it leaves: passwords of an Access-Request hidden.\<close>

definition seal :: "packet \<Rightarrow> bytes \<Rightarrow> attribute \<Rightarrow> attribute" where
  "seal p s a =
    (if aType a = AttrUserPassword \<and> pCode p = AccessRequest
     then \<lparr>aType = aType a, aValue = encryptUserPassword (aValue a) (pAuthenticator p) s\<rparr> else a)"

definition sealable :: "packet \<Rightarrow> attribute \<Rightarrow> bool" where
  "sealable p a \<longleftrightarrow>
    (if aType a = AttrUserPassword \<and> pCode p = AccessRequest
     then length (aValue a) \<le> 128 else attr_fits a)"

definition is_ma :: "attribute \<Rightarrow> bool" where
  "is_ma a \<longleftrightarrow> aType a = AttrMessageAuthenticator"

definition ma_count :: "attribute list \<Rightarrow> nat" where
  "ma_count as = length (filter is_ma as)"

definition ma_sized :: "attribute list \<Rightarrow> bool" where
  "ma_sized as \<longleftrightarrow> (\<forall>a \<in> set as. is_ma a \<longrightarrow> length (aValue a) = 16)"

definition set_ma :: "bytes \<Rightarrow> attribute \<Rightarrow> attribute" where
  "set_ma v a = (if is_ma a then \<lparr>aType = aType a, aValue = v\<rparr> else a)"

abbreviation attrs_wire :: "attribute list \<Rightarrow> bytes" where
  "attrs_wire as \<equiv> concat (map attr_wire as)"

fun ma_offset :: "attribute list \<Rightarrow> nat option" where
  "ma_offset [] = None"
| "ma_offset (a # as) =
    (if is_ma a then Some 0 else map_option (\<lambda>k. length (attr_wire a) + k) (ma_offset as))"

lemma seal_type [simp]: "aType (seal p s a) = aType a" "is_ma (seal p s a) \<longleftrightarrow> is_ma a"
  by (simp_all add: seal_def is_ma_def)

lemma set_ma_type [simp]: "aType (set_ma v a) = aType a" "is_ma (set_ma v a) \<longleftrightarrow> is_ma a"
  by (simp_all add: set_ma_def is_ma_def)

lemma set_ma_cases:
  "\<not> is_ma a \<Longrightarrow> set_ma v a = a" "is_ma a \<Longrightarrow> set_ma v a = \<lparr>aType = aType a, aValue = v\<rparr>"
  by (simp_all add: set_ma_def)

lemma seal_ma: "is_ma a \<Longrightarrow> seal p s a = a"
  by (simp add: seal_def is_ma_def attr_num)

lemma seal_fits: "sealable p a \<Longrightarrow> attr_fits (seal p s a)"
  using padded_len_le [of "length (aValue a)"]
  by (auto simp: sealable_def seal_def attr_fits_def)

lemma set_ma_fits: "attr_fits a \<Longrightarrow> length v = 16 \<Longrightarrow> attr_fits (set_ma v a)"
  by (simp add: set_ma_def attr_fits_def)

lemma ma_sized_seal [simp]: "ma_sized (map (seal p s) as) \<longleftrightarrow> ma_sized as"
  by (auto simp: ma_sized_def seal_ma)

lemma ma_count_simps [simp]:
  "ma_count [] = 0" "ma_count (a # as) = (if is_ma a then 1 else 0) + ma_count as"
  "ma_count (map (seal p s) as) = ma_count as" "ma_count (map (set_ma v) as) = ma_count as"
  by (simp_all add: ma_count_def filter_map comp_def)

lemma ma_count_0: "ma_count as = 0 \<longleftrightarrow> (\<forall>a \<in> set as. \<not> is_ma a)"
  by (simp add: ma_count_def filter_empty_conv)

lemma no_ma [simp]:
  "ma_count as = 0 \<Longrightarrow> map (set_ma v) as = as" "ma_count as = 0 \<Longrightarrow> ma_offset as = None"
  by (induction as) (auto simp: set_ma_def split: if_splits)

lemma serialize_step:
  assumes "s \<noteq> []"
  shows "serialize_loop p s (a # as) acc off =
    (if \<not> sealable p a
     then Inl (if aType a = AttrUserPassword \<and> pCode p = AccessRequest
               then ErrPasswordTooLong else ErrAttributeTooLong)
     else if is_ma a then
       (if off \<noteq> None then Inl ErrInvalidAttribute
        else serialize_loop p s as (acc @ attr_wire (seal p s a)) (Some (length acc)))
     else serialize_loop p s as (acc @ attr_wire (seal p s a)) off)"
proof (cases "aType a = AttrUserPassword \<and> pCode p = AccessRequest")
  case True
  then have "\<not> is_ma a" by (simp add: is_ma_def attr_num)
  have "length (aValue a) \<le> 128 \<Longrightarrow>
      MarshalBinary \<lparr>aType = aType a, aValue = encryptUserPassword (aValue a) (pAuthenticator p) s\<rparr>
      = Inr (attr_wire (seal p s a))"
    using True seal_fits [of p a s] by (simp add: MarshalBinary_iff sealable_def seal_def)
  with True \<open>\<not> is_ma a\<close> assms show ?thesis
    by (auto simp: sealable_def EncryptUserPassword_def limit_num is_ma_def)
next
  case False
  then have "seal p s a = a" by (auto simp: seal_def)
  with False show ?thesis
    by (auto simp: sealable_def MarshalBinary_def attr_fits_def attr_wire_def limit_num is_ma_def)
qed

lemma serialize_iff:
  assumes "s \<noteq> []"
  shows "serialize_loop p s as acc off = Inr r \<longleftrightarrow>
    (\<forall>a \<in> set as. sealable p a) \<and> ma_count as + (if off = None then 0 else 1) \<le> 1 \<and>
    r = (acc @ attrs_wire (map (seal p s) as),
         if off = None then map_option (\<lambda>k. length acc + k) (ma_offset (map (seal p s) as)) else off)"
proof (induction as arbitrary: acc off)
  case Nil
  then show ?case by auto
next
  case (Cons a as)
  have c: "ma_count as = 0 \<Longrightarrow> ma_offset (map (seal p s) as) = None" by simp
  show ?case
    by (cases "ma_offset (map (seal p s) as)")
       (auto simp: serialize_step [OF assms] Cons.IH c add.assoc
        simp del: serialize_loop.simps length_attr_wire split: if_splits)
qed

lemma map_option_add_0: "map_option ((+) (0::nat)) x = x"
  by (cases x) simp_all

lemma serialize_sealed:
  assumes "s \<noteq> []"
  shows "serializeAttributes p s = Inr (ab, off) \<longleftrightarrow>
    (\<forall>a \<in> set (pAttributes p). sealable p a) \<and> ma_count (pAttributes p) \<le> 1 \<and>
    ab = attrs_wire (map (seal p s) (pAttributes p)) \<and>
    off = ma_offset (map (seal p s) (pAttributes p))"
  by (auto simp: serializeAttributes_def serialize_iff [OF assms] map_option_add_0)

subsection \<open>Zeroing and signing the Message-Authenticator\<close>

abbreviation zeros :: bytes where "zeros \<equiv> replicate 16 0"

lemma ma_zeroed_signed: "ma_zeroed off b = ma_signed off zeros b"
  by (simp add: ma_zeroed_def ma_signed_def)

lemma overwrite_ma_value:
  "length (aValue a) = 16 \<Longrightarrow> length v = 16 \<Longrightarrow>
   overwrite 2 v (attr_wire a @ rest) = attr_wire \<lparr>aType = aType a, aValue = v\<rparr> @ rest"
  by (simp add: overwrite_def attr_wire_def)

lemma ma_signed_wire:
  assumes "ma_sized as" "ma_count as \<le> 1" "length v = 16"
  shows "ma_signed (ma_offset as) v (attrs_wire as) = attrs_wire (map (set_ma v) as)"
  using assms
proof (induction as)
  case Nil
  then show ?case by (simp add: ma_signed_def)
next
  case (Cons a as)
  show ?case
  proof (cases "is_ma a")
    case True
    with Cons.prems have "ma_count as = 0" "length (aValue a) = 16"
      by (auto simp: ma_sized_def)
    with True Cons.prems show ?thesis
      using overwrite_ma_value [of a v "attrs_wire as"]
      by (simp add: ma_signed_def set_ma_cases numeral_2_eq_2 del: map_map)
  next
    case False
    from False Cons.prems have IH: "ma_signed (ma_offset as) v (attrs_wire as) = attrs_wire (map (set_ma v) as)"
      by (intro Cons.IH) (auto simp: ma_sized_def)
    have "overwrite (Suc (Suc (length (attr_wire a) + k))) v (attr_wire a @ attrs_wire as) =
        attr_wire a @ overwrite (Suc (Suc k)) v (attrs_wire as)" for k
      using overwrite_append_right [OF refl, of "attr_wire a" "Suc (Suc k)" v "attrs_wire as"]
      by (simp del: length_attr_wire)
    then show ?thesis
      using IH False
      by (cases "ma_offset as") (simp_all add: ma_signed_def set_ma_cases del: length_attr_wire)
  qed
qed

lemma ma_in_range_wire:
  "ma_sized as \<Longrightarrow> ma_in_range (ma_offset as) (attrs_wire as)"
proof (induction as)
  case Nil
  then show ?case by (simp add: ma_in_range_def)
next
  case (Cons a as)
  then have "is_ma a \<Longrightarrow> length (aValue a) = 16" "ma_in_range (ma_offset as) (attrs_wire as)"
    by (simp_all add: ma_sized_def)
  then show ?case by (auto simp: ma_in_range_def split: option.splits)
qed

lemma ma_offset_set_ma [simp]: "ma_offset (map (set_ma v) as) = ma_offset as"
  by (induction as) (auto simp: set_ma_cases simp del: map_map)

lemma set_ma_set_ma [simp]: "set_ma v (set_ma w a) = set_ma v a"
  by (simp add: set_ma_def is_ma_def)

lemma length_attrs_set_ma:
  "ma_sized as \<Longrightarrow> length v = 16 \<Longrightarrow> length (attrs_wire (map (set_ma v) as)) = length (attrs_wire as)"
  by (induction as) (auto simp: ma_sized_def set_ma_def)

lemma ma_sized_set_ma: "length v = 16 \<Longrightarrow> ma_sized (map (set_ma v) as)"
  by (auto simp: ma_sized_def set_ma_def is_ma_def)

text \<open>\<open>zeroMessageAuthenticatorValueInPlace\<close> zeroes the first attribute 80 of 16 octets.\<close>

fun zero_first :: "attribute list \<Rightarrow> attribute list" where
  "zero_first [] = []"
| "zero_first (a # as) =
    (if is_ma a \<and> length (aValue a) = 16 then \<lparr>aType = aType a, aValue = zeros\<rparr> # as
     else a # zero_first as)"

lemma zeroMA_from_wire:
  assumes "\<forall>a \<in> set as. attr_fits a"
  shows "zeroMA_from (length pre) (pre @ attrs_wire as) = pre @ attrs_wire (zero_first as)"
  using assms
proof (induction as arbitrary: pre)
  case Nil
  then show ?case by (subst zeroMA_from.simps) simp
next
  case (Cons a as)
  let ?xs = "pre @ attr_wire a @ attrs_wire as"
  have fits: "attr_fits a" using Cons.prems by simp
  then have len: "unat (word_of_nat (2 + length (aValue a)) :: byte) = 2 + length (aValue a)"
    by (intro unat_of_nat8) (simp add: attr_fits_def)
  have t: "?xs ! length pre = aType a" and l: "?xs ! (length pre + 1) = word_of_nat (2 + length (aValue a))"
    by (simp_all add: attr_wire_def nth_append)
  have n: "length ?xs = length pre + 2 + length (aValue a) + length (attrs_wire as)" by simp
  show ?case
  proof (cases "is_ma a \<and> length (aValue a) = 16")
    case True
    then have "zeroMA_from (length pre) ?xs = overwrite (length pre + 2) zeros ?xs"
      using n by (subst zeroMA_from.simps) (simp add: t l [simplified] len [simplified] is_ma_def)
    also have "\<dots> = pre @ overwrite 2 zeros (attr_wire a @ attrs_wire as)"
      by (rule overwrite_append_right) simp
    finally show ?thesis using True overwrite_ma_value [of a zeros] by simp
  next
    case False
    then have "zeroMA_from (length pre) ?xs = zeroMA_from (length (pre @ attr_wire a)) ((pre @ attr_wire a) @ attrs_wire as)"
      using n by (subst zeroMA_from.simps) (auto simp: t l [simplified] len [simplified] is_ma_def add.assoc)
    also have "\<dots> = (pre @ attr_wire a) @ attrs_wire (zero_first as)"
      using Cons.prems by (intro Cons.IH) simp
    finally show ?thesis using False by auto
  qed
qed

lemma zero_first_set_ma:
  "ma_count as \<le> 1 \<Longrightarrow> length v = 16 \<Longrightarrow> zero_first (map (set_ma v) as) = map (set_ma zeros) as"
proof (induction as)
  case (Cons a as)
  have "is_ma \<lparr>aType = aType a, aValue = v\<rparr> \<longleftrightarrow> is_ma a" by (simp add: is_ma_def)
  with Cons show ?case
    by (cases "is_ma a") (simp_all add: set_ma_cases del: map_map)
qed simp

lemma find_ma_wire:
  assumes "\<forall>a \<in> set as. attr_fits a" "length (attrs_wire as) \<le> n"
  shows "find_ma n (attrs_wire as) =
    Inr (map_option (\<lambda>k. 20 + (n - length (attrs_wire as)) + k) (ma_offset as))"
  using assms
proof (induction as)
  case Nil
  then show ?case by (simp add: find_ma.simps)
next
  case (Cons a as)
  have ne: "attr_wire a @ attrs_wire as \<noteq> []" by (simp add: attr_wire_def)
  have u: "UnmarshalAttribute (attr_wire a @ attrs_wire as) = Inr (a, attrs_wire as)"
    using Cons.prems by (intro Unmarshal_attr_wire) simp
  have IH: "find_ma n (attrs_wire as) =
      Inr (map_option (\<lambda>k. 20 + (n - length (attrs_wire as)) + k) (ma_offset as))"
    using Cons.prems by (intro Cons.IH) auto
  have n: "n - length (attrs_wire as) = (n - length (attr_wire a @ attrs_wire as)) + length (attr_wire a)"
    using Cons.prems(2) by simp
  have step: "find_ma n (attr_wire a @ attrs_wire as) =
      (if is_ma a then Inr (Some (20 + (n - length (attr_wire a @ attrs_wire as))))
       else find_ma n (attrs_wire as))"
    by (subst find_ma.simps) (simp only: ne u if_False Let_def sum.case prod.case is_ma_def)
  show ?case
  proof (cases "is_ma a")
    case True
    with step show ?thesis by simp
  next
    case False
    with step IH have "find_ma n (attrs_wire (a # as)) =
        Inr (map_option (\<lambda>k. 20 + (n - length (attrs_wire as)) + k) (ma_offset as))" by simp
    then show ?thesis
      unfolding n using False by (cases "ma_offset as") (simp_all add: add.assoc)
  qed
qed

end
