(* ===== verification/Packet_Props.thy ===== *)
theory Packet_Props
  imports Packet_Wire
begin

text \<open>
  The properties of the packet codec (\<open>packet/packet.go\<close>): when \<open>Marshal\<close> succeeds and
  what it returns, the round trip with \<open>Unmarshal\<close> (padding behind the Length field
  included), what \<open>Unmarshal\<close> accepts, that every authenticator \<open>Marshal\<close> writes is
  accepted by the two verifiers, and the laws of the attribute list.
\<close>

section \<open>Marshal\<close>

definition sealed_attrs :: "packet \<Rightarrow> bytes \<Rightarrow> attribute list" where
  "sealed_attrs p s = map (seal p s) (pAttributes p)"

definition marshal_len :: "packet \<Rightarrow> bytes \<Rightarrow> nat" where
  "marshal_len p s = 20 + length (attrs_wire (sealed_attrs p s))"

text \<open>The value the Message-Authenticator of the packet gets.\<close>

definition packet_mac :: "packet \<Rightarrow> bytes \<Rightarrow> bytes" where
  "packet_mac p s =
    (let b0 = attrs_wire (map (set_ma zeros) (sealed_attrs p s));
         l = word_of_nat (marshal_len p s)
     in ComputeMessageAuthenticator
          (wire (pCode p) (pIdentifier p) l (request_auth p s l b0) b0) s)"

text \<open>The attributes and the authenticator as they are sent.\<close>

definition sent_attrs :: "packet \<Rightarrow> bytes \<Rightarrow> attribute list" where
  "sent_attrs p s = map (set_ma (packet_mac p s)) (sealed_attrs p s)"

definition sent_auth :: "packet \<Rightarrow> bytes \<Rightarrow> bytes" where
  "sent_auth p s =
    final_auth p s (word_of_nat (marshal_len p s))
      (attrs_wire (map (set_ma zeros) (sealed_attrs p s))) (attrs_wire (sent_attrs p s))"

definition sendable :: "packet \<Rightarrow> bytes \<Rightarrow> bool" where
  "sendable p s \<longleftrightarrow> s \<noteq> [] \<and> isValidCode (pCode p) \<and> (\<forall>a \<in> set (pAttributes p). sealable p a)
     \<and> ma_count (pAttributes p) \<le> 1 \<and> marshal_len p s \<le> maxLengthForCode (pCode p)"

lemma maxLength_le: "maxLengthForCode c \<le> 4096"
  by (simp add: maxLengthForCode_def limit_num)

lemma length_packet_mac [simp]: "length (packet_mac p s) = 16"
  by (simp add: packet_mac_def Let_def)

lemma length_sent_auth [simp]: "wf_packet p \<Longrightarrow> length (sent_auth p s) = 16"
  by (simp add: sent_auth_def)

lemma sealed_attrs_facts:
  "ma_count (sealed_attrs p s) = ma_count (pAttributes p)"
  "ma_sized (sealed_attrs p s) \<longleftrightarrow> ma_sized (pAttributes p)"
  by (simp_all add: sealed_attrs_def)

lemma sendable_fits:
  "sendable p s \<Longrightarrow> \<forall>a \<in> set (sealed_attrs p s). attr_fits a"
  "sendable p s \<Longrightarrow> \<forall>a \<in> set (sent_attrs p s). attr_fits a"
  by (auto simp: sendable_def sealed_attrs_def sent_attrs_def seal_fits set_ma_fits)

lemma Marshal_success_iff:
  assumes wf: "wf_packet p"
  shows "Marshal p s = Inr w \<longleftrightarrow> sendable p s
    \<and> ma_in_range (ma_offset (sealed_attrs p s)) (attrs_wire (sealed_attrs p s))
    \<and> w = sealed_wire p s (attrs_wire (sealed_attrs p s)) (ma_offset (sealed_attrs p s))"
proof (cases "s = [] \<or> \<not> isValidCode (pCode p)")
  case True
  then show ?thesis by (auto simp: Marshal_eq [OF wf] sendable_def)
next
  case False
  then have s: "s \<noteq> []" and v: "isValidCode (pCode p)" by auto
  note iff = serialize_sealed [OF s, of p]
  show ?thesis
  proof (cases "serializeAttributes p s")
    case (Inl e)
    then have "\<not> sendable p s" using iff by (auto simp: sendable_def)
    with Inl s v show ?thesis by (simp add: Marshal_eq [OF wf])
  next
    case (Inr r)
    then obtain ab off where r: "serializeAttributes p s = Inr (ab, off)" by (cases r) auto
    with iff [of ab off] s v show ?thesis
      by (auto simp: Marshal_eq [OF wf] sendable_def sealed_attrs_def marshal_len_def)
  qed
qed

lemma sealed_wire_eq:
  assumes "ma_sized (pAttributes p)" "ma_count (pAttributes p) \<le> 1"
  shows "sealed_wire p s (attrs_wire (sealed_attrs p s)) (ma_offset (sealed_attrs p s)) =
    wire (pCode p) (pIdentifier p) (word_of_nat (marshal_len p s)) (sent_auth p s)
      (attrs_wire (sent_attrs p s))"
proof -
  let ?as = "sealed_attrs p s" and ?z = "map (set_ma zeros) (sealed_attrs p s)"
  have sized: "ma_sized ?as" and cnt: "ma_count ?as \<le> 1" using assms by (simp_all add: sealed_attrs_facts)
  have z: "ma_zeroed (ma_offset ?as) (attrs_wire ?as) = attrs_wire ?z"
    by (simp only: ma_zeroed_signed ma_signed_wire [OF sized cnt] length_replicate)
  have "ma_signed (ma_offset ?z) v (attrs_wire ?z) = attrs_wire (map (set_ma v) ?z)"
    if "length v = 16" for v
    using that cnt by (intro ma_signed_wire ma_sized_set_ma) (simp_all del: map_map)
  then have m: "ma_signed (ma_offset ?as) v (attrs_wire ?z) = attrs_wire (map (set_ma v) ?as)"
    if "length v = 16" for v
    using that by (simp add: comp_def)
  show ?thesis
    unfolding sealed_wire_def Let_def z
    by (simp add: m sent_attrs_def sent_auth_def packet_mac_def Let_def marshal_len_def del: map_map)
qed

lemma marshalled:
  assumes "wf_packet p" "ma_sized (pAttributes p)" "Marshal p s = Inr w"
  shows "sendable p s"
    and "w = wire (pCode p) (pIdentifier p) (word_of_nat (marshal_len p s)) (sent_auth p s)
      (attrs_wire (sent_attrs p s))"
  using assms sealed_wire_eq [OF assms(2)] by (simp_all add: Marshal_success_iff sendable_def)

lemma length_sent_attrs:
  "ma_sized (pAttributes p) \<Longrightarrow> 20 + length (attrs_wire (sent_attrs p s)) = marshal_len p s"
  by (simp add: sent_attrs_def marshal_len_def length_attrs_set_ma sealed_attrs_facts del: map_map)

section \<open>Unmarshal\<close>

lemma parse_sound_wire: "parse_attributes body = Inr as \<Longrightarrow> body = attrs_wire as"
  by (simp add: parse_attributes_iff)

lemma Unmarshal_wire:
  assumes "length auth = 16" "isValidCode c" "20 + length body \<le> maxLengthForCode c"
    and l: "l = word_of_nat (20 + length body)"
  shows "Unmarshal p (wire c i l auth body @ pad) s =
    (case parse_attributes body of Inl e \<Rightarrow> (p, Inl e)
     | Inr as \<Rightarrow>
         (\<lparr>pCode = c, pIdentifier = i, pAuthenticator = auth, pAttributes = as\<rparr>,
          if isDigestRequest c \<and>
             ComputeAccountingRequestAuthenticator c i l (zeroMA_from 0 body) s \<noteq> auth
          then Inl ErrAuthenticatorMismatch else Inr ()))"
proof -
  have n: "unat l = 20 + length body"
    unfolding l using assms(3) maxLength_le [of c] by (intro unat_of_nat16) linarith
  note w = wire_parts [OF assms(1)] nth_wire_append slice_wire_body [OF assms(1)]
  show ?thesis
    using assms(1-3)
    by (simp add: Unmarshal_def w n limit_num zeroMessageAuthenticatorValueInPlace_def
        Let_def isDigestRequest_def split: sum.split)
qed

lemma Unmarshal_ok_shape:
  assumes "Unmarshal p data s = (p', Inr ())"
  shows "\<exists>n. 20 \<le> n \<and> n \<le> length data \<and> n \<le> maxLengthForCode (data ! 0) \<and> isValidCode (data ! 0)
    \<and> unat (BE_Uint16 (slice 2 4 data)) = n"
  using assms
  by (auto simp: Unmarshal_def Let_def limit_num split: if_splits)

lemma wire_split:
  assumes "20 \<le> n" "n \<le> length data" "unat (BE_Uint16 (slice 2 4 data)) = n"
  shows "data = wire (data ! 0) (data ! 1) (word_of_nat n) (slice 4 20 data) (slice 20 n data) @ drop n data"
proof -
  have "word_of_nat n = BE_Uint16 (slice 2 4 data)" by (simp flip: assms(3))
  then have "data = wire (data ! 0) (data ! 1) (word_of_nat n) (slice 4 20 data) (drop 20 data)"
    using wire_exhaust [of data] assms(1,2) by simp
  moreover have "drop 20 data = slice 20 n data @ drop n data"
    using assms(1) append_take_drop_id [of "n - 20" "drop 20 data"] by (simp add: slice_def)
  ultimately show ?thesis by (simp add: wire_def)
qed

lemma Unmarshal_accepts:
  "Unmarshal p data s = (p', Inr ()) \<longleftrightarrow>
    (\<exists>pad. data = wire (pCode p') (pIdentifier p') (word_of_nat (20 + length (attrs_wire (pAttributes p'))))
        (pAuthenticator p') (attrs_wire (pAttributes p')) @ pad)
    \<and> wf_packet p' \<and> isValidCode (pCode p') \<and> (\<forall>a \<in> set (pAttributes p'). attr_fits a)
    \<and> 20 + length (attrs_wire (pAttributes p')) \<le> maxLengthForCode (pCode p')
    \<and> (isDigestRequest (pCode p') \<longrightarrow> pAuthenticator p' =
         ComputeAccountingRequestAuthenticator (pCode p') (pIdentifier p')
           (word_of_nat (20 + length (attrs_wire (pAttributes p'))))
           (attrs_wire (zero_first (pAttributes p'))) s)"
    (is "?l \<longleftrightarrow> ?r")
proof
  assume u: ?l
  from Unmarshal_ok_shape [OF u] obtain n where n: "20 \<le> n" "n \<le> length data"
      "n \<le> maxLengthForCode (data ! 0)" "isValidCode (data ! 0)" "unat (BE_Uint16 (slice 2 4 data)) = n"
    by blast
  let ?body = "slice 20 n data" and ?auth = "slice 4 20 data" and ?pad = "drop n data"
  have lb: "20 + length ?body = n" and la: "length ?auth = 16" using n by simp_all
  have d: "data = wire (data ! 0) (data ! 1) (word_of_nat n) ?auth ?body @ ?pad"
    by (rule wire_split [OF n(1,2,5)])
  have max: "20 + length ?body \<le> maxLengthForCode (data ! 0)" using n(3) lb by simp
  have "word_of_nat n = (word_of_nat (20 + length ?body) :: 16 word)" using lb by simp
  from Unmarshal_wire [OF la n(4) max this, where p = p and i = "data ! 1" and pad = ?pad and s = s] u d
  obtain as where as: "parse_attributes ?body = Inr as"
    and p': "p' = \<lparr>pCode = data ! 0, pIdentifier = data ! 1, pAuthenticator = ?auth, pAttributes = as\<rparr>"
    and dig: "isDigestRequest (data ! 0) \<Longrightarrow> ComputeAccountingRequestAuthenticator (data ! 0) (data ! 1)
        (word_of_nat n) (zeroMA_from 0 ?body) s = ?auth"
    by (auto split: sum.splits if_splits)
  from as have fits: "\<forall>a \<in> set as. attr_fits a" and body: "?body = attrs_wire as"
    by (simp_all add: parse_attributes_iff)
  have z: "zeroMA_from 0 ?body = attrs_wire (zero_first as)"
    using zeroMA_from_wire [OF fits, of "[]"] body by simp
  have ln: "20 + length (attrs_wire as) = n" using lb by (simp only: body)
  have "\<exists>pad. data = wire (data ! 0) (data ! 1) (word_of_nat n) ?auth (attrs_wire as) @ pad"
    using d unfolding body by blast
  with fits dig n(3,4) la show ?r
    by (simp add: p' wf_packet_def z ln del: of_nat_add of_nat_numeral)
next
  assume r: ?r
  then obtain pad where d: "data = wire (pCode p') (pIdentifier p')
      (word_of_nat (20 + length (attrs_wire (pAttributes p')))) (pAuthenticator p') (attrs_wire (pAttributes p')) @ pad"
    by blast
  from r have la: "length (pAuthenticator p') = 16" by (simp add: wf_packet_def)
  from r have v: "isValidCode (pCode p')" and fits: "\<forall>a \<in> set (pAttributes p'). attr_fits a"
    and m: "20 + length (attrs_wire (pAttributes p')) \<le> maxLengthForCode (pCode p')" by auto
  have z: "zeroMA_from 0 (attrs_wire (pAttributes p')) = attrs_wire (zero_first (pAttributes p'))"
    using zeroMA_from_wire [OF fits, of "[]"] by simp
  have "parse_attributes (attrs_wire (pAttributes p')) = Inr (pAttributes p')"
    using fits by (simp add: parse_attributes_iff)
  with r z show ?l
    unfolding d Unmarshal_wire [OF la v m refl] by auto
qed

text \<open>The Message-Authenticator \<open>Marshal\<close> wrote is the one \<open>Unmarshal\<close> zeroes again.\<close>

lemma zero_first_sent:
  assumes "ma_count (pAttributes p) \<le> 1"
  shows "zero_first (sent_attrs p s) = map (set_ma zeros) (sealed_attrs p s)"
  using assms
  by (simp add: sent_attrs_def zero_first_set_ma sealed_attrs_facts del: map_map)

lemma Unmarshal_marshalled:
  assumes wf: "wf_packet p" and sized: "ma_sized (pAttributes p)" and m: "Marshal p s = Inr w"
  shows "Unmarshal q (w @ pad) s =
    (\<lparr>pCode = pCode p, pIdentifier = pIdentifier p, pAuthenticator = sent_auth p s,
      pAttributes = sent_attrs p s\<rparr>, Inr ())"
proof -
  note send = marshalled [OF assms]
  have one: "ma_count (pAttributes p) \<le> 1" using send(1) by (simp add: sendable_def)
  have sent: "sent_auth p s = request_auth p s (word_of_nat (marshal_len p s))
      (attrs_wire (map (set_ma zeros) (sealed_attrs p s)))" if "isDigestRequest (pCode p)"
    using that by (auto simp: sent_auth_def final_auth_def dest: code_classes_disjoint(1))
  show ?thesis
    unfolding Unmarshal_accepts
    using send wf sendable_fits(2) [OF send(1)] length_sent_attrs [OF sized, of s]
      sent
    by (auto simp: wf_packet_def sendable_def zero_first_sent [OF one] request_auth_def
        simp del: of_nat_add of_nat_numeral)
qed

section \<open>Reply verification\<close>

lemma VerifyResponse_wire:
  assumes "length auth = 16" "20 + length body < 65536" and l: "l = word_of_nat (20 + length body)"
  shows "VerifyResponseAuthenticator (wire c i l auth body @ pad) ra s =
    (if \<not> isResponseCode c then Inl ErrInvalidCode
     else if auth = ComputeResponseAuthenticator c i l ra body s then Inr ()
     else Inl ErrAuthenticatorMismatch)"
proof -
  have n: "unat l = 20 + length body" unfolding l using assms(2) by (rule unat_of_nat16)
  note w = wire_parts [OF assms(1)] nth_wire_append slice_wire_body [OF assms(1)]
  show ?thesis by (auto simp: VerifyResponseAuthenticator_def w n limit_num Let_def)
qed

lemma VerifyResponse_accepts:
  "VerifyResponseAuthenticator raw ra s = Inr () \<longleftrightarrow>
    (\<exists>c i l body pad. raw = wire c i l (ComputeResponseAuthenticator c i l ra body s) body @ pad
        \<and> isResponseCode c \<and> unat l = 20 + length body)"
proof
  assume v: "VerifyResponseAuthenticator raw ra s = Inr ()"
  define n where "n = unat (BE_Uint16 (slice 2 4 raw))"
  from v have c: "20 \<le> n" "n \<le> length raw" "isResponseCode (raw ! 0)"
    and a: "slice 4 20 raw = ComputeResponseAuthenticator (raw ! 0) (raw ! 1) (BE_Uint16 (slice 2 4 raw))
              ra (slice 20 n raw) s"
    by (auto simp: VerifyResponseAuthenticator_def Let_def limit_num n_def split: if_splits)
  have l: "word_of_nat n = BE_Uint16 (slice 2 4 raw)" by (simp add: n_def)
  have "unat (word_of_nat n :: 16 word) = 20 + length (slice 20 n raw)"
    using c by (simp add: l flip: n_def)
  with wire_split [OF c(1,2) n_def [symmetric]] a c(3) show "\<exists>c i l body pad.
      raw = wire c i l (ComputeResponseAuthenticator c i l ra body s) body @ pad
        \<and> isResponseCode c \<and> unat l = 20 + length body"
    unfolding l by metis
next
  assume "\<exists>c i l body pad. raw = wire c i l (ComputeResponseAuthenticator c i l ra body s) body @ pad
        \<and> isResponseCode c \<and> unat l = 20 + length body"
  then obtain c i l body pad where
    raw: "raw = wire c i l (ComputeResponseAuthenticator c i l ra body s) body @ pad"
    and c: "isResponseCode c" and l: "unat l = 20 + length body" by blast
  have "l = word_of_nat (20 + length body)" by (simp flip: l)
  moreover have "unat l < 2 ^ LENGTH(16)" by (rule unsigned_less)
  then have "20 + length body < 65536" using l by simp
  ultimately show "VerifyResponseAuthenticator raw ra s = Inr ()"
    unfolding raw using c by (simp only: VerifyResponse_wire length_authenticators) simp
qed

definition is_request :: "code \<Rightarrow> bool" where
  "is_request c \<longleftrightarrow> c = AccessRequest \<or> isDigestRequest c"

lemma slice_shift: "length pre = n \<Longrightarrow> slice (n + i) (n + j) (pre @ xs) = slice i j xs"
  by (simp add: slice_def)

lemma wire_pre: "wire c i l auth body = ([c, i] @ BE_PutUint16 l @ auth) @ body"
  by (simp add: wire_def)

lemma ma_slot:
  assumes la: "length auth = 16" and lm: "length mac = 16" and sized: "ma_sized bs" and one: "ma_count bs \<le> 1"
    and k: "ma_offset bs = Some k"
  shows "k + 18 \<le> length (attrs_wire bs)"
    and "slice (20 + k + 2) (20 + k + 18) (wire c i l auth (attrs_wire (map (set_ma mac) bs)) @ pad) = mac"
    and "overwrite (20 + k + 2) zeros (wire c i l auth (attrs_wire (map (set_ma mac) bs)) @ pad)
      = wire c i l auth (attrs_wire (map (set_ma zeros) bs)) @ pad"
proof -
  let ?as = "map (set_ma mac) bs" and ?z = "map (set_ma zeros) bs" and ?pre = "[c, i] @ BE_PutUint16 l @ auth"
  have len: "length (attrs_wire ?as) = length (attrs_wire bs)" using sized lm by (rule length_attrs_set_ma)
  show r: "k + 18 \<le> length (attrs_wire bs)"
    using ma_in_range_wire [OF sized] k by (simp add: ma_in_range_def)
  have sg: "overwrite (k + 2) v (attrs_wire bs) = attrs_wire (map (set_ma v) bs)" if "length v = 16" for v
    using ma_signed_wire [OF sized one that] k by (simp add: ma_signed_def)
  have p20: "length ?pre = 20" using la by simp
  have "k + 18 = k + 2 + length mac" using lm by simp
  then have "slice (k + 2) (k + 18) (overwrite (k + 2) mac (attrs_wire bs)) = mac"
    using slice_overwrite_same [of "k + 2" mac "attrs_wire bs"] r by (simp only:)
  then have "slice (k + 2) (k + 18) (attrs_wire ?as @ pad) = mac"
    using r len by (subst slice_append_left) (simp_all only: sg [OF lm])
  then show "slice (20 + k + 2) (20 + k + 18) (wire c i l auth (attrs_wire ?as) @ pad) = mac"
    using slice_shift [OF p20, of "k + 2" "k + 18" "attrs_wire ?as @ pad"]
    by (simp add: wire_pre add.assoc del: map_map)
  have "overwrite (k + 2) zeros (attrs_wire ?as) = overwrite (k + 2) zeros (overwrite (k + 2) mac (attrs_wire bs))"
    using sg [OF lm] by simp
  also have "\<dots> = attrs_wire ?z" using r lm sg [of zeros] by (simp add: overwrite_overwrite)
  finally have "overwrite (k + 2) zeros (attrs_wire ?as @ pad) = attrs_wire ?z @ pad"
    using r len by (subst overwrite_append_left) (simp_all del: map_map)
  then show "overwrite (20 + k + 2) zeros (wire c i l auth (attrs_wire ?as) @ pad)
      = wire c i l auth (attrs_wire ?z) @ pad"
    using overwrite_append_right [OF p20, of "k + 2" zeros "attrs_wire ?as @ pad"]
    by (simp add: wire_pre add.assoc del: map_map)
qed

lemma VerifyMA_wire:
  assumes la: "length auth = 16" and n: "20 + length (attrs_wire bs) < 65536"
    and l: "l = word_of_nat (20 + length (attrs_wire bs))"
    and fits: "\<forall>a \<in> set bs. attr_fits a" and sized: "ma_sized bs" and one: "ma_count bs \<le> 1"
    and lm: "length mac = 16" and lr: "length ra = 16"
  shows "VerifyMessageAuthenticator (wire c i l auth (attrs_wire (map (set_ma mac) bs)) @ pad) ra s =
    (if ma_count bs = 0 then Inl ErrMessageAuthenticatorMissing
     else if mac = ComputeMessageAuthenticator
         (wire c i l (if is_request c then auth else ra) (attrs_wire (map (set_ma zeros) bs)) @ pad) s
     then Inr () else Inl ErrMessageAuthenticatorMismatch)"
proof -
  let ?as = "map (set_ma mac) bs" and ?z = "map (set_ma zeros) bs"
  have len: "length (attrs_wire (map (set_ma v) bs)) = length (attrs_wire bs)" if "length v = 16" for v
    using sized that by (rule length_attrs_set_ma)
  have nn: "unat l = 20 + length (attrs_wire ?as)"
    unfolding l len [OF lm] using n by (rule unat_of_nat16)
  have fits': "\<forall>a \<in> set ?as. attr_fits a" using fits set_ma_fits [OF _ lm] by auto
  have f: "find_ma (length (attrs_wire ?as)) (attrs_wire ?as) = Inr (map_option ((+) 20) (ma_offset bs))"
    using find_ma_wire [OF fits' order_refl] by (cases "ma_offset bs") (simp_all del: map_map)
  note w = wire_parts [OF la] nth_wire_append slice_wire_body [OF la]
  have none: "ma_offset bs = None \<longleftrightarrow> ma_count bs = 0" by (induction bs) auto
  define raw where "raw = wire c i l auth (attrs_wire ?as) @ pad"
  note folded = raw_def [symmetric]
  have u: "unat (BE_Uint16 (slice 2 4 raw)) = 20 + length (attrs_wire ?as)"
    unfolding raw_def by (simp only: wire_parts(4) [OF la] BE_Uint16_Put nn)
  have b: "slice 20 (20 + length (attrs_wire ?as)) raw = attrs_wire ?as"
    unfolding raw_def by (rule slice_wire_body [OF la])
  have lr20: "20 + length (attrs_wire ?as) \<le> length raw" and c0: "raw ! 0 = c"
    unfolding raw_def by (simp_all add: w del: map_map)
  have "?thesis" if k: "ma_offset bs = Some k" for k
  proof -
    note r = ma_slot(1) [OF la lm sized one k] and rcv = ma_slot(2) [where c = c and i = i and l = l and pad = pad, OF la lm sized one k]
      and zer = ma_slot(3) [where c = c and i = i and l = l and pad = pad, OF la lm sized one k]
    have ra4: "overwrite 4 ra (wire c i l auth b @ pad) = wire c i l ra b @ pad" for b
      using wire_parts(7) [OF la lr] la lr by (subst overwrite_append_left) (simp_all add: wire_parts)
    have lw: "\<not> length (drop (20 + k) (wire c i l auth (attrs_wire ?as) @ pad)) < 18"
      using r len [OF lm] by (simp add: w del: map_map)
    have z: "(if c = AccessRequest \<or> c = AccountingRequest \<or> c = CoARequest \<or> c = DisconnectRequest
         then wire c i l auth (attrs_wire ?z) @ pad
         else overwrite 4 ra (wire c i l auth (attrs_wire ?z) @ pad))
       = wire c i l (if is_request c then auth else ra) (attrs_wire ?z) @ pad"
      by (auto simp: is_request_def isDigestRequest_def ra4)
    have nz: "ma_count bs \<noteq> 0" using none k by auto
    show ?thesis
      unfolding folded VerifyMessageAuthenticator_def Let_def u
      using lr20 nz lw [unfolded folded]
      by (simp only: c0 z b add_diff_cancel_left' f k option.map option.case sum.case limit_num
          zer [unfolded folded] rcv [unfolded folded] if_False not_less le_add1
          crypto_VerifyMessageAuthenticator_def ConstantTimeCompare_iff)
        auto
  qed
  moreover have "?thesis" if k: "ma_offset bs = None"
  proof -
    have "ma_count bs = 0" using none k by simp
    then show ?thesis
      unfolding folded VerifyMessageAuthenticator_def Let_def u
      using lr20 k
      by (simp only: c0 b add_diff_cancel_left' f option.map option.case sum.case limit_num
          if_False not_less le_add1)
        auto
  qed
  ultimately show ?thesis by (cases "ma_offset bs") auto
qed

section \<open>Properties of the codec\<close>

lemma nth_sent_attrs:
  "i < length (pAttributes p) \<Longrightarrow>
   sent_attrs p s ! i = set_ma (packet_mac p s) (seal p s (pAttributes p ! i))"
  by (simp add: sent_attrs_def sealed_attrs_def)

lemma decrypt_sealed:
  assumes "s \<noteq> []" "sealable p a" "aType a = AttrUserPassword" "pCode p = AccessRequest"
  shows "DecryptUserPassword (aValue (seal p s a)) (pAuthenticator p) s = Inr (strip_nuls (aValue a))"
proof -
  have "length (aValue a) \<le> 128" using assms by (simp add: sealable_def)
  then have "padded_len (length (aValue a)) \<le> 128" by (rule padded_len_le)
  then show ?thesis
    using assms padded_len_pos [of "length (aValue a)"] padded_len_dvd [of "length (aValue a)"]
    by (simp add: DecryptUserPassword_def seal_def limit_num decrypt_encrypt_blocks
        strip_nuls_append_zeros dvd_eq_mod_eq_0)
qed

text \<open>
  C2: A packet with a 16-octet authenticator (in the code an array) in which every
  Message-Authenticator, if there is one, is given with 16 octets (with any other length
  \<open>Marshal\<close> writes past its value, or panics), and that \<open>Marshal\<close> serialises, is read back by
  \<open>Unmarshal\<close> with the same secret,
  whatever padding follows it and whatever the receiver held: same code, identifier and
  attribute types in the same order; every attribute other than a Message-Authenticator or a
  hidden password is identical; the User-Password of an Access-Request decrypts, with the
  authenticator that was received, to the password (less trailing NULs).
\<close>

theorem marshal_unmarshal:
  assumes "wf_packet p" and "ma_sized (pAttributes p)" and "Marshal p s = Inr w"
  shows "\<exists>p'. Unmarshal q (w @ pad) s = (p', Inr ())
    \<and> pCode p' = pCode p \<and> pIdentifier p' = pIdentifier p \<and> wf_packet p'
    \<and> (pCode p = AccessRequest \<longrightarrow> pAuthenticator p' = pAuthenticator p)
    \<and> map aType (pAttributes p') = map aType (pAttributes p)
    \<and> (\<forall>i < length (pAttributes p). let a = pAttributes p ! i; a' = pAttributes p' ! i in
        if aType a = AttrMessageAuthenticator then length (aValue a') = 16
        else if aType a = AttrUserPassword \<and> pCode p = AccessRequest
        then DecryptUserPassword (aValue a') (pAuthenticator p') s = Inr (strip_nuls (aValue a))
        else a' = a)"
proof -
  have send: "sendable p s" by (rule marshalled(1) [OF assms])
  have acc: "sent_auth p s = pAuthenticator p" if "pCode p = AccessRequest"
    using that code_classes_disjoint(2,3) [of AccessRequest]
    by (auto simp: sent_auth_def final_auth_def request_auth_def)
  have "map aType (sent_attrs p s) = map aType (pAttributes p)"
    by (simp add: sent_attrs_def sealed_attrs_def comp_def)
  moreover have "let a = pAttributes p ! i; a' = sent_attrs p s ! i in
        if aType a = AttrMessageAuthenticator then length (aValue a') = 16
        else if aType a = AttrUserPassword \<and> pCode p = AccessRequest
        then DecryptUserPassword (aValue a') (sent_auth p s) s = Inr (strip_nuls (aValue a))
        else a' = a" if i: "i < length (pAttributes p)" for i
  proof -
    have "sealable p (pAttributes p ! i)" "s \<noteq> []" using send i by (auto simp: sendable_def)
    with acc show ?thesis
      using nth_sent_attrs [OF i, of s] decrypt_sealed [of s p "pAttributes p ! i"]
      by (auto simp: Let_def set_ma_def is_ma_def seal_def)
  qed
  moreover have "length (sent_auth p s) = 16" using assms(1) by simp
  ultimately show ?thesis
    using Unmarshal_marshalled [OF assms, of q pad] acc
    by (intro exI conjI allI impI) (assumption | simp only: packet.select_convs wf_packet_def)+
qed

lemma marshalled_verify:
  assumes "wf_packet p" and "ma_sized (pAttributes p)" and "Marshal p s = Inr w"
  shows "(isResponseCode (pCode p) \<longrightarrow>
           VerifyResponseAuthenticator (w @ pad) (pAuthenticator p) s = Inr ())
    \<and> VerifyMessageAuthenticator w (pAuthenticator p) s =
        (if \<exists>a \<in> set (pAttributes p). aType a = AttrMessageAuthenticator then Inr ()
         else Inl ErrMessageAuthenticatorMissing)"
proof -
  note send = marshalled [OF assms]
  let ?as = "sealed_attrs p s"
  have len: "20 + length (attrs_wire (sent_attrs p s)) = marshal_len p s"
    by (rule length_sent_attrs [OF assms(2)])
  have max: "marshal_len p s < 65536" and one: "ma_count ?as \<le> 1" and v: "isValidCode (pCode p)"
    using send(1) maxLength_le [of "pCode p"] by (simp_all add: sendable_def sealed_attrs_facts)
  have la: "length (sent_auth p s) = 16" using assms(1) by simp
  have resp: "VerifyResponseAuthenticator (w @ pad) (pAuthenticator p) s = Inr ()"
    if "isResponseCode (pCode p)"
    unfolding send(2)
    using that VerifyResponse_wire [OF la _ refl, of "attrs_wire (sent_attrs p s)" "pCode p" "pIdentifier p" pad] max
    by (simp add: sent_auth_def final_auth_def flip: len)
  have auth: "(if is_request (pCode p) then sent_auth p s else pAuthenticator p) =
      request_auth p s (word_of_nat (marshal_len p s)) (attrs_wire (map (set_ma zeros) ?as))"
    using valid_code_cases [OF v]
    by (auto simp: is_request_def sent_auth_def final_auth_def request_auth_def
        dest: code_classes_disjoint)
  have ma0: "ma_count ?as = 0 \<longleftrightarrow> \<not> (\<exists>a \<in> set (pAttributes p). aType a = AttrMessageAuthenticator)"
    by (simp add: sealed_attrs_facts ma_count_0 is_ma_def)
  have "VerifyMessageAuthenticator w (pAuthenticator p) s =
      (if ma_count ?as = 0 then Inl ErrMessageAuthenticatorMissing else Inr ())"
    unfolding send(2) sent_attrs_def
    using VerifyMA_wire [where pad = "[]" and bs = ?as and mac = "packet_mac p s" and auth = "sent_auth p s"
        and ra = "pAuthenticator p" and c = "pCode p" and l = "word_of_nat (marshal_len p s)", OF la]
      sendable_fits(1) [OF send(1)] one max assms(1,2)
    by (simp add: sealed_attrs_facts(2) auth wf_packet_def packet_mac_def Let_def flip: marshal_len_def)
  with resp ma0 show ?thesis by simp
qed

text \<open>
  C3: Of a packet with a 16-octet authenticator in which every Message-Authenticator, if there is
  one, is given with 16 octets, every authenticator \<open>Marshal\<close> writes is accepted: a response passes
  \<open>VerifyResponseAuthenticator\<close> against the request's authenticator and the same secret
  (padding included), and a packet with a Message-Authenticator passes
  \<open>VerifyMessageAuthenticator\<close>, as a request and as a response.
\<close>

theorem marshal_verifies:
  assumes "wf_packet p" and "ma_sized (pAttributes p)" and "Marshal p s = Inr w"
  shows "(isResponseCode (pCode p) \<longrightarrow>
           VerifyResponseAuthenticator (w @ pad) (pAuthenticator p) s = Inr ())
    \<and> VerifyMessageAuthenticator w (pAuthenticator p) s =
        (if \<exists>a \<in> set (pAttributes p). aType a = AttrMessageAuthenticator then Inr ()
         else Inl ErrMessageAuthenticatorMissing)"
  by (rule marshalled_verify [OF assms])

lemma Marshal_total:
  "wf_packet p \<Longrightarrow> ma_sized (pAttributes p) \<Longrightarrow> sendable p s \<Longrightarrow> \<exists>w. Marshal p s = Inr w"
  by (auto simp: Marshal_success_iff ma_in_range_wire sealed_attrs_facts)

lemma marshal_len_seal:
  "marshal_len p s = 20 + (\<Sum>a\<leftarrow>pAttributes p. 2 + length (aValue (seal p s a)))"
  by (simp add: marshal_len_def sealed_attrs_def length_concat comp_def)

theorem marshal_unmarshal_witness:
  "let p = \<lparr>pCode = 1, pIdentifier = 7, pAuthenticator = replicate 16 3,
            pAttributes = [\<lparr>aType = 1, aValue = [0x62, 0x6f, 0x62]\<rparr>, \<lparr>aType = 2, aValue = [0x70, 0x77]\<rparr>]\<rparr>
   in \<exists>w p'. Marshal p [0x73] = Inr w \<and> Unmarshal empty_packet (w @ [0, 0]) [0x73] = (p', Inr ())
        \<and> pIdentifier p' = 7"
proof -
  let ?p = "\<lparr>pCode = 1, pIdentifier = 7, pAuthenticator = replicate 16 3,
    pAttributes = [\<lparr>aType = 1, aValue = [0x62, 0x6f, 0x62]\<rparr>, \<lparr>aType = 2, aValue = [0x70, 0x77]\<rparr>]\<rparr>"
  have wf: "wf_packet ?p" by (simp add: wf_packet_def)
  have sz: "ma_sized (pAttributes ?p)" by (simp add: ma_sized_def is_ma_def attr_num)
  have "sendable ?p [0x73]"
    by (simp add: sendable_def sealable_def isValidCode_def marshal_len_seal seal_def code_num attr_num
        attr_fits_def ma_count_def is_ma_def maxLengthForCode_def limit_num IsAccounting_def padded_len_def)
  then obtain w where w: "Marshal ?p [0x73] = Inr w" using Marshal_total [OF wf sz] by blast
  from marshal_unmarshal [OF wf sz w, of empty_packet "[0, 0]"] w show ?thesis by auto
qed

theorem marshal_verifies_witness:
  "let p = \<lparr>pCode = 2, pIdentifier = 7, pAuthenticator = replicate 16 3,
            pAttributes = [\<lparr>aType = 80, aValue = replicate 16 0\<rparr>]\<rparr>
   in \<exists>w. Marshal p [0x73] = Inr w \<and> VerifyResponseAuthenticator (w @ [0]) (replicate 16 3) [0x73] = Inr ()
        \<and> VerifyMessageAuthenticator w (replicate 16 3) [0x73] = Inr ()"
proof -
  let ?p = "\<lparr>pCode = 2, pIdentifier = 7, pAuthenticator = replicate 16 3,
    pAttributes = [\<lparr>aType = 80, aValue = replicate 16 0\<rparr>]\<rparr>"
  have wf: "wf_packet ?p" by (simp add: wf_packet_def)
  have sz: "ma_sized (pAttributes ?p)" by (simp add: ma_sized_def)
  have "sendable ?p [0x73]"
    by (simp add: sendable_def sealable_def isValidCode_def marshal_len_seal seal_def code_num attr_num
        attr_fits_def ma_count_def is_ma_def maxLengthForCode_def limit_num IsAccounting_def)
  then obtain w where w: "Marshal ?p [0x73] = Inr w" using Marshal_total [OF wf sz] by blast
  have "isResponseCode 2" by (simp add: isResponseCode_def code_num)
  with marshal_verifies [OF wf sz w, of "[0]"] w show ?thesis by (auto simp: attr_num)
qed

text \<open>
  C12: \<open>Marshal\<close> succeeds on a packet whose Message-Authenticator (if any) has 16 octets
  exactly when the secret is not empty, the code is known, there is at most one
  Message-Authenticator, every value fits (128 octets for a hidden password, 253 otherwise) and
  the total, with passwords padded to 16-octet blocks, does not exceed 4096 octets (4095 for
  accounting); what it returns has that length, carries it in its Length field, and starts
  with the code and the identifier.
\<close>

theorem marshal_outcome:
  assumes "wf_packet p" and "ma_sized (pAttributes p)"
  shows "case Marshal p s of
      Inr w \<Rightarrow> s \<noteq> [] \<and> isValidCode (pCode p) \<and> ma_count (pAttributes p) \<le> 1
        \<and> (\<forall>a \<in> set (pAttributes p). sealable p a)
        \<and> length w = 20 + (\<Sum>a\<leftarrow>pAttributes p. 2 + length (aValue (seal p s a)))
        \<and> length w \<le> maxLengthForCode (pCode p)
        \<and> unat (BE_Uint16 (slice 2 4 w)) = length w \<and> w ! 0 = pCode p \<and> w ! 1 = pIdentifier p
    | Inl e \<Rightarrow> e \<noteq> GoPanic \<and> \<not> (s \<noteq> [] \<and> isValidCode (pCode p) \<and> ma_count (pAttributes p) \<le> 1
        \<and> (\<forall>a \<in> set (pAttributes p). sealable p a)
        \<and> 20 + (\<Sum>a\<leftarrow>pAttributes p. 2 + length (aValue (seal p s a))) \<le> maxLengthForCode (pCode p))"
proof (cases "Marshal p s")
  case (Inl e)
  then have "\<not> sendable p s" using Marshal_total [OF assms, of s] by auto
  moreover have "e \<noteq> GoPanic"
  proof (cases "s = []")
    case False
    have "serialize_loop p s as acc off \<noteq> Inl GoPanic" for as acc off
      by (induction as arbitrary: acc off) (auto simp: serialize_step [OF False] simp del: serialize_loop.simps(2))
    moreover have "ma_in_range off ab" if "serializeAttributes p s = Inr (ab, off)" for ab off
      using that assms(2) by (auto simp: serialize_sealed [OF False] ma_in_range_wire simp del: map_map)
    ultimately show ?thesis
      using Inl by (auto simp: Marshal_eq [OF assms(1)] serializeAttributes_def split: if_splits sum.splits)
  qed (use Inl in \<open>simp add: Marshal_def\<close>)
  ultimately show ?thesis using Inl by (auto simp: sendable_def marshal_len_seal)
next
  case (Inr w)
  note send = marshalled [OF assms Inr]
  have la: "length (sent_auth p s) = 16" using assms(1) by simp
  have lw: "length w = marshal_len p s"
    using length_sent_attrs [OF assms(2), of s] by (simp add: send(2) wire_parts(1) [OF la])
  have "marshal_len p s < 65536"
    using send(1) maxLength_le [of "pCode p"] by (simp add: sendable_def)
  then have "unat (BE_Uint16 (slice 2 4 w)) = length w"
    using wire_parts(4) [OF la, where rest = "[]"] by (simp add: lw) (simp add: send(2))
  moreover have "w ! 0 = pCode p" "w ! 1 = pIdentifier p" by (simp_all add: send(2) wire_parts [OF la])
  ultimately show ?thesis using Inr lw send(1) by (simp add: sendable_def marshal_len_seal)
qed

theorem marshal_outcome_witness:
  "let p = \<lparr>pCode = 1, pIdentifier = 7, pAuthenticator = replicate 16 3,
            pAttributes = [\<lparr>aType = 1, aValue = [0x62]\<rparr>]\<rparr>
   in \<exists>w. Marshal p [0x73] = Inr w \<and> length w = 23"
proof -
  let ?p = "\<lparr>pCode = 1, pIdentifier = 7, pAuthenticator = replicate 16 3,
    pAttributes = [\<lparr>aType = 1, aValue = [0x62]\<rparr>]\<rparr>"
  have "wf_packet ?p" "ma_sized (pAttributes ?p)" by (simp_all add: wf_packet_def ma_sized_def is_ma_def attr_num)
  from marshal_outcome [OF this, of "[0x73]"] show ?thesis
    by (simp add: sealable_def isValidCode_def seal_def code_num attr_num attr_fits_def
        ma_count_def is_ma_def maxLengthForCode_def limit_num IsAccounting_def split: sum.splits)
qed

lemma UnmarshalAttribute_errors:
  "UnmarshalAttribute data = Inl e \<Longrightarrow> e \<in> {ErrShortBuffer, ErrInvalidAttribute, ErrInvalidLength}"
  by (auto simp: UnmarshalAttribute_def Let_def split: if_splits)

lemma parse_errors:
  "parse_attributes data = Inl e \<Longrightarrow> e \<in> {ErrShortBuffer, ErrInvalidAttribute, ErrInvalidLength}"
proof (induction data rule: parse_attributes.induct)
  case (1 data)
  from "1.prems" have "data \<noteq> []" by (subst (asm) parse_attributes.simps) auto
  with "1.prems" "1.IH" show ?case
    by (subst (asm) parse_attributes.simps) (auto split: sum.splits dest: UnmarshalAttribute_errors)
qed

lemma unmarshal_errors:
  "case Unmarshal p data s of (p', Inr _) \<Rightarrow> True
   | (p', Inl e) \<Rightarrow>
       e \<in> {ErrShortBuffer, ErrInvalidCode, ErrInvalidLength, ErrInvalidAttribute, ErrAuthenticatorMismatch}
       \<and> (e = ErrAuthenticatorMismatch \<or> p' = p)"
proof (cases "Unmarshal p data s")
  case (Pair p' r)
  then show ?thesis
    using parse_errors by (cases r) (fastforce simp: Unmarshal_def Let_def split: if_splits sum.splits)+
qed

text \<open>
  C11: \<open>Unmarshal\<close> accepts a datagram exactly when it is a header with a known code and a
  Length between 20 and the limit of the code, well-formed attributes up to that Length and
  anything behind it, and, for Accounting-, CoA- and Disconnect-Requests, the authenticator is
  the digest over the attributes with the first 16-octet Message-Authenticator zeroed; the
  receiver then holds exactly that packet. On every other input it returns one of five errors
  (it never panics), and leaves the receiver untouched unless the digest was wrong.
\<close>

theorem unmarshal_outcome:
  "case Unmarshal p data s of
     (p', Inr _) \<Rightarrow> (let body = attrs_wire (pAttributes p'); l = word_of_nat (20 + length body) in
        (\<exists>pad. data = [pCode p', pIdentifier p'] @ BE_PutUint16 l @ pAuthenticator p' @ body @ pad)
        \<and> wf_packet p' \<and> isValidCode (pCode p') \<and> (\<forall>a \<in> set (pAttributes p'). attr_fits a)
        \<and> 20 + length body \<le> maxLengthForCode (pCode p')
        \<and> (isDigestRequest (pCode p') \<longrightarrow> pAuthenticator p' =
             ComputeAccountingRequestAuthenticator (pCode p') (pIdentifier p') l
               (attrs_wire (zero_first (pAttributes p'))) s))
   | (p', Inl e) \<Rightarrow>
        e \<in> {ErrShortBuffer, ErrInvalidCode, ErrInvalidLength, ErrInvalidAttribute, ErrAuthenticatorMismatch}
        \<and> (e = ErrAuthenticatorMismatch \<or> p' = p)
        \<and> \<not> (\<exists>q pad. let body = attrs_wire (pAttributes q); l = word_of_nat (20 + length body) in
           data = [pCode q, pIdentifier q] @ BE_PutUint16 l @ pAuthenticator q @ body @ pad
           \<and> wf_packet q \<and> isValidCode (pCode q) \<and> (\<forall>a \<in> set (pAttributes q). attr_fits a)
           \<and> 20 + length body \<le> maxLengthForCode (pCode q)
           \<and> (isDigestRequest (pCode q) \<longrightarrow> pAuthenticator q =
             ComputeAccountingRequestAuthenticator (pCode q) (pIdentifier q) l
               (attrs_wire (zero_first (pAttributes q))) s))"
proof (cases "Unmarshal p data s")
  case (Pair p' r)
  show ?thesis
  proof (cases r)
    case (Inr u)
    with Pair have "Unmarshal p data s = (p', Inr ())" by simp
    with Inr Pair show ?thesis
      unfolding Unmarshal_accepts by (simp add: Let_def wire_def)
  next
    case (Inl e)
    have "e \<in> {ErrShortBuffer, ErrInvalidCode, ErrInvalidLength, ErrInvalidAttribute, ErrAuthenticatorMismatch}
        \<and> (e = ErrAuthenticatorMismatch \<or> p' = p)"
      using Pair Inl unmarshal_errors [of p data s] by simp
    moreover have "Unmarshal p data s \<noteq> (q, Inr ())" for q using Pair Inl by simp
    ultimately show ?thesis
      using Pair Inl unfolding Unmarshal_accepts by (auto simp: Let_def wire_def)
  qed
qed

theorem unmarshal_outcome_witness:
  "let data = [2, 7, 0, 23] @ replicate 16 9 @ [1, 3, 5, 0, 0];
       p' = \<lparr>pCode = 2, pIdentifier = 7, pAuthenticator = replicate 16 9,
             pAttributes = [\<lparr>aType = 1, aValue = [5]\<rparr>]\<rparr>
   in Unmarshal empty_packet data [] = (p', Inr ()) \<and> wf_packet p' \<and> isValidCode (pCode p')
      \<and> (\<exists>pad. data = [2, 7] @ BE_PutUint16 23 @ replicate 16 9 @ [1, 3, 5] @ pad)"
proof -
  let ?data = "[2, 7, 0, 23] @ replicate 16 9 @ [1, 3, 5, 0, 0] :: bytes"
  let ?p = "\<lparr>pCode = 2, pIdentifier = 7, pAuthenticator = replicate 16 9,
             pAttributes = [\<lparr>aType = 1, aValue = [5]\<rparr>]\<rparr>"
  have u: "Unmarshal empty_packet ?data [] = (?p, Inr ())" by code_simp
  show ?thesis
    using unmarshal_outcome [of empty_packet ?data "[]"]
    unfolding u Let_def by (simp add: attr_wire_def)
qed

text \<open>
  \<open>VerifyResponseAuthenticator\<close> accepts exactly the byte strings that are a response
  code, an identifier, a Length covering the body, the MD5 of code, identifier, Length, request
  authenticator, body and secret, and that body, followed by any padding. So a reply is bound
  to the authenticator of the request: no octet of header or body can differ from what was
  hashed.
\<close>

theorem response_authentic_iff:
  "VerifyResponseAuthenticator raw ra s = Inr () \<longleftrightarrow>
    (\<exists>c i l body pad. isResponseCode c \<and> unat l = 20 + length body
      \<and> raw = [c, i] @ BE_PutUint16 l
              @ md5_Sum ([c, i] @ BE_PutUint16 l @ ra @ body @ s) @ body @ pad)"
  unfolding VerifyResponse_accepts wire_def ComputeResponseAuthenticator_def
  by (simp add: conj_commute)

lemma find_ma_errors:
  "find_ma n rest = Inl e \<Longrightarrow> e \<in> {ErrShortBuffer, ErrInvalidAttribute, ErrInvalidLength}"
proof (induction n rest rule: find_ma.induct)
  case (1 n rest)
  then have ne: "rest \<noteq> []" by (subst (asm) find_ma.simps) auto
  show ?case
  proof (cases "UnmarshalAttribute rest")
    case (Inl e')
    with "1.prems" ne UnmarshalAttribute_errors [OF Inl] show ?thesis
      by (subst (asm) find_ma.simps) (simp add: Let_def)
  next
    case (Inr r)
    with "1.prems" ne "1.IH" [OF ne refl Inr] show ?thesis
      by (subst (asm) find_ma.simps) (auto simp: Let_def split: prod.splits if_splits)
  qed
qed

lemma verifier_panics:
  "VerifyResponseAuthenticator raw ra s = Inl GoPanic \<longleftrightarrow>
     20 \<le> length raw \<and> isResponseCode (raw ! 0) \<and> unat (BE_Uint16 (slice 2 4 raw)) < 20"
  "VerifyMessageAuthenticator raw ra s = Inl GoPanic \<longleftrightarrow>
     20 \<le> length raw \<and> unat (BE_Uint16 (slice 2 4 raw)) < 20"
proof -
  show "VerifyResponseAuthenticator raw ra s = Inl GoPanic \<longleftrightarrow>
     20 \<le> length raw \<and> isResponseCode (raw ! 0) \<and> unat (BE_Uint16 (slice 2 4 raw)) < 20"
    by (auto simp: VerifyResponseAuthenticator_def Let_def limit_num)
  have "find_ma n rest \<noteq> Inl GoPanic" for n rest using find_ma_errors by fastforce
  then show "VerifyMessageAuthenticator raw ra s = Inl GoPanic \<longleftrightarrow>
     20 \<le> length raw \<and> unat (BE_Uint16 (slice 2 4 raw)) < 20"
    by (auto simp: VerifyMessageAuthenticator_def Let_def limit_num split: sum.split option.split if_splits)
qed

text \<open>
  The two verifiers take raw octets and slice \<open>rawPacket[20:length]\<close>; they panic
  exactly on a buffer of at least 20 octets whose Length field is below 20
  (\<open>VerifyResponseAuthenticator\<close>: and whose code is a response code).
\<close>

theorem verifiers_panic_iff:
  "(VerifyResponseAuthenticator raw ra s = Inl GoPanic \<longleftrightarrow>
     20 \<le> length raw \<and> isResponseCode (raw ! 0) \<and> unat (BE_Uint16 (slice 2 4 raw)) < 20)
   \<and> (VerifyMessageAuthenticator raw ra s = Inl GoPanic \<longleftrightarrow>
     20 \<le> length raw \<and> unat (BE_Uint16 (slice 2 4 raw)) < 20)"
  by (simp add: verifier_panics)

text \<open>
  \<open>Marshal\<close> signs into the 16 octets behind the attribute header, whatever the length of the
  attribute: a Message-Authenticator with an empty value at the end of a packet is a panic.
\<close>

lemma marshal_short_ma_panics:
  "Marshal \<lparr>pCode = 2, pIdentifier = 1, pAuthenticator = replicate 16 0,
     pAttributes = [\<lparr>aType = 80, aValue = []\<rparr>]\<rparr> [0x73] = Inl GoPanic"
  by code_simp

text \<open>
  The Message-Authenticator is computed over the packet, but verified over the whole buffer:
  padding behind the Length field, ignored everywhere else, is hashed too, so a padded packet
  verifies only if the two hashes agree.
\<close>

lemma ma_padding_verifies_iff:
  assumes "wf_packet p" and "ma_sized (pAttributes p)" and "Marshal p s = Inr w"
    and "isResponseCode (pCode p)" and "\<exists>a \<in> set (pAttributes p). aType a = AttrMessageAuthenticator"
  shows "VerifyMessageAuthenticator (w @ pad) (pAuthenticator p) s = Inr () \<longleftrightarrow>
    (\<exists>unsigned. length unsigned = length w \<and> packet_mac p s = ComputeMessageAuthenticator unsigned s
       \<and> packet_mac p s = ComputeMessageAuthenticator (unsigned @ pad) s
       \<and> unsigned = wire (pCode p) (pIdentifier p) (word_of_nat (length w)) (pAuthenticator p)
           (attrs_wire (map (set_ma zeros) (sealed_attrs p s))))"
proof -
  note send = marshalled [OF assms(1-3)]
  let ?as = "sealed_attrs p s"
  have la: "length (sent_auth p s) = 16" using assms(1) by simp
  have lw: "length w = marshal_len p s"
    using length_sent_attrs [OF assms(2), of s] by (simp add: send(2) wire_parts(1) [OF la])
  have z: "length (attrs_wire (map (set_ma zeros) ?as)) = length (attrs_wire ?as)"
    using assms(2) by (intro length_attrs_set_ma) (simp_all add: sealed_attrs_facts)
  have one: "ma_count ?as = Suc 0"
  proof -
    have "ma_count ?as \<noteq> 0" using assms(5) by (simp add: sealed_attrs_facts ma_count_0 is_ma_def)
    then show ?thesis using send(1) by (simp add: sendable_def sealed_attrs_facts)
  qed
  have nr: "\<not> is_request (pCode p)" "request_auth p s l b = pAuthenticator p" for l b
    using assms(4) by (auto simp: is_request_def request_auth_def dest: code_classes_disjoint)
  have max: "marshal_len p s < 65536"
    using send(1) maxLength_le [of "pCode p"] by (simp add: sendable_def)
  have "VerifyMessageAuthenticator (w @ pad) (pAuthenticator p) s = Inr () \<longleftrightarrow>
      packet_mac p s = ComputeMessageAuthenticator (wire (pCode p) (pIdentifier p)
        (word_of_nat (marshal_len p s)) (pAuthenticator p) (attrs_wire (map (set_ma zeros) ?as)) @ pad) s"
    unfolding send(2) sent_attrs_def
    using VerifyMA_wire [where pad = pad and bs = ?as and mac = "packet_mac p s" and auth = "sent_auth p s"
        and ra = "pAuthenticator p" and c = "pCode p" and l = "word_of_nat (marshal_len p s)", OF la]
      sendable_fits(1) [OF send(1)] one max assms(1,2) nr
    by (simp add: sealed_attrs_facts(2) wf_packet_def flip: marshal_len_def)
  moreover have "length (wire (pCode p) (pIdentifier p) l (pAuthenticator p)
      (attrs_wire (map (set_ma zeros) ?as))) = length w" for l
    using assms(1) z by (simp add: wire_parts wf_packet_def lw marshal_len_def del: map_map)
  ultimately show ?thesis
    by (auto simp: lw packet_mac_def Let_def nr)
qed

section \<open>The attribute list\<close>

definition packet_header :: "packet \<Rightarrow> code \<times> byte \<times> bytes" where
  "packet_header p = (pCode p, pIdentifier p, pAuthenticator p)"

lemma get_all_filter: "get_all t as = filter (\<lambda>a. aType a = t) as"
  by (induction as) auto

lemma get_first_find: "get_first t as = find (\<lambda>a. aType a = t) as"
  by (induction as) auto

lemma set_loop_get:
  "get_all t (set_loop a found as) =
    (if t = aType a then (if found then [] else [a]) else get_all t as)"
  by (induction as arbitrary: found) auto

lemma set_loop_others:
  "filter (\<lambda>b. aType b \<noteq> aType a) (set_loop a found as) = filter (\<lambda>b. aType b \<noteq> aType a) as"
  by (induction as arbitrary: found) auto

lemma delete_loop_eq:
  "delete_loop t n as = (n + length (get_all t as), filter (\<lambda>a. aType a \<noteq> t) as)"
  by (induction as arbitrary: n) auto

lemma get_first_hd: "get_first t as = (case get_all t as of [] \<Rightarrow> None | a # _ \<Rightarrow> Some a)"
  by (induction as) auto

lemma get_all_append: "get_all t (as @ bs) = get_all t as @ get_all t bs"
  by (simp add: get_all_filter)

lemma get_all_others: "t \<noteq> u \<Longrightarrow> get_all t (filter (\<lambda>a. aType a \<noteq> u) as) = get_all t as"
  by (induction as) auto

text \<open>
  The operations on the attribute list are those of an ordered multimap keyed by type:
  \<open>Add\<close> appends; \<open>Set\<close> leaves exactly one attribute of its type and every other attribute in
  place and order; \<open>Delete\<close> removes exactly the attributes of its type and returns how many
  there were; \<open>GetOne\<close> is the first of \<open>Get\<close>; none of them touches the header.
\<close>

theorem attribute_list_laws:
  "packet_Get t (packet_Add a p) = packet_Get t p @ (if aType a = t then [a] else [])
   \<and> packet_Get t (packet_Set a p) = (if aType a = t then [a] else packet_Get t p)
   \<and> filter (\<lambda>b. aType b \<noteq> aType a) (pAttributes (packet_Set a p)) =
       filter (\<lambda>b. aType b \<noteq> aType a) (pAttributes p)
   \<and> packet_Get t (fst (packet_Delete u p)) = (if t = u then [] else packet_Get t p)
   \<and> snd (packet_Delete u p) = length (packet_Get u p)
   \<and> length (pAttributes (fst (packet_Delete u p))) + snd (packet_Delete u p) = length (pAttributes p)
   \<and> packet_GetOne t p = (case packet_Get t p of [] \<Rightarrow> None | b # _ \<Rightarrow> Some b)
   \<and> packet_header (packet_Add a p) = packet_header p
   \<and> packet_header (packet_Set a p) = packet_header p
   \<and> packet_header (fst (packet_Delete u p)) = packet_header p"
proof -
  have "length (filter (\<lambda>a. aType a \<noteq> u) as) + length (get_all u as) = length as" for as
    by (induction as) auto
  moreover have "get_all u (filter (\<lambda>a. aType a \<noteq> u) as) = []" for as by (induction as) auto
  ultimately show ?thesis
    by (simp add: packet_header_def packet_Get_def packet_Add_def packet_Set_def packet_Delete_def packet_GetOne_def
        delete_loop_eq set_loop_get set_loop_others get_first_hd get_all_append get_all_others)
qed

end
