(* ===== verification/Client_Props.thy ===== *)
theory Client_Props
  imports Client Packet_Props "HOL-Library.Multiset"
begin

text \<open>
  Properties of the client side (\<open>protocol/\<close>). The pool of identifiers is an instance of
  an interface of tokens that are taken and put back; the states reachable by concurrent calls
  are those of \<open>pool_step\<close>. Then: the delays, what \<open>VerifyResponse\<close> accepts, what the
  retransmission loop returns and sends, and the calls from end to end.
\<close>

section \<open>Identifiers\<close>

text \<open>
  A pool of tokens: taking one removes it, putting one back adds it while there is room.
  What is free and what is held always makes up the same collection, so a token that occurs
  once in it is never held twice.
\<close>

locale token_pool =
  fixes take_one :: "'s \<Rightarrow> ('t \<times> 's) option"
    and put_back :: "'t \<Rightarrow> 's \<Rightarrow> 's"
    and free :: "'s \<Rightarrow> 't multiset"
    and cap :: nat
  assumes take_some: "take_one s = Some (t, s') \<Longrightarrow> free s = add_mset t (free s')"
    and take_none: "take_one s = None \<longleftrightarrow> free s = {#}"
    and put: "size (free s) < cap \<Longrightarrow> free (put_back t s) = add_mset t (free s)"
begin

lemma take_conserves:
  "take_one s = Some (t, s') \<Longrightarrow> free s + held = whole \<Longrightarrow> free s' + add_mset t held = whole"
  using take_some by force

lemma take_fresh:
  "take_one s = Some (t, s') \<Longrightarrow> free s + held = whole \<Longrightarrow> count whole t \<le> 1 \<Longrightarrow> t \<notin># held"
proof
  assume t: "take_one s = Some (t, s')" and w: "free s + held = whole" "count whole t \<le> 1" and "t \<in># held"
  then have "1 \<le> count held t" by simp
  moreover have "1 \<le> count (free s) t" using take_some [OF t] by simp
  moreover have "count (free s) t + count held t \<le> 1" using w by auto
  ultimately show False by linarith
qed

lemma put_conserves:
  assumes "t \<in># held" "free s + held = whole" "size whole \<le> cap"
  shows "free (put_back t s) + (held - {#t#}) = whole"
proof -
  obtain h where h: "held = add_mset t h" using assms(1) by (meson multi_member_split)
  have w: "whole = add_mset t (free s + h)"
    using assms(2) [symmetric] unfolding h union_mset_add_mset_right .
  then have "size (free s) < cap" using assms(3) unfolding w by simp
  then have p: "free (put_back t s) = add_mset t (free s)" by (rule put)
  show ?thesis unfolding p h w by simp
qed

lemma exhausted_iff:
  "free s + held = whole \<Longrightarrow> take_one s = None \<longleftrightarrow> held = whole"
  unfolding take_none by (metis add_cancel_left_left)

end

definition pool_take :: "id_pool \<Rightarrow> (byte \<times> id_pool) option" where
  "pool_take tokens = (case pool_Acquire False tokens of Some (Inr i, rest) \<Rightarrow> Some (i, rest) | _ \<Rightarrow> None)"

lemma pool_Acquire_False:
  "pool_Acquire False tokens = Some (Inr i, rest) \<longleftrightarrow> tokens = i # rest"
  "pool_Acquire False tokens = None \<longleftrightarrow> tokens = []"
  by (auto simp: pool_Acquire_def split: list.splits)

interpretation ids: token_pool pool_take pool_Release mset 256
  by unfold_locales
     (auto simp: pool_take_def pool_Acquire_def pool_Release_def split: list.splits)

text \<open>The pool with the identifiers that calls hold: what concurrent calls can do to it.\<close>

inductive pool_step :: "id_pool \<times> byte list \<Rightarrow> id_pool \<times> byte list \<Rightarrow> bool" where
  acquire: "pool_Acquire False tokens = Some (Inr i, rest) \<Longrightarrow> pool_step (tokens, held) (rest, i # held)"
| cancel: "pool_Acquire True tokens = Some (Inl e, rest) \<Longrightarrow> pool_step (tokens, held) (rest, held)"
| release: "i \<in> set held \<Longrightarrow> pool_step (tokens, held) (pool_Release i tokens, remove1 i held)"

inductive_cases pool_stepE: "pool_step s s'"

abbreviation pool_reachable :: "id_pool \<times> byte list \<Rightarrow> bool" where
  "pool_reachable s \<equiv> pool_step\<^sup>*\<^sup>* (NewIdentifierPool, []) s"

lemma new_pool_facts:
  "distinct NewIdentifierPool" "set NewIdentifierPool = UNIV" "length NewIdentifierPool = 256"
proof -
  show d: "distinct NewIdentifierPool"
  proof -
    have "inj_on (word_of_nat :: nat \<Rightarrow> byte) {0..<256}"
      by (rule inj_onI) (metis atLeastLessThan_iff unat_of_nat8)
    then show ?thesis by (simp add: NewIdentifierPool_def distinct_map)
  qed
  show l: "length NewIdentifierPool = 256" by (simp add: NewIdentifierPool_def)
  have "b \<in> set NewIdentifierPool" for b
    using unat_byte_less [of b] by (force simp: NewIdentifierPool_def image_iff intro: bexI [of _ "unat b"])
  then show "set NewIdentifierPool = UNIV" by blast
qed

lemma pool_invariant:
  "pool_reachable s \<Longrightarrow> mset (fst s) + mset (snd s) = mset NewIdentifierPool"
proof (induction rule: rtranclp_induct)
  case (step s s')
  from step.hyps(2) step.IH show ?case
  proof (cases rule: pool_step.cases)
    case (acquire tokens i rest held)
    then show ?thesis using step.IH by (simp add: pool_Acquire_False)
  next
    case (cancel tokens e rest held)
    then show ?thesis using step.IH by (simp add: pool_Acquire_def)
  next
    case (release i held tokens)
    have "size (mset NewIdentifierPool) \<le> 256" by (simp add: new_pool_facts)
    with release show ?thesis
      using ids.put_conserves [of i "mset held" tokens "mset NewIdentifierPool"] step.IH by simp
  qed
qed simp

text \<open>
  In every state that concurrent calls can reach, each identifier is either free exactly
  once or held by exactly one call, so two outstanding requests never share an identifier; and
  acquiring blocks only when all 256 are outstanding.
\<close>

theorem identifiers_unique:
  assumes "pool_reachable (tokens, held)"
  shows "distinct tokens \<and> distinct held \<and> set tokens = - set held
    \<and> length tokens + length held = 256
    \<and> (pool_Acquire False tokens = None \<longleftrightarrow> length held = 256)"
proof -
  have m: "mset (tokens @ held) = mset NewIdentifierPool"
    using pool_invariant [OF assms] by simp
  have d: "distinct (tokens @ held)"
    using m new_pool_facts(1) by (metis distinct_count_atmost_1 mset_eq_setD)
  have s: "set (tokens @ held) = UNIV" using mset_eq_setD [OF m] new_pool_facts(2) by simp
  have l: "length tokens + length held = 256"
    using arg_cong [OF m, of size] new_pool_facts(3) by simp
  have "pool_Acquire False tokens = None \<longleftrightarrow> tokens = []" by (rule pool_Acquire_False(2))
  with d s l show ?thesis by auto
qed

theorem identifiers_unique_witness:
  "\<exists>tokens held. pool_reachable (tokens, held) \<and> held = [0] \<and> set tokens = - {0}"
proof -
  have "NewIdentifierPool = 0 # map word_of_nat [1..<256]"
    by (simp add: NewIdentifierPool_def upt_rec [of 0 256])
  then have "pool_step (NewIdentifierPool, []) (map word_of_nat [1..<256], [0])"
    by (intro pool_step.acquire) (simp add: pool_Acquire_False)
  then have r: "pool_reachable (map word_of_nat [1..<256], [0])" by (rule r_into_rtranclp)
  with identifiers_unique [OF r] show ?thesis by (intro exI) auto
qed

section \<open>Delays\<close>

lemma sint_shift_exact:
  fixes w :: "64 word"
  assumes "0 < sint w" "sint w * 2 ^ n < 2 ^ 63"
  shows "sint (push_bit n w) = sint w * 2 ^ n"
proof -
  have "push_bit n w = word_of_int (sint w * 2 ^ n)"
    by (simp add: push_bit_eq_mult mult.commute)
  moreover have "sint (word_of_int k :: 64 word) = signed_take_bit 63 k" for k
    by (subst signed_of_int) simp
  ultimately have "sint (push_bit n w) = signed_take_bit 63 (sint w * 2 ^ n)" by (simp only:)
  also have "\<dots> = sint w * 2 ^ n"
  proof -
    have "0 \<le> sint w * 2 ^ n" using assms(1) by simp
    then have "- (2 ^ 63) \<le> sint w * 2 ^ n" by simp
    with assms(2) show ?thesis by (intro signed_take_bit_int_eq_self) auto
  qed
  finally show ?thesis .
qed

lemma sint_shift_multiple:
  fixes w :: "64 word"
  assumes "k \<le> n" "k \<le> 63"
  shows "2 ^ k dvd sint (push_bit n w)"
proof -
  have "take_bit k (sint (push_bit n w)) = 0"
    using assms by (intro bit_eqI) (auto simp: bit_simps)
  then show ?thesis by (simp add: take_bit_eq_0_iff)
qed

text \<open>
  Without jitter the delay before a retransmission is positive and at most \<open>Max\<close>, for
  every attempt number, the shifts that overflow 64 bits included; it is the smaller of
  \<open>Initial * 2^attempt\<close> and \<open>Max\<close> whenever that product fits, and, for the default policy,
  always.
\<close>

theorem next_delay_bounds:
  assumes "\<not> rpJittered p" and "0 < sint (rpInitial p)" and "0 < sint (rpMax p)"
  shows "0 < sint (NextDelay scale p a) \<and> sint (NextDelay scale p a) \<le> sint (rpMax p)
    \<and> (sint (rpInitial p) * 2 ^ nat a < 2 ^ 63 \<longrightarrow>
        sint (NextDelay scale p a) = min (sint (rpInitial p) * 2 ^ nat a) (sint (rpMax p)))
    \<and> sint (NextDelay scale (DefaultRetransmitPolicy\<lparr>rpJittered := False\<rparr>) a)
        = min (2000000000 * 2 ^ nat a) 16000000000"
proof -
  have n: "nat (if a < 0 then 0 else a) = nat a" by simp
  have exact: "sint (NextDelay scale q a) = min (sint (rpInitial q) * 2 ^ nat a) (sint (rpMax q))"
    if "\<not> rpJittered q" "0 < sint (rpInitial q)" "sint (rpInitial q) * 2 ^ nat a < 2 ^ 63" for q
  proof -
    have "0 < sint (rpInitial q) * 2 ^ nat a" using that(2) by simp
    with that(1) sint_shift_exact [OF that(2,3)] show ?thesis
      by (auto simp: NextDelay_def n Let_def min_def not_le)
  qed
  let ?q = "DefaultRetransmitPolicy\<lparr>rpJittered := False\<rparr>"
  have q: "\<not> rpJittered ?q" "sint (rpInitial ?q) = 2000000000" "sint (rpMax ?q) = 16000000000"
    by (simp_all add: DefaultRetransmitPolicy_def time_Second_def)
  have "sint (NextDelay scale ?q a) = min (2000000000 * 2 ^ nat a) 16000000000"
  proof (cases "nat a < 32")
    case True
    then have "(2::int) ^ nat a \<le> 2 ^ 31" by (intro power_increasing) auto
    then show ?thesis using exact [of ?q] q by simp
  next
    case False
    then have "(2::int) ^ 32 \<le> 2 ^ nat a" by (intro power_increasing) auto
    moreover have "sint (push_bit (nat a) (rpInitial ?q)) \<le> 0 \<or> 16000000000 < sint (push_bit (nat a) (rpInitial ?q))"
    proof (cases "nat a = 32 \<or> nat a = 33")
      case True
      then show ?thesis by (auto simp: DefaultRetransmitPolicy_def time_Second_def)
    next
      case f: False
      have "2 ^ 34 dvd sint (push_bit (nat a) (rpInitial ?q))"
        using False f by (intro sint_shift_multiple) auto
      then show ?thesis by (auto dest: zdvd_imp_le)
    qed
    ultimately show ?thesis using q by (simp add: NextDelay_def n Let_def min_def)
  qed
  then show ?thesis using assms exact [of p] by (auto simp: NextDelay_def n Let_def)
qed

theorem next_delay_bounds_witness:
  "sint (NextDelay id \<lparr>rpMaxAttempts = 5, rpInitial = 3, rpMax = 20, rpJittered = False\<rparr> 2) = 12"
  using next_delay_bounds [of "\<lparr>rpMaxAttempts = 5, rpInitial = 3, rpMax = 20, rpJittered = False\<rparr>" id 2]
  by simp

section \<open>Verifying a reply\<close>

lemma has_ma_iff: "has_ma_loop as \<longleftrightarrow> (\<exists>a \<in> set as. aType a = AttrMessageAuthenticator)"
  by (induction as) auto

lemma VerifyResponse_ok_iff:
  "VerifyResponse raw i ra s = Inr pkt \<longleftrightarrow>
    Unmarshal empty_packet raw s = (pkt, Inr ()) \<and> pIdentifier pkt = i
    \<and> VerifyResponseAuthenticator raw ra s = Inr ()
    \<and> (hasMessageAuthenticator pkt \<longrightarrow> VerifyMessageAuthenticator raw ra s = Inr ())"
  by (auto simp: VerifyResponse_def split: prod.splits sum.splits if_splits)

lemma verify_response_facts:
  "case VerifyResponse raw i ra s of
     Inr pkt \<Rightarrow> isResponseCode (pCode pkt) \<and> pIdentifier pkt = i
       \<and> (\<exists>pad l. raw = [pCode pkt, i] @ BE_PutUint16 l @ pAuthenticator pkt @ attrs_wire (pAttributes pkt) @ pad
            \<and> unat l = 20 + length (attrs_wire (pAttributes pkt))
            \<and> pAuthenticator pkt = md5_Sum ([pCode pkt, i] @ BE_PutUint16 l @ ra
                 @ attrs_wire (pAttributes pkt) @ s))
       \<and> \<not> (hasMessageAuthenticator pkt \<and> VerifyMessageAuthenticator raw ra s \<noteq> Inr ())
   | Inl e \<Rightarrow> e \<noteq> GoPanic"
proof (cases "VerifyResponse raw i ra s")
  case (Inr pkt)
  then have u: "Unmarshal empty_packet raw s = (pkt, Inr ())" and i: "pIdentifier pkt = i"
    and v: "VerifyResponseAuthenticator raw ra s = Inr ()"
    and ma: "hasMessageAuthenticator pkt \<Longrightarrow> VerifyMessageAuthenticator raw ra s = Inr ()"
    by (auto simp: VerifyResponse_ok_iff)
  let ?body = "attrs_wire (pAttributes pkt)"
  let ?l = "word_of_nat (20 + length ?body) :: 16 word"
  from u obtain pad where raw: "raw = wire (pCode pkt) i ?l (pAuthenticator pkt) ?body @ pad"
    and la: "length (pAuthenticator pkt) = 16" and max: "20 + length ?body \<le> maxLengthForCode (pCode pkt)"
    unfolding Unmarshal_accepts i by (auto simp: wf_packet_def simp del: of_nat_add of_nat_numeral)
  have n: "20 + length ?body < 65536" using max maxLength_le [of "pCode pkt"] by simp
  from v VerifyResponse_wire [OF la n refl, of "pCode pkt" i pad ra s]
  have "isResponseCode (pCode pkt)" "pAuthenticator pkt = ComputeResponseAuthenticator (pCode pkt) i ?l ra ?body s"
    unfolding raw by (auto split: if_splits)
  moreover have "unat ?l = 20 + length ?body" by (rule unat_of_nat16 [OF n])
  moreover have "raw = [pCode pkt, i] @ BE_PutUint16 ?l @ pAuthenticator pkt @ ?body @ pad"
    unfolding raw wire_def by simp
  ultimately show ?thesis
    using Inr i ma by (auto simp: ComputeResponseAuthenticator_def simp del: of_nat_add of_nat_numeral)
next
  case (Inl e)
  have "e \<noteq> GoPanic"
  proof
    assume "e = GoPanic"
    moreover have "snd (Unmarshal empty_packet raw s) \<noteq> Inl GoPanic"
      using unmarshal_errors [of empty_packet raw s] by (auto split: prod.splits sum.splits)
    ultimately obtain pkt where u: "Unmarshal empty_packet raw s = (pkt, Inr ())"
      and p: "VerifyResponseAuthenticator raw ra s = Inl GoPanic \<or> VerifyMessageAuthenticator raw ra s = Inl GoPanic"
      using Inl by (auto simp: VerifyResponse_def split: prod.splits sum.splits if_splits)
    from Unmarshal_ok_shape [OF u] have "20 \<le> unat (BE_Uint16 (slice 2 4 raw))" by auto
    with p show False by (auto simp: verifier_panics)
  qed
  with Inl show ?thesis by simp
qed


lemma verified_reply:
  assumes "VerifyResponse raw i ra s = Inr pkt"
  shows "\<exists>pad l. raw = [pCode pkt, i] @ BE_PutUint16 l @ pAuthenticator pkt @ attrs_wire (pAttributes pkt) @ pad
    \<and> unat l = 20 + length (attrs_wire (pAttributes pkt)) \<and> pIdentifier pkt = i \<and> isResponseCode (pCode pkt)
    \<and> pAuthenticator pkt = md5_Sum ([pCode pkt, i] @ BE_PutUint16 l @ ra @ attrs_wire (pAttributes pkt) @ s)"
  using verify_response_facts [where raw = raw and i = i and ra = ra and s = s] assms by simp

text \<open>
  C17: A reply is accepted only if it is a response code with the identifier of the request and
  an authenticator that is the MD5 over its header, the authenticator of the request, its
  attributes and the secret; the packet returned holds exactly those fields, and if it carries
  a Message-Authenticator that was verified too. Whatever octets arrive, the verification does not
  panic.
\<close>

theorem verify_response_sound:
  "case VerifyResponse raw i ra s of
     Inr pkt \<Rightarrow> isResponseCode (pCode pkt) \<and> pIdentifier pkt = i
       \<and> (\<exists>pad l. raw = [pCode pkt, i] @ BE_PutUint16 l @ pAuthenticator pkt @ attrs_wire (pAttributes pkt) @ pad
            \<and> unat l = 20 + length (attrs_wire (pAttributes pkt))
            \<and> pAuthenticator pkt = md5_Sum ([pCode pkt, i] @ BE_PutUint16 l @ ra
                 @ attrs_wire (pAttributes pkt) @ s))
       \<and> \<not> (hasMessageAuthenticator pkt \<and> VerifyMessageAuthenticator raw ra s \<noteq> Inr ())
   | Inl e \<Rightarrow> e \<noteq> GoPanic"
  by (rule verify_response_facts)

text \<open>A reply that \<open>Marshal\<close> wrote for the request is accepted.\<close>

lemma verify_response_complete:
  assumes "wf_packet p" "ma_sized (pAttributes p)" "isResponseCode (pCode p)" "Marshal p s = Inr w"
    and "pad = [] \<or> (\<forall>a \<in> set (pAttributes p). aType a \<noteq> AttrMessageAuthenticator)"
  shows "VerifyResponse (w @ pad) (pIdentifier p) (pAuthenticator p) s =
    Inr \<lparr>pCode = pCode p, pIdentifier = pIdentifier p, pAuthenticator = sent_auth p s,
         pAttributes = sent_attrs p s\<rparr>"
proof -
  have "has_ma_loop (sent_attrs p s) \<longleftrightarrow> (\<exists>a \<in> set (pAttributes p). aType a = AttrMessageAuthenticator)"
    by (auto simp: has_ma_iff sent_attrs_def sealed_attrs_def)
  with assms Unmarshal_marshalled [OF assms(1,2,4), of empty_packet pad]
    marshalled_verify [OF assms(1,2,4), of pad] marshalled_verify [OF assms(1,2,4), of "[]"]
  show ?thesis
    by (auto simp: VerifyResponse_ok_iff hasMessageAuthenticator_def)
qed

section \<open>Retransmission\<close>

text \<open>
  What one attempt comes to: it fails and the next may follow, the call is given up (before or
  after sending), or the reply verifies.
\<close>

datatype attempt_result = Retry gerror | Abort gerror bool | Verified packet

definition attempt_of :: "bytes \<Rightarrow> (nat \<Rightarrow> attempt_env) \<Rightarrow> byte \<Rightarrow> bytes \<Rightarrow> nat \<Rightarrow> attempt_result" where
  "attempt_of secret env i ra k =
    (case (if k > 0 then aeCtxDone (env k) else None) of Some e \<Rightarrow> Abort e False
     | None \<Rightarrow> (case aeReply (env k) of
         Inl e \<Rightarrow> if e = CtxCanceled then Abort e True
                  else (case aeCtxErr (env k) of Some ce \<Rightarrow> Abort ce True | None \<Rightarrow> Retry e)
       | Inr reply \<Rightarrow> (case VerifyResponse reply i ra secret of Inl e \<Rightarrow> Retry e | Inr pkt \<Rightarrow> Verified pkt)))"

fun is_retry :: "attempt_result \<Rightarrow> bool" where
  "is_retry (Retry e) = True"
| "is_retry _ = False"

definition sends :: "client_event list \<Rightarrow> bytes list" where
  "sends evs = concat (map (\<lambda>ev. case ev of Send raw d \<Rightarrow> [raw] | Wait d \<Rightarrow> []) evs)"

lemma sends_simps [simp]:
  "sends [] = []" "sends (Wait d # evs) = sends evs" "sends (Send raw t # evs) = raw # sends evs"
  "sends (xs @ ys) = sends xs @ sends ys"
  by (simp_all add: sends_def)

text \<open>The outcome of the attempts \<open>ks\<close> after a last error: the first that is no retry decides.\<close>

fun decide :: "(nat \<Rightarrow> attempt_result) \<Rightarrow> nat list \<Rightarrow> gerror option \<Rightarrow> packet res" where
  "decide att [] lastErr = (case lastErr of Some e \<Rightarrow> Inl e | None \<Rightarrow> Inl ErrNoResponse)"
| "decide att (k # ks) lastErr =
    (case att k of Retry e \<Rightarrow> decide att ks (Some e) | Abort e _ \<Rightarrow> Inl e | Verified pkt \<Rightarrow> Inr pkt)"

fun count_sends :: "(nat \<Rightarrow> attempt_result) \<Rightarrow> nat list \<Rightarrow> nat" where
  "count_sends att [] = 0"
| "count_sends att (k # ks) =
    (case att k of Retry e \<Rightarrow> Suc (count_sends att ks) | Abort e sent \<Rightarrow> (if sent then 1 else 0)
     | Verified pkt \<Rightarrow> 1)"

lemma retransmit_step:
  "\<exists>pre. sends pre = (case attempt_of secret env i ra k of Abort e False \<Rightarrow> [] | _ \<Rightarrow> [raw])
    \<and> retransmit_loop p secret sc env raw i ra k (Suc r) lastErr =
      (case attempt_of secret env i ra k of
         Abort e _ \<Rightarrow> (Inl e, pre) | Verified pkt \<Rightarrow> (Inr pkt, pre)
       | Retry e \<Rightarrow> (let (res, evs) = retransmit_loop p secret sc env raw i ra (Suc k) r (Some e)
                    in (res, pre @ evs)))"
proof -
  define wait where "wait = (if k > 0 then [Wait (NextDelay (sc (2 * k)) p (int k - 1))] else [])"
  define per where "per = (if r > 0 then
      (let d = NextDelay (sc (2 * k + 1)) p (int k) in if sint d > 0 then Some d else None) else None)"
  have w: "sends wait = []" by (simp add: wait_def)
  have step: "retransmit_loop p secret sc env raw i ra k (Suc r) lastErr =
      (case (if k > 0 then aeCtxDone (env k) else None) of Some e \<Rightarrow> (Inl e, wait)
       | None \<Rightarrow> (case attempt_of secret env i ra k of
         Abort e _ \<Rightarrow> (Inl e, wait @ [Send raw per]) | Verified pkt \<Rightarrow> (Inr pkt, wait @ [Send raw per])
       | Retry e \<Rightarrow> (let (res, evs) = retransmit_loop p secret sc env raw i ra (Suc k) r (Some e)
                    in (res, (wait @ [Send raw per]) @ evs))))"
    unfolding retransmit_loop.simps(2) Let_def wait_def [symmetric] per_def [unfolded Let_def, symmetric] attempt_of_def
    by (cases "if k > 0 then aeCtxDone (env k) else None"; simp only: option.case)
       (auto split: option.split sum.split)
  show ?thesis
  proof (cases "if k > 0 then aeCtxDone (env k) else None")
    case (Some e)
    then have "attempt_of secret env i ra k = Abort e False" by (simp add: attempt_of_def)
    with Some w show ?thesis unfolding step by (intro exI [of _ wait]) simp
  next
    case None
    then have "attempt_of secret env i ra k \<noteq> Abort e False" for e
      by (auto simp: attempt_of_def split: sum.split option.split)
    then have "(case attempt_of secret env i ra k of Abort e False \<Rightarrow> [] | _ \<Rightarrow> [raw]) = [raw]"
      by (auto split: attempt_result.split bool.split)
    with None w show ?thesis
      unfolding step by (intro exI [of _ "wait @ [Send raw per]"]) simp
  qed
qed

lemma retransmit_loop_decide:
  "fst (retransmit_loop p secret sc env raw i ra k r lastErr)
     = decide (attempt_of secret env i ra) [k..<k + r] lastErr
   \<and> sends (snd (retransmit_loop p secret sc env raw i ra k r lastErr))
     = replicate (count_sends (attempt_of secret env i ra) [k..<k + r]) raw"
proof (induction r arbitrary: k lastErr)
  case 0
  then show ?case by simp
next
  case (Suc r)
  have ks: "[k..<k + Suc r] = k # [Suc k..<Suc k + r]" by (simp add: upt_rec)
  obtain pre where pre: "sends pre = (case attempt_of secret env i ra k of Abort e False \<Rightarrow> [] | _ \<Rightarrow> [raw])"
    and step: "retransmit_loop p secret sc env raw i ra k (Suc r) lastErr =
      (case attempt_of secret env i ra k of
         Abort e _ \<Rightarrow> (Inl e, pre) | Verified pkt \<Rightarrow> (Inr pkt, pre)
       | Retry e \<Rightarrow> (let (res, evs) = retransmit_loop p secret sc env raw i ra (Suc k) r (Some e)
                    in (res, pre @ evs)))"
    using retransmit_step by blast
  note IH = Suc.IH [of "Suc k"]
  show ?case
  proof (cases "attempt_of secret env i ra k")
    case (Retry e)
    obtain res evs where rec: "retransmit_loop p secret sc env raw i ra (Suc k) r (Some e) = (res, evs)"
      by fastforce
    from IH [of "Some e"] pre Retry show ?thesis
      unfolding step ks by (simp only: rec attempt_result.case Let_def prod.case fst_conv snd_conv
          decide.simps count_sends.simps sends_simps) simp
  next
    case (Abort e sent)
    with pre show ?thesis unfolding step ks by (cases sent) simp_all
  next
    case (Verified pkt)
    with pre show ?thesis unfolding step ks by simp
  qed
qed

lemma count_sends_le: "count_sends att ks \<le> length ks"
  by (induction ks) (auto split: attempt_result.split)

lemma decide_verified:
  "decide att [k..<k + r] lastErr = Inr pkt \<longleftrightarrow>
    (\<exists>j. k \<le> j \<and> j < k + r \<and> list_all (\<lambda>i. is_retry (att i)) [k..<j] \<and> att j = Verified pkt)"
proof (induction r arbitrary: k lastErr)
  case 0
  then show ?case by (simp split: option.split)
next
  case (Suc r)
  have ks: "[k..<k + Suc r] = k # [Suc k..<Suc k + r]" by (simp add: upt_rec)
  have split: "(\<exists>j. k \<le> j \<and> j < k + Suc r \<and> list_all (\<lambda>i. is_retry (att i)) [k..<j] \<and> att j = Verified pkt)
    \<longleftrightarrow> att k = Verified pkt \<or> (is_retry (att k) \<and> (\<exists>j. Suc k \<le> j \<and> j < Suc k + r
        \<and> list_all (\<lambda>i. is_retry (att i)) [Suc k..<j] \<and> att j = Verified pkt))" (is "?l \<longleftrightarrow> ?r")
  proof
    assume ?l
    then obtain j where j: "k \<le> j" "j < k + Suc r" "list_all (\<lambda>i. is_retry (att i)) [k..<j]" "att j = Verified pkt"
      by blast
    show ?r
    proof (cases "j = k")
      case False
      then have "[k..<j] = k # [Suc k..<j]" using j(1) by (simp add: upt_conv_Cons)
      with j False show ?thesis by auto
    qed (use j in simp)
  next
    assume ?r
    then show ?l
    proof
      assume "att k = Verified pkt"
      then show ?l by (intro exI [of _ k]) simp
    next
      assume "is_retry (att k) \<and> (\<exists>j. Suc k \<le> j \<and> j < Suc k + r
        \<and> list_all (\<lambda>i. is_retry (att i)) [Suc k..<j] \<and> att j = Verified pkt)"
      then obtain j where "is_retry (att k)" "Suc k \<le> j" "j < Suc k + r"
        "list_all (\<lambda>i. is_retry (att i)) [Suc k..<j]" "att j = Verified pkt" by blast
      moreover from this have "[k..<j] = k # [Suc k..<j]" by (simp add: upt_conv_Cons)
      ultimately show ?l by (intro exI [of _ j]) simp
    qed
  qed
  show ?case
    unfolding split ks using Suc.IH [of "Suc k"] by (cases "att k") simp_all
qed

lemma decide_NoResponse:
  "decide att ks lastErr = Inl ErrNoResponse \<Longrightarrow>
    (ks = [] \<and> lastErr = None) \<or> lastErr = Some ErrNoResponse
    \<or> (\<exists>k \<in> set ks. att k = Retry ErrNoResponse \<or> (\<exists>b. att k = Abort ErrNoResponse b))"
  by (induction ks arbitrary: lastErr) (fastforce split: option.splits attempt_result.splits)+

lemma Attempts_pos: "0 < Attempts p"
  by (simp add: Attempts_def DefaultRetransmitPolicy_def)

text \<open>
  C15: \<open>exchangeWithRetransmit\<close> sends the identical octets at most \<open>Attempts()\<close> times and
  returns a packet exactly when some attempt's reply verifies against the identifier and the
  request authenticator and every attempt before it failed in a way that is retried; then it has
  sent once per attempt up to that one. Otherwise its error is that of the attempt that gave up
  or of the last one.
\<close>

theorem exchange_outcome:
  "let n = nat (Attempts (clRetransmit c));
       att = attempt_of (clSecret c) env i ra;
       (r, evs) = exchangeWithRetransmit c sc env raw i ra
   in r = decide att [0..<n] None \<and> sends evs = replicate (count_sends att [0..<n]) raw
      \<and> length (sends evs) \<le> n
      \<and> (r = Inr pkt \<longleftrightarrow> (\<exists>k < n. list_all (\<lambda>j. is_retry (att j)) [0..<k] \<and> att k = Verified pkt))"
proof -
  let ?n = "nat (Attempts (clRetransmit c))" and ?att = "attempt_of (clSecret c) env i ra"
  show ?thesis
    using retransmit_loop_decide [of "clRetransmit c" "clSecret c" sc env raw i ra 0 ?n None]
      count_sends_le [of ?att "[0..<?n]"] decide_verified [of ?att 0 ?n None pkt]
    by (auto simp: exchangeWithRetransmit_def Let_def split: prod.split)
qed

text \<open>
  \<open>ErrNoResponse\<close> is documented as the error of a call whose attempts are used up; the
  loop only falls through with the last attempt's error set, so it never returns it by itself.
\<close>

lemma exchange_never_NoResponse:
  assumes "fst (exchangeWithRetransmit c sc env raw i ra) = Inl ErrNoResponse"
  shows "\<exists>k. attempt_of (clSecret c) env i ra k = Retry ErrNoResponse
    \<or> (\<exists>b. attempt_of (clSecret c) env i ra k = Abort ErrNoResponse b)"
proof -
  have "[0..<nat (Attempts (clRetransmit c))] \<noteq> []" using Attempts_pos [of "clRetransmit c"] by simp
  with assms decide_NoResponse show ?thesis
    using retransmit_loop_decide [of "clRetransmit c" "clSecret c" sc env raw i ra 0 "nat (Attempts (clRetransmit c))" None]
    by (fastforce simp: exchangeWithRetransmit_def)
qed

end
