(* ===== verification/Client_Calls.thy ===== *)
theory Client_Calls
  imports Client_Props
begin

text \<open>
  The four calls of the client share one course of events, \<open>run_call\<close>: take an identifier,
  build the request, exchange, check the code of the reply, give the identifier back. Each
  call refines it; what a call guarantees is proved once for \<open>run_call\<close>.
\<close>

section \<open>The common course\<close>

definition run_call :: "client \<Rightarrow> call_env \<Rightarrow> go_ctx \<Rightarrow> (byte \<Rightarrow> (bytes \<times> bytes) res) \<Rightarrow> (code \<Rightarrow> bool)
    \<Rightarrow> (response res \<times> client_event list \<times> client) option" where
  "run_call c env ctx0 build ok =
    (case acquireID c (ceCanceled env) of None \<Rightarrow> None
     | Some (Inl e, c1) \<Rightarrow> Some (Inl e, [], c1)
     | Some (Inr i, c1) \<Rightarrow>
         (case build i of Inl e \<Rightarrow> Some (Inl e, [], release_id i c1)
          | Inr (raw, auth) \<Rightarrow>
              (let (r, evs) = exchangeWithRetransmit c1 (ceScale env)
                     (ceAttempt env (applyDefaultTimeout c (ceNow env) ctx0)) raw i auth
               in Some (case r of Inl e \<Rightarrow> Inl e
                        | Inr reply \<Rightarrow> if ok (pCode reply) then Inr (to_response reply)
                                      else Inl ErrUnexpectedReply, evs, release_id i c1))))"

definition with_ma :: "bool \<Rightarrow> attribute list \<Rightarrow> attribute list" where
  "with_ma b as = (if b \<and> \<not> containsMessageAuthenticator as
     then NewOctets AttrMessageAuthenticator (replicate 16 0) # as else as)"

definition digest_packet :: "code \<Rightarrow> attribute list \<Rightarrow> byte \<Rightarrow> packet" where
  "digest_packet code as i =
    \<lparr>pCode = code, pIdentifier = i, pAuthenticator = replicate 16 0, pAttributes = as\<rparr>"

text \<open>The request octets with the authenticator the reply is checked against.\<close>

definition build_digest :: "bytes \<Rightarrow> code \<Rightarrow> attribute list \<Rightarrow> byte \<Rightarrow> (bytes \<times> bytes) res" where
  "build_digest s code as i =
    (case Marshal (digest_packet code as i) s of Inl e \<Rightarrow> Inl e | Inr raw \<Rightarrow> Inr (raw, slice 4 20 raw))"

definition access_packet :: "access_request \<Rightarrow> bytes \<Rightarrow> byte \<Rightarrow> packet" where
  "access_packet req auth i = \<lparr>pCode = AccessRequest, pIdentifier = i, pAuthenticator = auth,
     pAttributes = with_ma (arMethod req = AuthEAP) (arAttributes req)\<rparr>"

definition build_access :: "bytes \<Rightarrow> gerror + bytes \<Rightarrow> access_request \<Rightarrow> byte \<Rightarrow> (bytes \<times> bytes) res" where
  "build_access s rnd req i =
    (case (if arAuthenticator req = replicate 16 0 then NewAccessRequestAuthenticator rnd
           else Inr (arAuthenticator req)) of Inl e \<Rightarrow> Inl e
     | Inr auth \<Rightarrow> (case Marshal (access_packet req auth i) s of Inl e \<Rightarrow> Inl e | Inr raw \<Rightarrow> Inr (raw, auth)))"

lemma acquireID_cases:
  "acquireID c canceled =
    (if canceled then Some (Inl ErrIdentifierExhausted, c)
     else case clPool c of [] \<Rightarrow> None | i # rest \<Rightarrow> Some (Inr i, c\<lparr>clPool := rest\<rparr>))"
  by (auto simp: acquireID_def pool_Acquire_def split: list.split)

lemma Authenticate_run:
  "Authenticate c env ctx req = run_call c env ctx (build_access (clSecret c) (ceRand env) req)
     (\<lambda>k. k = AccessAccept \<or> k = AccessReject \<or> k = AccessChallenge)"
  unfolding Authenticate_def run_call_def acquireID_cases build_access_def access_packet_def with_ma_def Let_def
  by (auto split: list.split option.split sum.split prod.split)

lemma Account_run:
  "Account c env ctx req = run_call c env ctx
     (build_digest (clSecret c) AccountingRequest (acAttributes req)) (\<lambda>k. k = AccountingResponse)"
  unfolding Account_def run_call_def acquireID_cases build_digest_def digest_packet_def Let_def
  by (auto split: list.split option.split sum.split prod.split)

lemma SendCoA_run:
  "SendCoA c env ctx req = run_call c env ctx
     (build_digest (clSecret c) CoARequest
        (with_ma (shouldIncludeMessageAuthenticator (clCoaMessageAuthenticator c) (coMessageAuthenticator req))
           (coAttributes req))) (\<lambda>k. k = CoAACK \<or> k = CoANAK)"
  unfolding SendCoA_def run_call_def acquireID_cases build_digest_def digest_packet_def with_ma_def Let_def
  by (auto split: list.split option.split sum.split prod.split)

lemma SendDisconnect_run:
  "SendDisconnect c env ctx req = run_call c env ctx
     (build_digest (clSecret c) DisconnectRequest
        (with_ma (shouldIncludeMessageAuthenticator (clCoaMessageAuthenticator c) (dcMessageAuthenticator req))
           (dcAttributes req))) (\<lambda>k. k = DisconnectACK \<or> k = DisconnectNAK)"
  unfolding SendDisconnect_def run_call_def acquireID_cases build_digest_def digest_packet_def with_ma_def Let_def
  by (auto split: list.split option.split sum.split prod.split)

text \<open>One of the four calls with its request: the packet it marshals, the codes it takes for an answer.\<close>

datatype client_call =
    AccessCall access_request
  | AccountCall accounting_request
  | CoACall coa_request
  | DisconnectCall disconnect_request

fun make_call :: "client \<Rightarrow> call_env \<Rightarrow> go_ctx \<Rightarrow> client_call \<Rightarrow> (response res \<times> client_event list \<times> client) option" where
  "make_call c env ctx (AccessCall req) = Authenticate c env ctx req"
| "make_call c env ctx (AccountCall req) = Account c env ctx req"
| "make_call c env ctx (CoACall req) = SendCoA c env ctx req"
| "make_call c env ctx (DisconnectCall req) = SendDisconnect c env ctx req"

fun request_packet :: "client \<Rightarrow> client_call \<Rightarrow> bytes \<Rightarrow> byte \<Rightarrow> packet" where
  "request_packet c (AccessCall req) auth i = access_packet req auth i"
| "request_packet c (AccountCall req) auth i = digest_packet AccountingRequest (acAttributes req) i"
| "request_packet c (CoACall req) auth i = digest_packet CoARequest
     (with_ma (shouldIncludeMessageAuthenticator (clCoaMessageAuthenticator c) (coMessageAuthenticator req)) (coAttributes req)) i"
| "request_packet c (DisconnectCall req) auth i = digest_packet DisconnectRequest
     (with_ma (shouldIncludeMessageAuthenticator (clCoaMessageAuthenticator c) (dcMessageAuthenticator req)) (dcAttributes req)) i"

fun answers :: "client_call \<Rightarrow> code \<Rightarrow> bool" where
  "answers (AccessCall req) = (\<lambda>k. k = AccessAccept \<or> k = AccessReject \<or> k = AccessChallenge)"
| "answers (AccountCall req) = (\<lambda>k. k = AccountingResponse)"
| "answers (CoACall req) = (\<lambda>k. k = CoAACK \<or> k = CoANAK)"
| "answers (DisconnectCall req) = (\<lambda>k. k = DisconnectACK \<or> k = DisconnectNAK)"

text \<open>The request octets a call sends and the authenticator it checks replies against.\<close>

fun build_call :: "client \<Rightarrow> gerror + bytes \<Rightarrow> client_call \<Rightarrow> byte \<Rightarrow> (bytes \<times> bytes) res" where
  "build_call c rnd (AccessCall req) = build_access (clSecret c) rnd req"
| "build_call c rnd (AccountCall req) = build_digest (clSecret c) AccountingRequest (acAttributes req)"
| "build_call c rnd (CoACall req) = build_digest (clSecret c) CoARequest
     (with_ma (shouldIncludeMessageAuthenticator (clCoaMessageAuthenticator c) (coMessageAuthenticator req)) (coAttributes req))"
| "build_call c rnd (DisconnectCall req) = build_digest (clSecret c) DisconnectRequest
     (with_ma (shouldIncludeMessageAuthenticator (clCoaMessageAuthenticator c) (dcMessageAuthenticator req)) (dcAttributes req))"

lemma make_call_run:
  "make_call c env ctx q = run_call c env ctx (build_call c (ceRand env) q) (answers q)"
  by (cases q) (simp_all add: Authenticate_run Account_run SendCoA_run SendDisconnect_run)

text \<open>Octets 4 to 19 of a marshalled Access-Request are its authenticator, whatever its attributes.\<close>

lemma slice_overwrite_behind:
  "j \<le> k \<Longrightarrow> k \<le> length xs \<Longrightarrow> slice i j (overwrite k src xs) = slice i j xs"
  by (simp add: slice_def overwrite_def take_drop min_def)

lemma access_authenticator_sent:
  assumes m: "Marshal p s = Inr w" and p: "pCode p = AccessRequest" "length (pAuthenticator p) = 16"
  shows "slice 4 20 w = pAuthenticator p"
proof -
  have nr: "\<not> isResponseCode (pCode p)" using code_classes_disjoint(2) [of AccessRequest] p(1) by auto
  obtain ab off out1 where out1: "zero_ma_value off ([pCode p, pIdentifier p] @
      BE_PutUint16 (word_of_nat (PacketMinLength + length ab)) @ replicate 16 0 @ ab) = Inr out1"
    and w: "w = write_ma off s (overwrite 4 (pAuthenticator p) out1)"
    using m nr p(1) by (auto simp: Marshal_def Let_def write_request_auth_def write_response_auth_def
        split: if_splits sum.splits prod.splits)
  let ?h = "[pCode p, pIdentifier p] @ BE_PutUint16 (word_of_nat (PacketMinLength + length ab)) @ replicate 16 0"
  have len: "20 \<le> length out1" and big: "\<And>o'. off = Some o' \<Longrightarrow> 20 + o' + 2 \<le> length out1"
    using out1 by (auto simp: zero_ma_value_def Let_def split: option.splits if_splits)
  have "slice 4 20 (overwrite 4 (pAuthenticator p) out1) = pAuthenticator p"
    using slice_overwrite_same [of 4 "pAuthenticator p" out1] len p(2) by simp
  moreover have "slice 4 20 w = slice 4 20 (overwrite 4 (pAuthenticator p) out1)"
    using w len big p(2) by (auto simp: write_ma_def slice_overwrite_behind split: option.splits)
  ultimately show ?thesis by simp
qed

lemma build_call_facts:
  assumes "build_call c rnd q i = Inr (raw, auth)"
    and "\<And>req. q = AccessCall req \<Longrightarrow> length (arAuthenticator req) = 16" and "\<And>x. rnd = Inr x \<Longrightarrow> length x = 16"
  shows "Marshal (request_packet c q auth i) (clSecret c) = Inr raw" "auth = slice 4 20 raw"
proof -
  show m: "Marshal (request_packet c q auth i) (clSecret c) = Inr raw"
    using assms(1) by (cases q) (auto simp: build_access_def build_digest_def split: sum.splits if_splits)
  show "auth = slice 4 20 raw"
  proof (cases q)
    case (AccessCall req)
    then have l: "length auth = 16"
      using assms by (auto simp: build_access_def NewAccessRequestAuthenticator_def split: sum.splits if_splits)
    have "Marshal (access_packet req auth i) (clSecret c) = Inr raw" using m AccessCall by simp
    from access_authenticator_sent [OF this] l show ?thesis by (simp add: access_packet_def)
  qed (use assms(1) in \<open>auto simp: build_digest_def split: sum.splits\<close>)
qed

lemmas call_runs = Authenticate_run Account_run SendCoA_run SendDisconnect_run

section \<open>What a call guarantees\<close>

lemma count_sends_verified:
  "k \<le> j \<Longrightarrow> j < n \<Longrightarrow> list_all (\<lambda>i. is_retry (att i)) [k..<j] \<Longrightarrow> att j = Verified pkt \<Longrightarrow>
   count_sends att [k..<n] = Suc (j - k)"
proof (induction "j - k" arbitrary: k)
  case 0
  then show ?case by (simp add: upt_conv_Cons)
next
  case (Suc x)
  then have "k < j" by simp
  with Suc.prems(3) have "[k..<j] = k # [Suc k..<j]" and r: "is_retry (att k)" by (simp_all add: upt_conv_Cons)
  with Suc \<open>k < j\<close> have "count_sends att [Suc k..<n] = Suc (j - Suc k)" by (intro Suc.hyps(1)) auto
  with r \<open>k < j\<close> Suc.prems(2) show ?case by (cases "att k") (auto simp: upt_conv_Cons)
qed

lemma exchange_verified:
  assumes "exchangeWithRetransmit c sc env raw i ra = (Inr pkt, evs)"
  shows "\<exists>k reply. k < nat (Attempts (clRetransmit c)) \<and> aeReply (env k) = Inr reply
    \<and> VerifyResponse reply i ra (clSecret c) = Inr pkt \<and> sends evs = replicate (Suc k) raw"
proof -
  let ?n = "nat (Attempts (clRetransmit c))" and ?att = "attempt_of (clSecret c) env i ra"
  have d: "decide ?att [0..<?n] None = Inr pkt" "sends evs = replicate (count_sends ?att [0..<?n]) raw"
    using retransmit_loop_decide [of "clRetransmit c" "clSecret c" sc env raw i ra 0 ?n None] assms
    by (simp_all add: exchangeWithRetransmit_def)
  then obtain k where k: "k < ?n" "list_all (\<lambda>i. is_retry (?att i)) [0..<k]" "?att k = Verified pkt"
    using decide_verified [of ?att 0 ?n] by auto
  from count_sends_verified [OF _ this] d(2) have "sends evs = replicate (Suc k) raw" by simp
  with k(1,3) show ?thesis
    by (intro exI [of _ k]) (auto simp: attempt_of_def split: option.splits sum.splits if_splits)
qed

lemma exchange_sends:
  "exchangeWithRetransmit c sc env raw i ra = (r, evs) \<Longrightarrow>
   \<exists>n \<le> nat (Attempts (clRetransmit c)). sends evs = replicate n raw"
  using retransmit_loop_decide [of "clRetransmit c" "clSecret c" sc env raw i ra 0 "nat (Attempts (clRetransmit c))" None]
    count_sends_le [of _ "[0..<nat (Attempts (clRetransmit c))]"]
  by (auto simp: exchangeWithRetransmit_def)

text \<open>Whatever happens, the identifier comes back and nothing else of the client changes.\<close>

lemma run_call_client:
  assumes "run_call c env ctx build ok = Some (r, evs, c')" and "length (clPool c) \<le> 256"
  shows "c' = c \<or> (\<exists>i rest. clPool c = i # rest \<and> c' = c\<lparr>clPool := rest @ [i]\<rparr>)"
  using assms
  by (auto simp: run_call_def acquireID_cases release_id_def pool_Release_def Let_def
      split: if_splits list.splits sum.splits prod.splits)

lemma run_call_sends:
  assumes "run_call c env ctx build ok = Some (r, evs, c')"
  shows "\<exists>n raw. sends evs = replicate n raw \<and> n \<le> nat (Attempts (clRetransmit c))
    \<and> (n = 0 \<or> (\<exists>rest i auth. clPool c = i # rest \<and> build i = Inr (raw, auth)))"
proof (cases "ceCanceled env \<or> clPool c = []")
  case True
  with assms have "evs = []" by (auto simp: run_call_def acquireID_cases split: if_splits)
  then show ?thesis by (intro exI [of _ 0]) simp
next
  case False
  then obtain i rest where p: "clPool c = i # rest" by (cases "clPool c") auto
  show ?thesis
  proof (cases "build i")
    case (Inl e)
    with False p assms have "evs = []" by (auto simp: run_call_def acquireID_cases)
    then show ?thesis by (intro exI [of _ 0]) simp
  next
    case (Inr ra)
    then obtain raw auth where b: "build i = Inr (raw, auth)" by (cases ra) auto
    with False p assms obtain res where
      "exchangeWithRetransmit (c\<lparr>clPool := rest\<rparr>) (ceScale env)
         (ceAttempt env (applyDefaultTimeout c (ceNow env) ctx)) raw i auth = (res, evs)"
      by (auto simp: run_call_def acquireID_cases Let_def split: prod.splits)
    from exchange_sends [OF this] p b show ?thesis by auto
  qed
qed

lemma run_call_reply:
  assumes "run_call c env ctx build ok = Some (Inr resp, evs, c')"
  shows "\<exists>i rest raw auth k reply pkt. clPool c = i # rest \<and> build i = Inr (raw, auth)
    \<and> k < nat (Attempts (clRetransmit c))
    \<and> aeReply (ceAttempt env (applyDefaultTimeout c (ceNow env) ctx) k) = Inr reply
    \<and> VerifyResponse reply i auth (clSecret c) = Inr pkt \<and> ok (pCode pkt) \<and> resp = to_response pkt
    \<and> sends evs = replicate (Suc k) raw"
proof -
  from assms obtain i rest raw auth pkt where p: "clPool c = i # rest" and b: "build i = Inr (raw, auth)"
    and x: "exchangeWithRetransmit (c\<lparr>clPool := rest\<rparr>) (ceScale env)
       (ceAttempt env (applyDefaultTimeout c (ceNow env) ctx)) raw i auth = (Inr pkt, evs)"
    and o: "ok (pCode pkt)" "resp = to_response pkt"
    by (auto simp: run_call_def acquireID_cases Let_def split: if_splits list.splits sum.splits prod.splits)
  from exchange_verified [OF x] p b o show ?thesis by auto
qed

lemma run_call_delivers:
  assumes pool: "clPool c = i # rest" "length (clPool c) \<le> 256" and "\<not> ceCanceled env"
    and build: "build i = Inr (raw, auth)"
    and k: "k < nat (Attempts (clRetransmit c))"
    and before: "list_all (\<lambda>j. is_retry (attempt_of (clSecret c)
        (ceAttempt env (applyDefaultTimeout c (ceNow env) ctx)) i auth j)) [0..<k]"
    and good: "attempt_of (clSecret c) (ceAttempt env (applyDefaultTimeout c (ceNow env) ctx)) i auth k = Verified pkt"
    and ok: "ok (pCode pkt)"
  shows "\<exists>evs. run_call c env ctx build ok = Some (Inr (to_response pkt), evs, c\<lparr>clPool := rest @ [i]\<rparr>)"
proof -
  let ?c = "c\<lparr>clPool := rest\<rparr>" and ?env = "ceAttempt env (applyDefaultTimeout c (ceNow env) ctx)"
  let ?n = "nat (Attempts (clRetransmit c))"
  obtain r evs where x: "exchangeWithRetransmit ?c (ceScale env) ?env raw i auth = (r, evs)" by fastforce
  have "r = decide (attempt_of (clSecret c) ?env i auth) [0..<0 + ?n] None"
    using retransmit_loop_decide [of "clRetransmit c" "clSecret c" "ceScale env" ?env raw i auth 0 ?n None] x
    by (simp add: exchangeWithRetransmit_def)
  also have "\<dots> = Inr pkt" using k before good by (subst decide_verified) auto
  finally have "r = Inr pkt" .
  then show ?thesis
    using x pool build ok assms(3)
    by (simp add: run_call_def acquireID_cases release_id_def pool_Release_def)
qed

definition any_call :: "client \<Rightarrow> call_env \<Rightarrow> go_ctx \<Rightarrow> access_request \<Rightarrow> accounting_request
    \<Rightarrow> coa_request \<Rightarrow> disconnect_request \<Rightarrow> (response res \<times> client_event list \<times> client) option list" where
  "any_call c env ctx ar ac co dc =
    [Authenticate c env ctx ar, Account c env ctx ac, SendCoA c env ctx co, SendDisconnect c env ctx dc]"

lemma any_call_run:
  "call \<in> set (any_call c env ctx ar ac co dc) \<Longrightarrow> \<exists>build ok. call = run_call c env ctx build ok"
  by (auto simp: any_call_def call_runs)

text \<open>
  C18: Every call of the client, however it ends (an error of the random source, of
  \<open>Marshal\<close>, a panic of it, a cancelled context, a reply of the wrong code, success), gives the
  identifier it took back to the pool and changes nothing else of the client; and it sends at
  most \<open>Attempts()\<close> datagrams, all identical.
\<close>

theorem calls_return_identifier:
  assumes "call \<in> set (any_call c env ctx ar ac co dc)" and "call = Some (r, evs, c')"
    and "length (clPool c) \<le> 256"
  shows "mset (clPool c') = mset (clPool c) \<and> c'\<lparr>clPool := []\<rparr> = c\<lparr>clPool := []\<rparr>
    \<and> (\<exists>n raw. n \<le> nat (Attempts (clRetransmit c)) \<and> sends evs = replicate n raw)"
proof -
  from any_call_run [OF assms(1)] assms(2) obtain build ok where
    run: "run_call c env ctx build ok = Some (r, evs, c')" by auto
  from run_call_client [OF run assms(3)] have "mset (clPool c') = mset (clPool c) \<and> c'\<lparr>clPool := []\<rparr> = c\<lparr>clPool := []\<rparr>"
    by auto
  with run_call_sends [OF run] show ?thesis by blast
qed

definition demo_env :: "(nat \<Rightarrow> gerror + bytes) \<Rightarrow> call_env" where
  "demo_env replies = \<lparr>ceNow = 0, ceCanceled = False, ceRand = Inr (replicate 16 7), ceScale = (\<lambda>_ d. d),
     ceAttempt = (\<lambda>_ k. \<lparr>aeCtxDone = None, aeReply = replies k, aeCtxErr = None\<rparr>)\<rparr>"

theorem calls_return_identifier_witness:
  "let c = NewClient initial_Default [0x73] []; env = demo_env (\<lambda>k. Inl ErrTimeout); ctx = \<lparr>cxDeadline = None, cxErr = None\<rparr>
   in \<exists>r evs c'. Authenticate c env ctx NewAccessRequest = Some (r, evs, c')
      \<and> mset (clPool c') = mset (clPool c)"
proof -
  let ?c = "NewClient initial_Default [0x73] []" and ?env = "demo_env (\<lambda>k. Inl ErrTimeout)"
  let ?ctx = "\<lparr>cxDeadline = None, cxErr = None\<rparr>"
  have len: "length (clPool ?c) \<le> 256" by (simp add: NewClient_def NewIdentifierPool_def)
  then have "\<exists>r evs c'. Authenticate ?c ?env ?ctx NewAccessRequest = Some (r, evs, c')"
    unfolding Authenticate_run run_call_def acquireID_cases
    by (simp add: demo_env_def NewClient_def NewIdentifierPool_def upt_rec [of 0 256] split: sum.split prod.split)
  then obtain r evs c' where a: "Authenticate ?c ?env ?ctx NewAccessRequest = Some (r, evs, c')" by blast
  have "Authenticate ?c ?env ?ctx NewAccessRequest \<in> set (any_call ?c ?env ?ctx NewAccessRequest
      NewAccountingRequest NewCoARequest NewDisconnectRequest)" by (simp add: any_call_def)
  from calls_return_identifier [OF this a len] a show ?thesis unfolding Let_def by blast
qed

text \<open>
  C4: A call that returns a response returns one that belongs to its request. All datagrams the
  call sent are the one the caller's request marshals to, under the identifier the call took; the
  reply the transport gave for the last of them is the response returned, carrying that identifier,
  and its authenticator is the digest, with the secret, over the reply with octets 4 to 19 of the
  datagram sent as request authenticator; and its code is one permitted for the request. (Request
  authenticators have 16 octets, as their Go type has.)
\<close>

theorem call_response_authentic:
  assumes "make_call c env ctx q = Some (Inr resp, evs, c')"
    and "\<And>req. q = AccessCall req \<Longrightarrow> length (arAuthenticator req) = 16" and "\<And>x. ceRand env = Inr x \<Longrightarrow> length x = 16"
  shows "answers q (rsCode resp) \<and> rsIdentifier resp = hd (clPool c)
    \<and> (\<exists>auth raw k reply pad l. Marshal (request_packet c q auth (rsIdentifier resp)) (clSecret c) = Inr raw
        \<and> k < nat (Attempts (clRetransmit c)) \<and> sends evs = replicate (Suc k) raw
        \<and> aeReply (ceAttempt env (applyDefaultTimeout c (ceNow env) ctx) k) = Inr reply
        \<and> reply = [rsCode resp, rsIdentifier resp] @ BE_PutUint16 l @ rsAuthenticator resp
            @ attrs_wire (rsAttributes resp) @ pad
        \<and> rsAuthenticator resp = md5_Sum ([rsCode resp, rsIdentifier resp] @ BE_PutUint16 l @ slice 4 20 raw
            @ attrs_wire (rsAttributes resp) @ clSecret c))"
proof -
  from run_call_reply [OF assms(1) [unfolded make_call_run]] obtain i rest raw auth k reply pkt where
    p: "clPool c = i # rest" and b: "build_call c (ceRand env) q i = Inr (raw, auth)"
    and k: "k < nat (Attempts (clRetransmit c))" "sends evs = replicate (Suc k) raw"
    and rep: "aeReply (ceAttempt env (applyDefaultTimeout c (ceNow env) ctx) k) = Inr reply"
    and v: "VerifyResponse reply i auth (clSecret c) = Inr pkt" and r: "answers q (pCode pkt)" "resp = to_response pkt" by blast
  note facts = build_call_facts [OF b assms(2,3)]
  from verified_reply [OF v] p k rep r facts show ?thesis by (fastforce simp: to_response_def)
qed

text \<open>An honest reply to the only attempt: an Access-Accept without attributes.\<close>

lemma demo_accept:
  "\<exists>w evs. let c = NewClient initial_Default [0x73] []; ctx = \<lparr>cxDeadline = None, cxErr = None\<rparr> in
     Authenticate c (demo_env (\<lambda>k. Inr w)) ctx NewAccessRequest =
       Some (Inr \<lparr>rsCode = AccessAccept, rsIdentifier = 0, rsAuthenticator = slice 4 20 w, rsAttributes = []\<rparr>,
             evs, c\<lparr>clPool := map word_of_nat [1..<256] @ [0]\<rparr>)"
proof -
  let ?p = "\<lparr>pCode = AccessAccept, pIdentifier = 0, pAuthenticator = replicate 16 7, pAttributes = []\<rparr>"
  let ?c = "NewClient initial_Default [0x73] []" and ?ctx = "\<lparr>cxDeadline = None, cxErr = None\<rparr> :: go_ctx"
  have wf: "wf_packet ?p" and sz: "ma_sized (pAttributes ?p)" by (simp_all add: wf_packet_def ma_sized_def)
  have rc: "isResponseCode (pCode ?p)" by (simp add: isResponseCode_def)
  have "sendable ?p [0x73]"
    by (simp add: sendable_def isValidCode_def marshal_len_seal maxLengthForCode_def limit_num code_num
        IsAccounting_def ma_count_def)
  then obtain w where w: "Marshal ?p [0x73] = Inr w" using Marshal_total [OF wf sz] by blast
  from verify_response_complete [OF wf sz rc w, of "[]"]
  have v: "VerifyResponse w 0 (replicate 16 7) [0x73] =
      Inr \<lparr>pCode = AccessAccept, pIdentifier = 0, pAuthenticator = sent_auth ?p [0x73], pAttributes = []\<rparr>"
    by (simp add: sent_attrs_def sealed_attrs_def)
  have sa: "slice 4 20 w = sent_auth ?p [0x73]"
    using marshalled(2) [OF wf sz w] wire_parts(5) [OF length_sent_auth [OF wf], where rest = "[]"] by simp
  let ?q = "access_packet NewAccessRequest (replicate 16 7) 0"
  have wq: "wf_packet ?q" and zq: "ma_sized (pAttributes ?q)"
    by (simp_all add: access_packet_def wf_packet_def ma_sized_def with_ma_def NewAccessRequest_def
        AuthPAP_def AuthEAP_def)
  have "sendable ?q [0x73]"
    by (simp add: sendable_def isValidCode_def marshal_len_seal maxLengthForCode_def limit_num code_num
        IsAccounting_def ma_count_def access_packet_def with_ma_def NewAccessRequest_def AuthPAP_def AuthEAP_def)
  then obtain raw where "Marshal ?q [0x73] = Inr raw" using Marshal_total [OF wq zq] by blast
  then have b: "build_access [0x73] (Inr (replicate 16 7)) NewAccessRequest 0 = Inr (raw, replicate 16 7)"
    by (simp add: build_access_def NewAccessRequest_def NewAccessRequestAuthenticator_def)
  have p: "clPool ?c = 0 # map word_of_nat [1..<256]" "clSecret ?c = [0x73]"
    by (simp_all add: NewClient_def NewIdentifierPool_def upt_rec [of 0 256])
  have "\<exists>evs. run_call ?c (demo_env (\<lambda>k. Inr w)) ?ctx
      (build_access (clSecret ?c) (ceRand (demo_env (\<lambda>k. Inr w))) NewAccessRequest)
      (\<lambda>k. k = AccessAccept \<or> k = AccessReject \<or> k = AccessChallenge)
      = Some (Inr (to_response \<lparr>pCode = AccessAccept, pIdentifier = 0,
          pAuthenticator = sent_auth ?p [0x73], pAttributes = []\<rparr>), evs,
          ?c\<lparr>clPool := map word_of_nat [1..<256] @ [0]\<rparr>)"
  proof (rule run_call_delivers [where k = 0, OF p(1)])
    show "attempt_of (clSecret ?c) (ceAttempt (demo_env (\<lambda>k. Inr w)) (applyDefaultTimeout ?c
        (ceNow (demo_env (\<lambda>k. Inr w))) ?ctx)) 0 (replicate 16 7) 0 = Verified
        \<lparr>pCode = AccessAccept, pIdentifier = 0, pAuthenticator = sent_auth ?p [0x73], pAttributes = []\<rparr>"
      unfolding attempt_of_def p(2) demo_env_def call_env.select_convs attempt_env.select_convs
      by (simp only: less_irrefl if_False option.case sum.case v)
  qed (use b in \<open>simp_all add: p demo_env_def Attempts_pos\<close>)
  then show ?thesis
    unfolding Let_def Authenticate_run to_response_def sa [symmetric] packet.select_convs by blast
qed

theorem call_response_authentic_witness:
  "\<exists>w evs c' resp raw l. Authenticate (NewClient initial_Default [0x73] []) (demo_env (\<lambda>k. Inr w))
       \<lparr>cxDeadline = None, cxErr = None\<rparr> NewAccessRequest = Some (Inr resp, evs, c')
     \<and> rsCode resp = AccessAccept \<and> raw \<in> set (sends evs)
     \<and> rsAuthenticator resp = md5_Sum ([AccessAccept, 0] @ BE_PutUint16 l @ slice 4 20 raw @ [0x73])"
proof -
  let ?c = "NewClient initial_Default [0x73] []" and ?ctx = "\<lparr>cxDeadline = None, cxErr = None\<rparr> :: go_ctx"
  obtain w evs c' where a: "Authenticate ?c (demo_env (\<lambda>k. Inr w)) ?ctx NewAccessRequest =
       Some (Inr \<lparr>rsCode = AccessAccept, rsIdentifier = 0, rsAuthenticator = slice 4 20 w, rsAttributes = []\<rparr>, evs, c')"
    using demo_accept unfolding Let_def by blast
  have l: "length (arAuthenticator req) = 16" if "AccessCall NewAccessRequest = AccessCall req" for req
    using that by (auto simp: NewAccessRequest_def)
  have l': "length x = 16" if "ceRand (demo_env (\<lambda>k. Inr w)) = Inr x" for x
    using that by (auto simp: demo_env_def)
  have "make_call ?c (demo_env (\<lambda>k. Inr w)) ?ctx (AccessCall NewAccessRequest) =
      Some (Inr \<lparr>rsCode = AccessAccept, rsIdentifier = 0, rsAuthenticator = slice 4 20 w, rsAttributes = []\<rparr>, evs, c')"
    using a by simp
  from call_response_authentic [OF this l l'] obtain raw k l where
    "sends evs = replicate (Suc k) raw" "slice 4 20 w = md5_Sum ([AccessAccept, 0] @ BE_PutUint16 l @ slice 4 20 raw @ [0x73])"
    by (auto simp: NewClient_def)
  then show ?thesis using a
    by (intro exI [of _ w] exI [of _ evs] exI [of _ c'] exI [of _ raw] exI [of _ l]
        exI [of _ "\<lparr>rsCode = AccessAccept, rsIdentifier = 0, rsAuthenticator = slice 4 20 w, rsAttributes = []\<rparr>"]) simp
qed

end
