(* ===== verification/Dedup.thy ===== *)
theory Dedup
  imports NetIP Protocol "HOL-Library.AList"
begin

text \<open>
  \<open>server/dedup.go\<close>: the duplicate detector. Go's map from keys to entry pointers is an
  association list from keys to positions in a heap of entries, because a waiter in
  \<open>Lookup\<close> keeps the pointer while the map changes. Times are nanoseconds; the closed
  channel \<open>done\<close> is a flag; each operation is one step, as its lock makes it.
\<close>

definition defaultDedupTTL :: duration where "defaultDedupTTL = 5 * time_Second"
definition dedupKeySize :: nat where [limit_num]: "dedupKeySize = 128"

record dedup_entry =
  deReply :: "bytes option"
  deDone :: bool
  deExpires :: nat

record deduplicator =
  ddTtl :: duration
  ddEntries :: "(string \<times> nat) list"
  ddHeap :: "dedup_entry list"

definition NewDeduplicator :: "duration \<Rightarrow> deduplicator" where
  "NewDeduplicator ttl =
    \<lparr>ddTtl = (if sint ttl \<le> 0 then defaultDedupTTL else ttl), ddEntries = [], ddHeap = []\<rparr>"

definition dedupKey :: "net_addr option \<Rightarrow> byte \<Rightarrow> string" where
  "dedupKey addr i =
    (let s = (case addr of None \<Rightarrow> [] | Some a \<Rightarrow> addr_String a);
         s' = (if length s > dedupKeySize then take dedupKeySize s else s)
     in s' @ [CHR 0x00, char_of (unat i)])"

text \<open>An entry is expired when \<open>now\<close> is not before its time; its waiters are released.\<close>

definition expired :: "deduplicator \<Rightarrow> nat \<Rightarrow> nat \<Rightarrow> bool" where
  "expired d now r \<longleftrightarrow> \<not> now < deExpires (ddHeap d ! r)"

fun close_refs :: "nat list \<Rightarrow> dedup_entry list \<Rightarrow> dedup_entry list" where
  "close_refs [] h = h"
| "close_refs (r # rs) h = close_refs rs (h[r := (h ! r)\<lparr>deDone := True\<rparr>])"

definition evictExpiredLocked :: "deduplicator \<Rightarrow> nat \<Rightarrow> deduplicator" where
  "evictExpiredLocked d now =
    d\<lparr>ddEntries := filter (\<lambda>(k, r). \<not> expired d now r) (ddEntries d),
      ddHeap := close_refs (map snd (filter (\<lambda>(k, r). expired d now r) (ddEntries d))) (ddHeap d)\<rparr>"

definition dedup_Seen :: "deduplicator \<Rightarrow> nat \<Rightarrow> net_addr option \<Rightarrow> byte \<Rightarrow> bool \<times> deduplicator" where
  "dedup_Seen d now addr i =
    (let key = dedupKey addr i; d1 = evictExpiredLocked d now in
     case map_of (ddEntries d1) key of
       Some r \<Rightarrow> (True, d1)
     | None \<Rightarrow> (False, d1\<lparr>ddEntries := AList.update key (length (ddHeap d1)) (ddEntries d1),
                  ddHeap := ddHeap d1 @
                    [\<lparr>deReply = None, deDone = False, deExpires = now + unat (ddTtl d1)\<rparr>]\<rparr>))"

text \<open>A copy of an empty reply is a nil slice.\<close>

definition dedup_Store :: "deduplicator \<Rightarrow> net_addr option \<Rightarrow> byte \<Rightarrow> bytes \<Rightarrow> deduplicator" where
  "dedup_Store d addr i reply =
    (case map_of (ddEntries d) (dedupKey addr i) of None \<Rightarrow> d
     | Some r \<Rightarrow> d\<lparr>ddHeap := (ddHeap d)[r := (ddHeap d ! r)
         \<lparr>deReply := (if reply = [] then None else Some reply), deDone := True\<rparr>]\<rparr>)"

text \<open>
  \<open>Lookup\<close> takes the entry under the lock (\<open>lookup_ref\<close>) and then waits for it
  (\<open>lookup_wait\<close>: \<open>None\<close> while \<open>done\<close> is open).
\<close>

definition lookup_ref :: "deduplicator \<Rightarrow> net_addr option \<Rightarrow> byte \<Rightarrow> nat option" where
  "lookup_ref d addr i = map_of (ddEntries d) (dedupKey addr i)"

definition lookup_wait :: "deduplicator \<Rightarrow> nat \<Rightarrow> bytes option option" where
  "lookup_wait d r = (if \<not> deDone (ddHeap d ! r) then None else Some (deReply (ddHeap d ! r)))"

definition dedup_Lookup :: "deduplicator \<Rightarrow> net_addr option \<Rightarrow> byte \<Rightarrow> bytes option option" where
  "dedup_Lookup d addr i =
    (case lookup_ref d addr i of None \<Rightarrow> Some None | Some r \<Rightarrow> lookup_wait d r)"

definition dedup_Cleanup :: "deduplicator \<Rightarrow> nat \<Rightarrow> deduplicator" where
  "dedup_Cleanup d now = evictExpiredLocked d now"

definition dedup_Size :: "deduplicator \<Rightarrow> nat" where
  "dedup_Size d = length (ddEntries d)"

section \<open>Well-formedness\<close>

text \<open>Keys are distinct, entries point into the heap, no two keys share an entry.\<close>

definition dedup_wf :: "deduplicator \<Rightarrow> bool" where
  "dedup_wf d \<longleftrightarrow> distinct (map fst (ddEntries d)) \<and> distinct (map snd (ddEntries d))
     \<and> (\<forall>r \<in> set (map snd (ddEntries d)). r < length (ddHeap d))"

lemma length_close_refs [simp]: "length (close_refs rs h) = length h"
  by (induction rs arbitrary: h) auto

lemma close_refs_nth:
  "\<forall>r \<in> set rs. r < length h \<Longrightarrow> j < length h \<Longrightarrow>
   close_refs rs h ! j = (if j \<in> set rs then (h ! j)\<lparr>deDone := True\<rparr> else h ! j)"
  by (induction rs arbitrary: h) (auto simp: nth_list_update)

lemma evict_simps [simp]:
  "ddTtl (evictExpiredLocked d now) = ddTtl d"
  "length (ddHeap (evictExpiredLocked d now)) = length (ddHeap d)"
  by (simp_all add: evictExpiredLocked_def)

lemma map_of_filter_val:
  "distinct (map fst xs) \<Longrightarrow>
   map_of (filter (\<lambda>(k, r). P r) xs) k =
     (case map_of xs k of None \<Rightarrow> None | Some r \<Rightarrow> if P r then Some r else None)"
  by (induction xs) (auto split: option.splits simp: map_of_eq_None_iff image_iff)

lemma evict_map_of:
  "dedup_wf d \<Longrightarrow> map_of (ddEntries (evictExpiredLocked d now)) k =
    (case map_of (ddEntries d) k of None \<Rightarrow> None | Some r \<Rightarrow> if expired d now r then None else Some r)"
  by (subst evictExpiredLocked_def)
     (simp add: dedup_wf_def map_of_filter_val split: option.split)

lemma distinct_map_filter_fst: "distinct (map f xs) \<Longrightarrow> distinct (map f (filter P xs))"
  by (induction xs) auto

lemma evict_wf: "dedup_wf d \<Longrightarrow> dedup_wf (evictExpiredLocked d now)"
  by (auto simp: dedup_wf_def evictExpiredLocked_def distinct_map_filter_fst)

lemma evict_heap_kept:
  assumes "dedup_wf d" "map_of (ddEntries (evictExpiredLocked d now)) k = Some r"
  shows "ddHeap (evictExpiredLocked d now) ! r = ddHeap d ! r"
proof -
  have k: "map_of (ddEntries d) k = Some r" "\<not> expired d now r"
    using assms by (auto simp: evict_map_of split: option.splits if_splits)
  have "r < length (ddHeap d)" using k(1) assms(1) by (force simp: dedup_wf_def dest: map_of_SomeD)
  moreover have "r \<notin> set (map snd (filter (\<lambda>(k, r). expired d now r) (ddEntries d)))"
    using k(2) by auto
  ultimately show ?thesis
    using assms(1) by (subst evictExpiredLocked_def) (auto simp: close_refs_nth dedup_wf_def)
qed

lemma update_snd:
  "r \<notin> set (map snd xs) \<Longrightarrow> distinct (map snd xs) \<Longrightarrow> map_of xs k = None \<Longrightarrow>
   distinct (map snd (AList.update k r xs)) \<and> set (map snd (AList.update k r xs)) = insert r (set (map snd xs))"
  by (induction xs) (auto split: if_splits)

lemma Seen_wf: "dedup_wf d \<Longrightarrow> dedup_wf (snd (dedup_Seen d now addr i))"
proof -
  assume "dedup_wf d"
  then have w: "dedup_wf (evictExpiredLocked d now)" by (rule evict_wf)
  let ?d = "evictExpiredLocked d now" and ?k = "dedupKey addr i"
  show ?thesis
  proof (cases "map_of (ddEntries ?d) ?k")
    case None
    have "length (ddHeap ?d) \<notin> set (map snd (ddEntries ?d))" using w by (auto simp: dedup_wf_def)
    from update_snd [OF this _ None] w None show ?thesis
      by (auto simp: dedup_Seen_def Let_def dedup_wf_def distinct_update less_Suc_eq)
  qed (use w in \<open>simp add: dedup_Seen_def Let_def\<close>)
qed

lemma Store_wf: "dedup_wf d \<Longrightarrow> dedup_wf (dedup_Store d addr i reply)"
  by (auto simp: dedup_Store_def dedup_wf_def split: option.split)

text \<open>What the first sighting of a key leaves behind, and when a key is seen.\<close>

definition live_until :: "deduplicator \<Rightarrow> string \<Rightarrow> nat option" where
  "live_until d k = map_option (\<lambda>r. deExpires (ddHeap d ! r)) (map_of (ddEntries d) k)"

lemma Seen_iff:
  assumes "dedup_wf d"
  shows "fst (dedup_Seen d now addr i) \<longleftrightarrow>
    (case live_until d (dedupKey addr i) of None \<Rightarrow> False | Some t \<Rightarrow> now < t)"
  using evict_map_of [OF assms, of now "dedupKey addr i"]
  by (auto simp: dedup_Seen_def Let_def live_until_def expired_def split: option.splits if_splits)

lemma Seen_live:
  assumes "dedup_wf d"
  shows "live_until (snd (dedup_Seen d now addr i)) k =
    (if k = dedupKey addr i \<and> \<not> fst (dedup_Seen d now addr i) then Some (now + unat (ddTtl d))
     else case live_until d k of None \<Rightarrow> None | Some t \<Rightarrow> if now < t then Some t else None)"
proof -
  let ?d = "evictExpiredLocked d now" and ?k = "dedupKey addr i"
  have ev: "live_until ?d k = (case live_until d k of None \<Rightarrow> None | Some t \<Rightarrow> if now < t then Some t else None)"
    using evict_map_of [OF assms, of now k] evict_heap_kept [OF assms, of now k]
    by (auto simp: live_until_def expired_def split: option.splits if_splits)
  have r: "r < length (ddHeap ?d)" if "map_of (ddEntries ?d) k' = Some r" for k' r
    using that evict_wf [OF assms, of now] by (force simp: dedup_wf_def dest: map_of_SomeD)
  show ?thesis
  proof (cases "map_of (ddEntries ?d) ?k")
    case None
    then have f: "\<not> fst (dedup_Seen d now addr i)" by (simp add: dedup_Seen_def Let_def)
    have "live_until (snd (dedup_Seen d now addr i)) k = (if k = ?k then Some (now + unat (ddTtl d)) else live_until ?d k)"
      using None r by (auto simp: dedup_Seen_def Let_def live_until_def update_conv' nth_append
          intro!: option.map_cong0)
    with ev f show ?thesis by simp
  next
    case (Some r)
    then have "fst (dedup_Seen d now addr i)" "snd (dedup_Seen d now addr i) = ?d"
      by (simp_all add: dedup_Seen_def Let_def)
    with ev show ?thesis by simp
  qed
qed

lemma Store_live: "dedup_wf d \<Longrightarrow> live_until (dedup_Store d addr i reply) k = live_until d k"
  by (cases "map_of (ddEntries d) k"; cases "map_of (ddEntries d) (dedupKey addr i)")
     (auto simp: dedup_Store_def live_until_def nth_list_update dedup_wf_def dest!: map_of_SomeD)

end
