(* ===== verification/Server.thy ===== *)
theory Server
  imports Dedup Transport Logging
begin

text \<open>
  \<open>server/\<close>: requests and replies, the secret lookups and the dispatching handlers
  (\<open>helpers.go\<close>), the UDP server (one request handled by \<open>handleOne\<close>, the reading loop
  \<open>Serve\<close>) and the TCP server (\<open>handleConn\<close>, the loop over one connection). A handler is
  a parameter: a function of the context and the request. Loggers are kept, what is written to
  them is left out. \<open>handleOne\<close> and \<open>handleConn\<close> run in goroutines of their own, which recover
  nothing: as their outcome, \<open>Hangs\<close> is a goroutine that blocks in \<open>Lookup\<close>, and \<open>Crashes\<close> a
  panic, of the handler or of \<open>Marshal\<close> on its reply, which ends the process.
\<close>

section \<open>Requests, handlers, secrets\<close>

record request =
  rqPacket :: packet
  rqSecret :: bytes
  rqRemoteAddr :: net_addr

type_synonym handler = "go_ctx \<Rightarrow> request \<Rightarrow> packet option res"
type_synonym secret_lookup = "bytes option \<Rightarrow> bytes option"

definition StaticSecret :: "bytes \<Rightarrow> secret_lookup" where
  "StaticSecret secret = (\<lambda>_. Some secret)"

definition request_Reply :: "request \<Rightarrow> code \<Rightarrow> packet" where
  "request_Reply req c = \<lparr>pCode = c, pIdentifier = pIdentifier (rqPacket req),
     pAuthenticator = pAuthenticator (rqPacket req), pAttributes = []\<rparr>"

definition request_ReplyWith :: "request \<Rightarrow> code \<Rightarrow> attribute list \<Rightarrow> packet" where
  "request_ReplyWith req c attrs = (request_Reply req c)\<lparr>pAttributes := attrs\<rparr>"

text \<open>\<open>strings.TrimSpace\<close> on ASCII text.\<close>

definition is_space :: "char \<Rightarrow> bool" where
  "is_space c \<longleftrightarrow> c \<in> set [CHR 0x09, CHR 0x0A, CHR 0x0B, CHR 0x0C, CHR 0x0D, CHR '' '']"

definition TrimSpace :: "string \<Rightarrow> string" where
  "TrimSpace s = rev (dropWhile is_space (rev (dropWhile is_space s)))"

definition normalizeIPKey :: "string \<Rightarrow> string" where
  "normalizeIPKey k =
    (let k1 = TrimSpace k;
         k2 = (case IndexByte k1 (CHR ''/'') of Some i \<Rightarrow> take i k1 | None \<Rightarrow> k1)
     in case ParseIP k2 of Some ip \<Rightarrow> IP_String ip | None \<Rightarrow> k2)"

text \<open>\<open>m\<close> lists the entries of the map in the order Go's iteration visits them.\<close>

definition secret_index :: "(string \<times> bytes) list \<Rightarrow> (string \<times> bytes) list" where
  "secret_index m = fold (\<lambda>(k, v) acc. AList.update (normalizeIPKey k) v acc) m []"

definition SecretMap :: "(string \<times> bytes) list \<Rightarrow> secret_lookup" where
  "SecretMap m = (\<lambda>remoteIP. case remoteIP of None \<Rightarrow> None
     | Some ip \<Rightarrow> map_of (secret_index m) (IP_String ip))"

record mux =
  muxHandlers :: "(code \<times> handler) list"
  muxFallback :: "handler option"

definition NewMux :: mux where "NewMux = \<lparr>muxHandlers = [], muxFallback = None\<rparr>"

definition mux_On :: "code \<Rightarrow> handler \<Rightarrow> mux \<Rightarrow> mux" where
  "mux_On c h m = m\<lparr>muxHandlers := AList.update c h (muxHandlers m)\<rparr>"

definition mux_OnFunc :: "code \<Rightarrow> handler \<Rightarrow> mux \<Rightarrow> mux" where
  "mux_OnFunc c f m = mux_On c f m"

definition mux_Fallback :: "handler \<Rightarrow> mux \<Rightarrow> mux" where
  "mux_Fallback h m = m\<lparr>muxFallback := Some h\<rparr>"

definition mux_Handle :: "mux \<Rightarrow> handler" where
  "mux_Handle m ctx req =
    (case map_of (muxHandlers m) (pCode (rqPacket req)) of Some h \<Rightarrow> h ctx req
     | None \<Rightarrow> (case muxFallback m of Some h \<Rightarrow> h ctx req | None \<Rightarrow> Inr None))"

definition AccessHandler_Handle :: "handler \<Rightarrow> handler" where
  "AccessHandler_Handle onAccess ctx req =
    (if pCode (rqPacket req) \<noteq> AccessRequest then Inr None else onAccess ctx req)"

definition AccountingHandler_Handle :: "handler \<Rightarrow> handler" where
  "AccountingHandler_Handle onAccount ctx req =
    (if pCode (rqPacket req) \<noteq> AccountingRequest then Inr None else onAccount ctx req)"

fun ipFromAddr :: "net_addr \<Rightarrow> bytes option" where
  "ipFromAddr (UDPAddr ip _ _) = Some ip"
| "ipFromAddr (TCPAddr ip _ _) = Some ip"
| "ipFromAddr (IPAddr ip _) = Some ip"
| "ipFromAddr (OtherAddr _) = None"

section \<open>The UDP server\<close>

record udp_server =
  usListener :: udp_sock
  usDedup :: "deduplicator option"
  usLog :: logger

text \<open>\<open>ln\<close>: what binding the socket gives; \<open>dflt\<close>: the package-level logger.\<close>

definition NewUDPServer :: "net_error + udp_sock \<Rightarrow> logger \<Rightarrow> (udp_server \<Rightarrow> udp_server) list \<Rightarrow> udp_server res" where
  "NewUDPServer ln dflt opts =
    (case ListenUDP ln of Inl e \<Rightarrow> Inl e
     | Inr sock \<Rightarrow> Inr (fold (\<lambda>opt s. opt s) opts \<lparr>usListener = sock, usDedup = None, usLog = dflt\<rparr>))"

definition WithUDPLogger :: "logger option \<Rightarrow> udp_server \<Rightarrow> udp_server" where
  "WithUDPLogger l s = s\<lparr>usLog := (case l of None \<Rightarrow> NopL NopLogger | Some x \<Rightarrow> x)\<rparr>"

definition WithUDPDedup :: "duration \<Rightarrow> udp_server \<Rightarrow> udp_server" where
  "WithUDPDedup ttl s = s\<lparr>usDedup := Some (NewDeduplicator ttl)\<rparr>"

text \<open>The part of \<open>handleOne\<close> from the call of the handler on.\<close>

definition udp_dispatch :: "handler \<Rightarrow> udp_server \<Rightarrow> go_ctx \<Rightarrow> packet \<Rightarrow> net_addr \<Rightarrow> bytes \<Rightarrow> udp_server task" where
  "udp_dispatch h s ctx pkt src secret =
    (case h ctx \<lparr>rqPacket = pkt, rqSecret = secret, rqRemoteAddr = src\<rparr> of
       Inl e \<Rightarrow> unless_panic e (Done s)
     | Inr None \<Rightarrow> Done s
     | Inr (Some reply) \<Rightarrow>
         (case Marshal reply secret of Inl e \<Rightarrow> unless_panic e (Done s)
          | Inr out \<Rightarrow>
              (let s1 = (case usDedup s of None \<Rightarrow> s
                         | Some d \<Rightarrow> s\<lparr>usDedup := Some (dedup_Store d (Some src) (pIdentifier pkt) out)\<rparr>)
               in Done (s1\<lparr>usListener := snd (UDPTransport_SendPacket (usListener s1) out src)\<rparr>))))"

text \<open>The result says whether the handler was called.\<close>

definition handleOne ::
  "handler \<Rightarrow> udp_server \<Rightarrow> nat \<Rightarrow> go_ctx \<Rightarrow> bytes \<Rightarrow> net_addr \<Rightarrow> bytes \<Rightarrow> (bool \<times> udp_server) task" where
  "handleOne h s now ctx raw src secret =
    (case Unmarshal empty_packet raw secret of (_, Inl e) \<Rightarrow> unless_panic e (Done (False, s))
     | (pkt, Inr _) \<Rightarrow>
         (case usDedup s of None \<Rightarrow> map_task (Pair True) (udp_dispatch h s ctx pkt src secret)
          | Some d \<Rightarrow>
              (case dedup_Seen d now (Some src) (pIdentifier pkt) of
                 (True, d1) \<Rightarrow>
                   (let s1 = s\<lparr>usDedup := Some d1\<rparr> in
                    case dedup_Lookup d1 (Some src) (pIdentifier pkt) of
                      None \<Rightarrow> Hangs
                    | Some None \<Rightarrow> Done (False, s1)
                    | Some (Some cached) \<Rightarrow>
                        Done (False, s1\<lparr>usListener := snd (UDPTransport_SendPacket (usListener s1) cached src)\<rparr>))
               | (False, d1) \<Rightarrow>
                   map_task (Pair True) (udp_dispatch h (s\<lparr>usDedup := Some d1\<rparr>) ctx pkt src secret))))"

definition server_mapReadErr :: "go_ctx \<Rightarrow> gerror \<Rightarrow> gerror" where
  "server_mapReadErr ctx err = (case cxErr ctx of Some e \<Rightarrow> e | None \<Rightarrow> err)"

text \<open>
  The reading loop: the requests handed to a goroutine, in order, and the error \<open>Serve\<close>
  returns (\<open>None\<close> when it is still reading).
\<close>

fun serve_loop :: "secret_lookup \<Rightarrow> go_ctx \<Rightarrow> (net_error + (bytes \<times> net_addr)) list
    \<Rightarrow> (bytes \<times> net_addr \<times> bytes) list \<times> gerror option" where
  "serve_loop lookup ctx [] = ([], None)"
| "serve_loop lookup ctx (Inl e # rs) = ([], Some (server_mapReadErr ctx (read_error e ctx)))"
| "serve_loop lookup ctx (Inr (dg, src) # rs) =
    (case lookup (ipFromAddr src) of
       None \<Rightarrow> serve_loop lookup ctx rs
     | Some secret \<Rightarrow>
         (let (spawned, res) = serve_loop lookup ctx rs
          in ((take udpReadBufferSize dg, src, secret) # spawned, res)))"

definition UDPServer_Serve :: "secret_lookup \<Rightarrow> udp_server \<Rightarrow> go_ctx \<Rightarrow> (bytes \<times> net_addr \<times> bytes) list \<times> gerror option" where
  "UDPServer_Serve lookup s ctx =
    (case uDlErr (usListener s) of
       Some e \<Rightarrow> ([], Some (server_mapReadErr ctx (if isClosed e then ErrConnClosed else raw_error e)))
     | None \<Rightarrow> serve_loop lookup ctx (uIn (usListener s)))"

text \<open>
  Closing the server closes its socket. \<open>Shutdown\<close> does that and then waits for the goroutines;
  \<open>finished\<close>: they are done before the context (theory Shutdown says when).
\<close>

definition UDPServer_Close :: "net_error option \<Rightarrow> udp_server \<Rightarrow> gerror option \<times> udp_server" where
  "UDPServer_Close r s = (let (e, t) = UDPTransport_Close r (usListener s) in (e, s\<lparr>usListener := t\<rparr>))"

definition UDPServer_Shutdown :: "net_error option \<Rightarrow> bool \<Rightarrow> go_ctx \<Rightarrow> udp_server \<Rightarrow> unit res \<times> udp_server" where
  "UDPServer_Shutdown r finished ctx s =
    (let (_, t) = UDPTransport_Close r (usListener s); s1 = s\<lparr>usListener := t\<rparr>
     in (if finished then Inr () else Inl (ctx_error ctx), s1))"

section \<open>The TCP server\<close>

text \<open>The listener is the script of the coming results of \<open>Accept\<close>.\<close>

record tcp_server =
  tsListener :: "accept_event list"
  tsDedup :: "deduplicator option"
  tsLog :: logger

definition NewTCPServer :: "net_error + accept_event list \<Rightarrow> logger \<Rightarrow> (tcp_server \<Rightarrow> tcp_server) list \<Rightarrow> tcp_server res" where
  "NewTCPServer ln dflt opts =
    (case ListenTCP ln of Inl e \<Rightarrow> Inl e
     | Inr l \<Rightarrow> Inr (fold (\<lambda>opt s. opt s) opts \<lparr>tsListener = l, tsDedup = None, tsLog = dflt\<rparr>))"

definition WithTCPLogger :: "logger option \<Rightarrow> tcp_server \<Rightarrow> tcp_server" where
  "WithTCPLogger l s = s\<lparr>tsLog := (case l of None \<Rightarrow> NopL NopLogger | Some x \<Rightarrow> x)\<rparr>"

definition WithTCPDedup :: "duration \<Rightarrow> tcp_server \<Rightarrow> tcp_server" where
  "WithTCPDedup ttl s = s\<lparr>tsDedup := Some (NewDeduplicator ttl)\<rparr>"

text \<open>Reading a packet uses up input: the measure of the connection loop.\<close>

definition in_size :: "(net_error + bytes) list \<Rightarrow> nat" where
  "in_size rs = sum_list (map (\<lambda>r. case r of Inl _ \<Rightarrow> 1 | Inr b \<Rightarrow> 1 + length b) rs)"

lemma in_size_simps [simp]:
  "in_size [] = 0" "in_size (Inl e # rs) = Suc (in_size rs)" "in_size (Inr b # rs) = Suc (length b + in_size rs)"
  by (simp_all add: in_size_def)

lemma io_ReadFull_size:
  "io_ReadFull k acc rs = (Inr bs, rs') \<Longrightarrow>
   in_size rs' \<le> in_size rs \<and> (length acc < k \<longrightarrow> in_size rs' < in_size rs)"
proof (induction rs arbitrary: acc)
  case (Cons r rs)
  show ?case
  proof (cases r)
    case (Inl e)
    with Cons.prems show ?thesis by (auto split: if_splits)
  next
    case (Inr b)
    show ?thesis
    proof (cases "length acc < k \<and> length b \<le> k - length acc")
      case True
      with Cons.prems Inr have "io_ReadFull k (acc @ b) rs = (Inr bs, rs')" by (simp add: Let_def)
      from Cons.IH [OF this] Inr show ?thesis by simp
    next
      case False
      with Cons.prems Inr show ?thesis by (auto simp: Let_def split: if_splits)
    qed
  qed
qed (auto split: if_splits)

lemma conn_ReadFull_size:
  "conn_ReadFull k c = (Inr bs, c') \<Longrightarrow> in_size (kIn c') \<le> in_size (kIn c) \<and> (0 < k \<longrightarrow> in_size (kIn c') < in_size (kIn c))"
  by (auto simp: conn_ReadFull_def dest: io_ReadFull_size split: prod.splits)

lemma ReadPacket_size:
  assumes "TCPConn_ReadPacket c ctx = (Inr raw, c')"
  shows "in_size (kIn c') < in_size (kIn c)"
proof -
  obtain de c1 where a: "TCPConn_applyReadDeadline c ctx = (de, c1)" by fastforce
  have k1: "kIn c1 = kIn c"
    using a by (auto simp: TCPConn_applyReadDeadline_def split: option.splits)
  from assms a obtain h c2 k p where "conn_ReadFull 4 c1 = (Inr h, c2)" "conn_ReadFull k c2 = (Inr p, c')"
    by (auto simp: TCPConn_ReadPacket_def Let_def split: option.splits sum.splits prod.splits if_splits)
  from conn_ReadFull_size [OF this(1)] conn_ReadFull_size [OF this(2)] k1 show ?thesis by simp
qed

lemma WritePacket_in: "kIn (snd (TCPConn_WritePacket c raw)) = kIn c"
  by (auto simp: TCPConn_WritePacket_def conn_Write_def split: list.split sum.split)

lemma ReadPacket_size_eq:
  "(Inr raw, c') = TCPConn_ReadPacket c ctx \<Longrightarrow> in_size (kIn c') < in_size (kIn c)"
  by (rule ReadPacket_size) (rule sym)

lemma WritePacket_in_eq: "(r, c') = TCPConn_WritePacket c raw \<Longrightarrow> kIn c' = kIn c"
  using WritePacket_in [of c raw] by (metis snd_conv)

text \<open>
  What one packet of a connection leads to: the goroutine blocks, it panics, it ends, or it goes
  on with the number of handler calls, the connection and the duplicate detector.
\<close>

datatype conn_next =
    Blocks
  | Panics
  | Stop nat conn "deduplicator option"
  | Continue nat conn "deduplicator option"

definition conn_dispatch :: "handler \<Rightarrow> go_ctx \<Rightarrow> net_addr \<Rightarrow> bytes \<Rightarrow> packet \<Rightarrow> nat
    \<Rightarrow> conn \<Rightarrow> deduplicator option \<Rightarrow> conn_next" where
  "conn_dispatch h ctx remote secret pkt runs c dd =
    (case h ctx \<lparr>rqPacket = pkt, rqSecret = secret, rqRemoteAddr = remote\<rparr> of
       Inl e \<Rightarrow> if e = GoPanic then Panics else Stop (Suc runs) c dd
     | Inr None \<Rightarrow> Continue (Suc runs) c dd
     | Inr (Some reply) \<Rightarrow>
         (case Marshal reply secret of
            Inl e \<Rightarrow> if e = GoPanic then Panics else Stop (Suc runs) c dd
          | Inr out \<Rightarrow>
              (let dd1 = map_option (\<lambda>d. dedup_Store d (Some remote) (pIdentifier pkt) out) dd in
               case TCPConn_WritePacket c out of
                 (Inl e, c1) \<Rightarrow> Stop (Suc runs) c1 dd1
               | (Inr _, c1) \<Rightarrow> Continue (Suc runs) c1 dd1)))"

definition conn_request :: "handler \<Rightarrow> go_ctx \<Rightarrow> net_addr \<Rightarrow> bytes \<Rightarrow> nat \<Rightarrow> bytes \<Rightarrow> nat
    \<Rightarrow> conn \<Rightarrow> deduplicator option \<Rightarrow> conn_next" where
  "conn_request h ctx remote secret now raw runs c dd =
    (case Unmarshal empty_packet raw secret of
       (_, Inl e) \<Rightarrow> if e = GoPanic then Panics else Stop runs c dd
     | (pkt, Inr _) \<Rightarrow>
         (case dd of
            None \<Rightarrow> conn_dispatch h ctx remote secret pkt runs c None
          | Some d \<Rightarrow>
              (case dedup_Seen d now (Some remote) (pIdentifier pkt) of
                 (True, d1) \<Rightarrow>
                   (case dedup_Lookup d1 (Some remote) (pIdentifier pkt) of
                      None \<Rightarrow> Blocks
                    | Some None \<Rightarrow> Continue runs c (Some d1)
                    | Some (Some cached) \<Rightarrow>
                        Continue runs (snd (TCPConn_WritePacket c cached)) (Some d1))
               | (False, d1) \<Rightarrow> conn_dispatch h ctx remote secret pkt runs c (Some d1))))"

lemma conn_dispatch_in:
  "conn_dispatch h ctx remote secret pkt runs c dd = Continue n c' dd' \<Longrightarrow> kIn c' = kIn c \<and> runs \<le> n"
  using WritePacket_in [of c]
  by (auto simp: conn_dispatch_def Let_def WritePacket_in_eq [OF sym] split: sum.splits option.splits prod.splits if_splits)

lemma conn_request_in:
  "conn_request h ctx remote secret now raw runs c dd = Continue n c' dd' \<Longrightarrow> kIn c' = kIn c \<and> runs \<le> n"
  by (auto simp: conn_request_def WritePacket_in
      split: sum.splits option.splits prod.splits bool.splits if_splits dest: conn_dispatch_in)

text \<open>
  \<open>clock k\<close> is the time when packet \<open>k\<close> of the connection is checked. The result: the number
  of handler calls, the connection (closed) and the duplicate detector.
\<close>

function conn_loop :: "handler \<Rightarrow> go_ctx \<Rightarrow> net_addr \<Rightarrow> bytes \<Rightarrow> (nat \<Rightarrow> nat) \<Rightarrow> nat \<Rightarrow> nat
    \<Rightarrow> conn \<Rightarrow> deduplicator option \<Rightarrow> (nat \<times> conn \<times> deduplicator option) task" where
  "conn_loop h ctx remote secret clock k runs c dd =
    (case TCPConn_ReadPacket c ctx of
       (Inl e, c1) \<Rightarrow> Done (runs, conn_Close c1, dd)
     | (Inr raw, c1) \<Rightarrow>
         (case conn_request h ctx remote secret (clock k) raw runs c1 dd of
            Blocks \<Rightarrow> Hangs
          | Panics \<Rightarrow> Crashes
          | Stop n c2 dd2 \<Rightarrow> Done (n, conn_Close c2, dd2)
          | Continue n c2 dd2 \<Rightarrow> conn_loop h ctx remote secret clock (Suc k) n c2 dd2))"
  by pat_completeness auto
termination
  by (relation "measure (\<lambda>(h, ctx, remote, secret, clock, k, runs, c, dd). in_size (kIn c))")
     (auto dest!: ReadPacket_size_eq conn_request_in)

declare conn_loop.simps [simp del]

definition handleConn :: "handler \<Rightarrow> secret_lookup \<Rightarrow> go_ctx \<Rightarrow> net_addr \<Rightarrow> (nat \<Rightarrow> nat)
    \<Rightarrow> conn \<Rightarrow> deduplicator option \<Rightarrow> (nat \<times> conn \<times> deduplicator option) task" where
  "handleConn h lookup ctx remote clock c dd =
    (case lookup (ipFromAddr remote) of
       None \<Rightarrow> Done (0, conn_Close c, dd)
     | Some secret \<Rightarrow> conn_loop h ctx remote secret clock 0 0 c dd)"

text \<open>The accept loop of \<open>TCPServer.Serve\<close>: the connections handed to a goroutine.\<close>

fun tcp_serve_loop :: "go_ctx \<Rightarrow> accept_event list \<Rightarrow> conn list \<times> gerror option" where
  "tcp_serve_loop ctx [] = ([], None)"
| "tcp_serve_loop ctx (ev # evs) =
    (case TCPListener_Accept ctx ev of
       Inl err \<Rightarrow> ([], Some (case cxErr ctx of Some e \<Rightarrow> e | None \<Rightarrow> err))
     | Inr c \<Rightarrow> (let (cs, res) = tcp_serve_loop ctx evs in (c # cs, res)))"

definition TCPServer_Serve :: "tcp_server \<Rightarrow> go_ctx \<Rightarrow> conn list \<times> gerror option" where
  "TCPServer_Serve s ctx = tcp_serve_loop ctx (tsListener s)"

definition TCPServer_Close :: "net_error option \<Rightarrow> tcp_server \<Rightarrow> gerror option \<times> tcp_server" where
  "TCPServer_Close r s = (let (e, l) = TCPListener_Close r (tsListener s) in (e, s\<lparr>tsListener := l\<rparr>))"

definition TCPServer_Shutdown :: "net_error option \<Rightarrow> bool \<Rightarrow> go_ctx \<Rightarrow> tcp_server \<Rightarrow> unit res \<times> tcp_server" where
  "TCPServer_Shutdown r finished ctx s =
    (let (_, l) = TCPListener_Close r (tsListener s); s1 = s\<lparr>tsListener := l\<rparr>
     in (if finished then Inr () else Inl (ctx_error ctx), s1))"

end
