(* ===== verification/Server_Props.thy ===== *)
theory Server_Props
  imports Server Packet_Props "HOL-Library.Multiset"
begin

text \<open>
  Properties of the server: what one request leads to, the replay of cached replies, the
  goroutine that blocks behind a silent handler, the spacing of handler runs under any
  interleaving of goroutines (\<open>srv_step\<close>), the secret lookups and the connection loop.
\<close>

section \<open>One request\<close>

definition plain_sock :: "udp_sock \<Rightarrow> bool" where
  "plain_sock t \<longleftrightarrow> uWr t = [] \<and> \<not> uClosed t"

lemma SendPacket_plain:
  "plain_sock t \<Longrightarrow> snd (UDPTransport_SendPacket t data dst) = t\<lparr>uOut := uOut t @ [(data, dst)]\<rparr>"
  by (simp add: plain_sock_def UDPTransport_SendPacket_def udp_Write_def)

lemma dispatch_reply:
  assumes "h ctx \<lparr>rqPacket = pkt, rqSecret = secret, rqRemoteAddr = src\<rparr> = Inr (Some reply)"
    and "Marshal reply secret = Inr out" and "plain_sock (usListener s)"
  obtains s' where "udp_dispatch h s ctx pkt src secret = Done s'"
    and "usListener s' = (usListener s)\<lparr>uOut := uOut (usListener s) @ [(out, src)]\<rparr>"
    and "usDedup s' = map_option (\<lambda>d. dedup_Store d (Some src) (pIdentifier pkt) out) (usDedup s)"
  using assms by (auto simp: udp_dispatch_def Let_def SendPacket_plain split: option.splits)

lemma handleOne_first:
  assumes "usDedup s = Some d" "dedup_Seen d now (Some src) (pIdentifier pkt) = (False, d1)"
    and "Unmarshal empty_packet raw secret = (pkt, Inr ())"
  shows "handleOne h s now ctx raw src secret =
    map_task (Pair True) (udp_dispatch h (s\<lparr>usDedup := Some d1\<rparr>) ctx pkt src secret)"
  using assms by (simp add: handleOne_def)

lemma Marshal_nonempty:
  assumes "Marshal p s = Inr w" shows "w \<noteq> []"
proof -
  have ov: "overwrite i src xs \<noteq> []" if "xs \<noteq> []" "src \<noteq> []" for i and src xs :: bytes
    using that by (simp add: overwrite_def)
  have "write_response_auth p n s out \<noteq> []" if "out \<noteq> []" for n out
    using that by (auto simp: write_response_auth_def overwrite_def)
  moreover have "write_ma off s out \<noteq> []" if "out \<noteq> []" for off out
    using that ov by (auto simp: write_ma_def overwrite_def split: option.split)
  moreover have "write_request_auth p n s out \<noteq> []" if "out \<noteq> []" for n out
    using that by (auto simp: write_request_auth_def overwrite_def)
  moreover have "zero_ma_value off out = Inr out1 \<Longrightarrow> out \<noteq> [] \<Longrightarrow> out1 \<noteq> []" for off out out1
    by (auto simp: zero_ma_value_def Let_def overwrite_def split: option.splits if_splits)
  ultimately show ?thesis
    using assms by (auto simp: Marshal_def Let_def split: if_splits sum.splits prod.splits)
qed

text \<open>A concrete server, request and handler for the instances below.\<close>

definition demo_request :: bytes where
  "demo_request = [1, 9, 0, 20] @ replicate 16 5"

definition demo_addr :: net_addr where "demo_addr = UDPAddr [10, 0, 0, 7] 1645 []"

definition demo_server :: udp_server where
  "demo_server = \<lparr>usListener = \<lparr>uIn = [], uOut = [], uWr = [], uDlErr = None, uReadDl = None, uWriteDl = None, uClosed = False\<rparr>,
     usDedup = Some (NewDeduplicator 0), usLog = initial_Default\<rparr>"

definition accept_handler :: handler where
  "accept_handler ctx req = Inr (Some (request_Reply req AccessAccept))"

lemma demo_unmarshal:
  "Unmarshal empty_packet demo_request [0x73] =
    (\<lparr>pCode = 1, pIdentifier = 9, pAuthenticator = replicate 16 5, pAttributes = []\<rparr>, Inr ())"
  unfolding demo_request_def by code_simp

lemma demo_marshal:
  "\<exists>out. Marshal \<lparr>pCode = AccessAccept, pIdentifier = 9, pAuthenticator = replicate 16 5, pAttributes = []\<rparr> [0x73] = Inr out"
  by (rule Marshal_total)
     (simp_all add: wf_packet_def ma_sized_def sendable_def isValidCode_def marshal_len_seal
       maxLengthForCode_def limit_num code_num IsAccounting_def ma_count_def)

lemma demo_ttl: "(200::nat) < 100 + unat (ddTtl (NewDeduplicator 0))"
  by (simp add: NewDeduplicator_def defaultDedupTTL_def time_Second_def)

lemma new_dedup_facts:
  "dedup_wf (NewDeduplicator ttl)" "ddTtl (NewDeduplicator 0) = 5000000000"
  "\<exists>d1. dedup_Seen (NewDeduplicator ttl) t addr i = (False, d1)"
  by (simp_all add: NewDeduplicator_def dedup_wf_def defaultDedupTTL_def time_Second_def
      dedup_Seen_def evictExpiredLocked_def Let_def)

section \<open>Replays\<close>

lemma Seen_after_first:
  assumes wf: "dedup_wf d" and first: "dedup_Seen d t1 addr i = (False, d1)"
    and t: "t2 < t1 + unat (ddTtl d)"
  shows "fst (dedup_Seen d1 t2 addr i)" "fst (dedup_Seen (dedup_Store d1 addr i out) t2 addr i)"
proof -
  have w1: "dedup_wf d1" using Seen_wf [OF wf, of t1 addr i] first by simp
  have live: "live_until d1 (dedupKey addr i) = Some (t1 + unat (ddTtl d))"
    using Seen_live [OF wf, of t1 addr i "dedupKey addr i"] first by simp
  show "fst (dedup_Seen d1 t2 addr i)" using Seen_iff [OF w1] live t by simp
  show "fst (dedup_Seen (dedup_Store d1 addr i out) t2 addr i)"
    using Seen_iff [OF Store_wf [OF w1]] Store_live [OF w1] live t by simp
qed

lemma lookup_after_seen:
  assumes wf: "dedup_wf d" and seen: "dedup_Seen d t addr i = (True, d')"
  shows "dedup_Lookup d' addr i = dedup_Lookup d addr i"
proof -
  from seen have d': "d' = evictExpiredLocked d t"
    by (auto simp: dedup_Seen_def Let_def split: option.splits)
  from seen obtain r where r: "map_of (ddEntries d') (dedupKey addr i) = Some r"
    by (auto simp: dedup_Seen_def Let_def split: option.splits)
  then have "map_of (ddEntries d) (dedupKey addr i) = Some r"
    unfolding d' using evict_map_of [OF wf] by (auto split: option.splits if_splits)
  moreover have "ddHeap d' ! r = ddHeap d ! r" using evict_heap_kept [OF wf] r d' by simp
  ultimately show ?thesis using r by (simp add: dedup_Lookup_def lookup_ref_def lookup_wait_def)
qed

lemma lookup_first:
  assumes wf: "dedup_wf d" and first: "dedup_Seen d t1 addr i = (False, d1)"
  shows "dedup_Lookup d1 addr i = None"
    and "out \<noteq> [] \<Longrightarrow> dedup_Lookup (dedup_Store d1 addr i out) addr i = Some (Some out)"
proof -
  let ?k = "dedupKey addr i" and ?d = "evictExpiredLocked d t1"
  from first have n: "map_of (ddEntries ?d) ?k = None"
    by (auto simp: dedup_Seen_def Let_def split: option.splits)
  with first have d1: "d1 = ?d\<lparr>ddEntries := AList.update ?k (length (ddHeap ?d)) (ddEntries ?d),
      ddHeap := ddHeap ?d @ [\<lparr>deReply = None, deDone = False, deExpires = t1 + unat (ddTtl ?d)\<rparr>]\<rparr>"
    by (simp add: dedup_Seen_def Let_def)
  show "dedup_Lookup d1 addr i = None"
    by (simp add: d1 dedup_Lookup_def lookup_ref_def lookup_wait_def update_conv' nth_append)
  show "out \<noteq> [] \<Longrightarrow> dedup_Lookup (dedup_Store d1 addr i out) addr i = Some (Some out)"
    by (simp add: d1 dedup_Lookup_def dedup_Store_def lookup_ref_def lookup_wait_def update_conv' nth_append)
qed

text \<open>
  C19: Within the lifetime of an entry a second request from the same address with the same
  identifier, whatever else it holds, does not run the handler: the reply computed
  for the first is sent again, octet for octet.
\<close>

theorem duplicate_gets_cached_reply:
  assumes "usDedup s = Some d" and "dedup_wf d" and "plain_sock (usListener s)"
    and "Unmarshal empty_packet raw secret = (pkt, Inr ())"
    and "dedup_Seen d t1 (Some src) (pIdentifier pkt) = (False, d1)"
    and "h ctx \<lparr>rqPacket = pkt, rqSecret = secret, rqRemoteAddr = src\<rparr> = Inr (Some reply)"
    and "Marshal reply secret = Inr out"
    and "Unmarshal empty_packet raw2 secret2 = (pkt2, Inr ())" and "pIdentifier pkt2 = pIdentifier pkt"
    and "t2 < t1 + unat (ddTtl d)"
  shows "\<exists>s1 s2. handleOne h s t1 ctx raw src secret = Done (True, s1)
    \<and> handleOne h2 s1 t2 ctx2 raw2 src secret2 = Done (False, s2)
    \<and> uOut (usListener s1) = uOut (usListener s) @ [(out, src)]
    \<and> uOut (usListener s2) = uOut (usListener s) @ [(out, src), (out, src)]"
proof -
  let ?i = "pIdentifier pkt" and ?s = "s\<lparr>usDedup := Some d1\<rparr>"
  let ?d2 = "dedup_Store d1 (Some src) (pIdentifier pkt) out"
  have pl: "plain_sock (usListener ?s)" using assms(3) by simp
  obtain s1 where disp: "udp_dispatch h ?s ctx pkt src secret = Done s1"
    and l1: "usListener s1 = (usListener s)\<lparr>uOut := uOut (usListener s) @ [(out, src)]\<rparr>" and dd: "usDedup s1 = Some ?d2"
    using dispatch_reply [where s = ?s and h = h and ctx = ctx, OF assms(6,7) pl] by auto
  have one: "handleOne h s t1 ctx raw src secret = Done (True, s1)"
    unfolding handleOne_first [OF assms(1,5,4)] disp by simp
  have wf1: "dedup_wf d1" using Seen_wf [OF assms(2), of t1 "Some src" ?i] assms(5) by simp
  have wf2: "dedup_wf ?d2" by (rule Store_wf [OF wf1])
  obtain d3 where seen: "dedup_Seen ?d2 t2 (Some src) ?i = (True, d3)"
    using Seen_after_first(2) [OF assms(2,5,10), of out]
    by (metis (full_types) prod.collapse)
  have look: "dedup_Lookup d3 (Some src) ?i = Some (Some out)"
    using lookup_after_seen [OF wf2 seen] lookup_first(2) [OF assms(2,5) Marshal_nonempty [OF assms(7)]] by simp
  have pl1: "plain_sock (usListener s1)" using assms(3) by (simp add: l1 plain_sock_def)
  let ?s2 = "s1\<lparr>usDedup := Some d3, usListener := snd (UDPTransport_SendPacket (usListener s1) out src)\<rparr>"
  have two: "handleOne h2 s1 t2 ctx2 raw2 src secret2 = Done (False, ?s2)"
    using assms(8,9) dd seen look by (simp add: handleOne_def Let_def)
  have o1: "uOut (usListener s1) = uOut (usListener s) @ [(out, src)]" by (simp add: l1)
  have "uOut (usListener ?s2) = uOut (usListener s) @ [(out, src), (out, src)]"
    using SendPacket_plain [OF pl1] o1 by simp
  with one two o1 show ?thesis by blast
qed

theorem duplicate_gets_cached_reply_witness:
  "\<exists>out s1 s2 ctx. handleOne accept_handler demo_server 100 ctx demo_request demo_addr [0x73] = Done (True, s1)
    \<and> handleOne accept_handler s1 200 ctx demo_request demo_addr [0x73] = Done (False, s2)
    \<and> uOut (usListener s2) = [(out, demo_addr), (out, demo_addr)]"
proof -
  let ?ctx = "\<lparr>cxDeadline = None, cxErr = None\<rparr> :: go_ctx"
  let ?p = "\<lparr>pCode = 1, pIdentifier = 9, pAuthenticator = replicate 16 5, pAttributes = []\<rparr>"
  have "usDedup demo_server = Some (NewDeduplicator 0)" "plain_sock (usListener demo_server)"
    and o: "uOut (usListener demo_server) = []" by (simp_all add: demo_server_def plain_sock_def)
  moreover obtain d1 where "dedup_Seen (NewDeduplicator 0) 100 (Some demo_addr) (pIdentifier ?p) = (False, d1)"
    using new_dedup_facts(3) by blast
  moreover obtain out where "Marshal \<lparr>pCode = AccessAccept, pIdentifier = 9, pAuthenticator = replicate 16 5,
      pAttributes = []\<rparr> [0x73] = Inr out" using demo_marshal by blast
  moreover have "accept_handler ?ctx \<lparr>rqPacket = ?p, rqSecret = [0x73], rqRemoteAddr = demo_addr\<rparr> =
      Inr (Some \<lparr>pCode = AccessAccept, pIdentifier = 9, pAuthenticator = replicate 16 5, pAttributes = []\<rparr>)"
    by (simp add: accept_handler_def request_Reply_def)
  ultimately have "\<exists>s1 s2. handleOne accept_handler demo_server 100 ?ctx demo_request demo_addr [0x73] = Done (True, s1)
    \<and> handleOne accept_handler s1 200 ?ctx demo_request demo_addr [0x73] = Done (False, s2)
    \<and> uOut (usListener s1) = uOut (usListener demo_server) @ [(out, demo_addr)]
    \<and> uOut (usListener s2) = uOut (usListener demo_server) @ [(out, demo_addr), (out, demo_addr)]"
    by (intro duplicate_gets_cached_reply [OF _ _ _ demo_unmarshal _ _ _ demo_unmarshal _ demo_ttl])
       (simp_all add: new_dedup_facts)
  with o show ?thesis by auto
qed

text \<open>
  C36: When the handler gives no reply (nil, an error, or a packet that \<open>Marshal\<close> refuses with an
  error; a panic of either ends the process instead) nothing is stored and the entry's channel
  stays open: a duplicate that arrives within its lifetime blocks its goroutine instead of being
  dropped.
\<close>

theorem silent_handler_blocks_duplicate:
  assumes "usDedup s = Some d" and "dedup_wf d"
    and "Unmarshal empty_packet raw secret = (pkt, Inr ())"
    and "dedup_Seen d t1 (Some src) (pIdentifier pkt) = (False, d1)"
    and "case h ctx \<lparr>rqPacket = pkt, rqSecret = secret, rqRemoteAddr = src\<rparr> of
           Inl e \<Rightarrow> e \<noteq> GoPanic | Inr None \<Rightarrow> True
         | Inr (Some reply) \<Rightarrow> (\<exists>e. Marshal reply secret = Inl e \<and> e \<noteq> GoPanic)"
    and "Unmarshal empty_packet raw2 secret2 = (pkt2, Inr ())" and "pIdentifier pkt2 = pIdentifier pkt"
    and "t2 < t1 + unat (ddTtl d)"
  shows "\<exists>s1. handleOne h s t1 ctx raw src secret = Done (True, s1)
    \<and> handleOne h2 s1 t2 ctx2 raw2 src secret2 = Hangs"
proof -
  let ?i = "pIdentifier pkt" and ?s = "s\<lparr>usDedup := Some d1\<rparr>"
  have "udp_dispatch h ?s ctx pkt src secret = Done ?s"
    using assms(5) by (auto simp: udp_dispatch_def unless_panic_def split: sum.splits option.splits)
  then have one: "handleOne h s t1 ctx raw src secret = Done (True, ?s)"
    unfolding handleOne_first [OF assms(1,4,3)] by simp
  have wf1: "dedup_wf d1" using Seen_wf [OF assms(2), of t1 "Some src" ?i] assms(4) by simp
  obtain d3 where seen: "dedup_Seen d1 t2 (Some src) ?i = (True, d3)"
    using Seen_after_first(1) [OF assms(2,4,8)] by (metis (full_types) prod.collapse)
  have "dedup_Lookup d3 (Some src) ?i = None"
    using lookup_after_seen [OF wf1 seen] lookup_first(1) [OF assms(2,4)] by simp
  then have "handleOne h2 ?s t2 ctx2 raw2 src secret2 = Hangs"
    using assms(6,7) seen by (simp add: handleOne_def Let_def)
  with one show ?thesis by simp
qed

theorem silent_handler_blocks_duplicate_witness:
  "\<exists>s1 ctx. handleOne (\<lambda>_ _. Inr None) demo_server 100 ctx demo_request demo_addr [0x73] = Done (True, s1)
    \<and> handleOne (\<lambda>_ _. Inr None) s1 200 ctx demo_request demo_addr [0x73] = Hangs"
proof -
  have "usDedup demo_server = Some (NewDeduplicator 0)" by (simp add: demo_server_def)
  moreover obtain d1 where "dedup_Seen (NewDeduplicator 0) 100 (Some demo_addr) 9 = (False, d1)"
    using new_dedup_facts(3) by blast
  ultimately have "\<exists>s1. handleOne (\<lambda>_ _. Inr None) demo_server 100 \<lparr>cxDeadline = None, cxErr = None\<rparr>
      demo_request demo_addr [0x73] = Done (True, s1)
    \<and> handleOne (\<lambda>_ _. Inr None) s1 200 \<lparr>cxDeadline = None, cxErr = None\<rparr> demo_request demo_addr [0x73] = Hangs"
    by (intro silent_handler_blocks_duplicate [OF _ _ demo_unmarshal _ _ demo_unmarshal _ demo_ttl])
       (simp_all add: new_dedup_facts)
  then show ?thesis by blast
qed

text \<open>
  A panic crashes the server: a reply whose last attribute is a Message-Authenticator without
  octets makes \<open>Marshal\<close> zero octets past the end of the packet.
\<close>

definition short_ma_handler :: handler where
  "short_ma_handler ctx req = Inr (Some (request_ReplyWith req AccessAccept [NewOctets AttrMessageAuthenticator []]))"

lemma short_ma_reply_panics:
  "Marshal \<lparr>pCode = AccessAccept, pIdentifier = 9, pAuthenticator = replicate 16 5,
     pAttributes = [NewOctets AttrMessageAuthenticator []]\<rparr> [0x73] = Inl GoPanic"
  by code_simp

lemma panicking_reply_crashes:
  "handleOne short_ma_handler (demo_server\<lparr>usDedup := None\<rparr>) now ctx demo_request demo_addr [0x73] = Crashes"
  by (simp add: handleOne_def demo_unmarshal udp_dispatch_def short_ma_handler_def request_ReplyWith_def
      request_Reply_def short_ma_reply_panics unless_panic_def)

section \<open>Interleaved goroutines\<close>

text \<open>
  The server with its goroutines. A request's goroutine reads the clock (\<open>svStamped\<close>, with the
  reading), enters the locked section of \<open>Seen\<close> with that reading (\<open>svAdmitted\<close>, with the reading
  and the time of the section), calls the handler (\<open>svPending\<close>), stores what the reply marshals
  to (\<open>svSending\<close>) and sends it; a duplicate goes to \<open>Lookup\<close> (\<open>svLooking\<close>) and waits for its
  entry (\<open>svWaiting\<close>). Each step is one of these operations; time passes between steps. \<open>Cleanup\<close>
  reads the clock under the lock. \<open>svRuns\<close> records for every call of the handler its key, the
  reading, the time of the locked section and the time of the call, newest first. A panic ends the
  process, so that no step follows it.
\<close>

record srv_state =
  svNow :: nat
  svDedup :: deduplicator
  svStamped :: "(packet \<times> net_addr \<times> bytes \<times> nat) list"
  svAdmitted :: "(packet \<times> net_addr \<times> bytes \<times> nat \<times> nat) list"
  svRuns :: "(string \<times> nat \<times> nat \<times> nat) list"
  svPending :: "(packet \<times> net_addr \<times> bytes) list"
  svSending :: "(bytes \<times> net_addr) list"
  svLooking :: "(net_addr \<times> byte) list"
  svWaiting :: "(nat \<times> net_addr) list"
  svOut :: "(bytes \<times> net_addr) list"

inductive srv_step :: "srv_state \<Rightarrow> srv_state \<Rightarrow> bool" where
  tick: "svNow s \<le> t \<Longrightarrow> srv_step s (s\<lparr>svNow := t\<rparr>)"
| stamp: "Unmarshal empty_packet raw secret = (pkt, Inr ()) \<Longrightarrow>
    srv_step s (s\<lparr>svStamped := (pkt, src, secret, svNow s) # svStamped s\<rparr>)"
| first: "(pkt, src, secret, t) \<in> set (svStamped s) \<Longrightarrow>
    dedup_Seen (svDedup s) t (Some src) (pIdentifier pkt) = (False, d) \<Longrightarrow>
    srv_step s (s\<lparr>svDedup := d, svStamped := remove1 (pkt, src, secret, t) (svStamped s),
      svAdmitted := (pkt, src, secret, t, svNow s) # svAdmitted s\<rparr>)"
| duplicate: "(pkt, src, secret, t) \<in> set (svStamped s) \<Longrightarrow>
    dedup_Seen (svDedup s) t (Some src) (pIdentifier pkt) = (True, d) \<Longrightarrow>
    srv_step s (s\<lparr>svDedup := d, svStamped := remove1 (pkt, src, secret, t) (svStamped s),
      svLooking := (src, pIdentifier pkt) # svLooking s\<rparr>)"
| start: "(pkt, src, secret, t, l) \<in> set (svAdmitted s) \<Longrightarrow>
    srv_step s (s\<lparr>svAdmitted := remove1 (pkt, src, secret, t, l) (svAdmitted s),
      svRuns := (dedupKey (Some src) (pIdentifier pkt), t, l, svNow s) # svRuns s,
      svPending := (pkt, src, secret) # svPending s\<rparr>)"
| lookup_hit: "(src, i) \<in> set (svLooking s) \<Longrightarrow> lookup_ref (svDedup s) (Some src) i = Some r \<Longrightarrow>
    srv_step s (s\<lparr>svLooking := remove1 (src, i) (svLooking s), svWaiting := (r, src) # svWaiting s\<rparr>)"
| lookup_miss: "(src, i) \<in> set (svLooking s) \<Longrightarrow> lookup_ref (svDedup s) (Some src) i = None \<Longrightarrow>
    srv_step s (s\<lparr>svLooking := remove1 (src, i) (svLooking s)\<rparr>)"
| answer: "(r, src) \<in> set (svWaiting s) \<Longrightarrow> lookup_wait (svDedup s) r = Some cached \<Longrightarrow>
    srv_step s (s\<lparr>svWaiting := remove1 (r, src) (svWaiting s),
      svOut := svOut s @ (case cached of None \<Rightarrow> [] | Some b \<Rightarrow> [(b, src)])\<rparr>)"
| reply: "(pkt, src, secret) \<in> set (svPending s) \<Longrightarrow> Marshal p secret = Inr out \<Longrightarrow>
    srv_step s (s\<lparr>svPending := remove1 (pkt, src, secret) (svPending s),
      svDedup := dedup_Store (svDedup s) (Some src) (pIdentifier pkt) out,
      svSending := (out, src) # svSending s\<rparr>)"
| send: "(out, src) \<in> set (svSending s) \<Longrightarrow>
    srv_step s (s\<lparr>svSending := remove1 (out, src) (svSending s), svOut := svOut s @ [(out, src)]\<rparr>)"
| silent: "(pkt, src, secret) \<in> set (svPending s) \<Longrightarrow>
    srv_step s (s\<lparr>svPending := remove1 (pkt, src, secret) (svPending s)\<rparr>)"
| cleanup: "srv_step s (s\<lparr>svDedup := dedup_Cleanup (svDedup s) (svNow s)\<rparr>)"

inductive_cases srv_stepE: "srv_step s s'"

definition srv_init :: "duration \<Rightarrow> srv_state" where
  "srv_init ttl = \<lparr>svNow = 0, svDedup = NewDeduplicator ttl, svStamped = [], svAdmitted = [], svRuns = [],
     svPending = [], svSending = [], svLooking = [], svWaiting = [], svOut = []\<rparr>"

abbreviation srv_reachable :: "duration \<Rightarrow> srv_state \<Rightarrow> bool" where
  "srv_reachable ttl s \<equiv> srv_step\<^sup>*\<^sup>* (srv_init ttl) s"

text \<open>
  Two admissions (key, reading, time of the section) of one key: one of them entered the
  locked section a lifetime after the other had read the clock.
\<close>

definition apart :: "nat \<Rightarrow> string \<times> nat \<times> nat \<Rightarrow> string \<times> nat \<times> nat \<Rightarrow> bool" where
  "apart ttl x y \<longleftrightarrow> (case (x, y) of ((k, t, l), (k', t', l')) \<Rightarrow> k = k' \<longrightarrow> t + ttl \<le> l' \<or> t' + ttl \<le> l)"

definition admitted_as :: "packet \<times> net_addr \<times> bytes \<times> nat \<times> nat \<Rightarrow> string \<times> nat \<times> nat" where
  "admitted_as x = (case x of (pkt, src, secret, t, l) \<Rightarrow> (dedupKey (Some src) (pIdentifier pkt), t, l))"

definition run_admission :: "string \<times> nat \<times> nat \<times> nat \<Rightarrow> string \<times> nat \<times> nat" where
  "run_admission x = (case x of (k, t, l, b) \<Rightarrow> (k, t, l))"

definition admissions :: "srv_state \<Rightarrow> (string \<times> nat \<times> nat) list" where
  "admissions s = map admitted_as (svAdmitted s) @ map run_admission (svRuns s)"

lemma apart_sym: "apart ttl x y \<Longrightarrow> apart ttl y x"
  by (auto simp: apart_def split: prod.splits)

lemma sorted_wrt_perm:
  assumes "mset xs = mset ys" "sorted_wrt P xs" "\<And>x y. P x y \<Longrightarrow> P y x"
  shows "sorted_wrt P ys"
  using assms(1,2)
proof (induction ys arbitrary: xs)
  case (Cons y ys)
  have "y \<in> set xs" using Cons.prems(1) by (metis list.set_intros(1) set_mset_mset)
  then obtain us vs where xs: "xs = us @ y # vs" by (auto simp: in_set_conv_decomp)
  then have m: "mset (us @ vs) = mset ys" using Cons.prems(1) by simp
  have "sorted_wrt P (us @ vs)" using Cons.prems(2) xs by (simp add: sorted_wrt_append)
  moreover have "P y z" if "z \<in> set ys" for z
  proof -
    from that m have "z \<in> set us \<or> z \<in> set vs" by (metis Un_iff set_append set_mset_mset)
    with Cons.prems(2) xs assms(3) show ?thesis by (auto simp: sorted_wrt_append)
  qed
  ultimately show ?case using Cons.IH [OF m] by simp
qed simp

definition srv_inv :: "duration \<Rightarrow> srv_state \<Rightarrow> bool" where
  "srv_inv ttl s \<longleftrightarrow> dedup_wf (svDedup s) \<and> ddTtl (svDedup s) = ddTtl (NewDeduplicator ttl)
     \<and> (\<forall>(pkt, src, secret, t) \<in> set (svStamped s). t \<le> svNow s)
     \<and> sorted_wrt (apart (unat (ddTtl (svDedup s)))) (admissions s)
     \<and> (\<forall>(k, t, l, b) \<in> set (svRuns s). l \<le> b \<and> b \<le> svNow s)
     \<and> (\<forall>(k, t, l) \<in> set (admissions s). t \<le> l \<and> l \<le> svNow s
          \<and> (svNow s < t + unat (ddTtl (svDedup s)) \<longrightarrow>
              (\<exists>e. live_until (svDedup s) k = Some e \<and> t + unat (ddTtl (svDedup s)) \<le> e)))"

lemma Store_ttl [simp]: "ddTtl (dedup_Store d a i out) = ddTtl d"
  by (simp add: dedup_Store_def split: option.split)

lemma Seen_ttl: "dedup_Seen d now a i = (b, d') \<Longrightarrow> ddTtl d' = ddTtl d"
  by (auto simp: dedup_Seen_def Let_def split: option.splits)

lemma evict_live:
  "dedup_wf d \<Longrightarrow> live_until (evictExpiredLocked d now) k =
    (case live_until d k of None \<Rightarrow> None | Some t \<Rightarrow> if now < t then Some t else None)"
  using evict_map_of [of d now k] evict_heap_kept [of d now k]
  by (auto simp: live_until_def expired_def split: option.splits if_splits)

text \<open>What an admission relies on, for as long as no eviction with a late reading comes.\<close>

definition covered :: "deduplicator \<Rightarrow> nat \<Rightarrow> string \<times> nat \<times> nat \<Rightarrow> bool" where
  "covered d now x \<longleftrightarrow> (case x of (k, t, l) \<Rightarrow> t \<le> l \<and> l \<le> now
     \<and> (now < t + unat (ddTtl d) \<longrightarrow> (\<exists>e. live_until d k = Some e \<and> t + unat (ddTtl d) \<le> e)))"

lemma srv_inv_covered:
  "srv_inv ttl s \<longleftrightarrow> dedup_wf (svDedup s) \<and> ddTtl (svDedup s) = ddTtl (NewDeduplicator ttl)
     \<and> (\<forall>(pkt, src, secret, t) \<in> set (svStamped s). t \<le> svNow s)
     \<and> sorted_wrt (apart (unat (ddTtl (svDedup s)))) (admissions s)
     \<and> (\<forall>(k, t, l, b) \<in> set (svRuns s). l \<le> b \<and> b \<le> svNow s)
     \<and> (\<forall>x \<in> set (admissions s). covered (svDedup s) (svNow s) x)"
  by (auto simp: srv_inv_def covered_def)

lemma covered_evict:
  assumes "covered d now x" "dedup_wf d" "t \<le> now"
  shows "covered (evictExpiredLocked d t) now x"
  using assms by (auto simp: covered_def evict_live)

lemma covered_later: "covered d now x \<Longrightarrow> now \<le> now' \<Longrightarrow> covered d now' x"
  by (auto simp: covered_def)

lemma covered_first:
  assumes x: "covered d now x" and wf: "dedup_wf d" and t: "t \<le> now" and "dedup_Seen d t (Some src) i = (False, d')"
  shows "covered d' now x" "apart (unat (ddTtl d)) (dedupKey (Some src) i, t, now) x"
proof -
  obtain k' t' l' where x': "x = (k', t', l')" by (cases x)
  let ?k = "dedupKey (Some src) i"
  have f: "\<not> fst (dedup_Seen d t (Some src) i)" "d' = snd (dedup_Seen d t (Some src) i)" using assms(4) by simp_all
  have ttl: "ddTtl d' = ddTtl d" by (rule Seen_ttl [OF assms(4)])
  have live: "live_until d' k' = (if k' = ?k then Some (t + unat (ddTtl d))
      else case live_until d k' of None \<Rightarrow> None | Some e \<Rightarrow> if t < e then Some e else None)"
    using Seen_live [OF wf, of t "Some src" i k'] f by simp
  have gone: "\<not> (live_until d ?k = Some e \<and> t < e)" for e
    using Seen_iff [OF wf, of t "Some src" i] f(1) by auto
  have "t' + unat (ddTtl d) \<le> now" if "k' = ?k"
  proof (rule ccontr)
    assume "\<not> t' + unat (ddTtl d) \<le> now"
    with x that obtain e where "live_until d ?k = Some e" "t' + unat (ddTtl d) \<le> e" by (auto simp: covered_def x')
    with gone [of e] t \<open>\<not> t' + unat (ddTtl d) \<le> now\<close> show False by simp
  qed
  then show "apart (unat (ddTtl d)) (?k, t, now) x" by (auto simp: apart_def x')
  show "covered d' now x"
    using x t \<open>k' = ?k \<Longrightarrow> t' + unat (ddTtl d) \<le> now\<close> by (auto simp: covered_def x' ttl live)
qed

lemma Seen_new:
  assumes "dedup_wf d" "t \<le> now" "dedup_Seen d t (Some src) i = (False, d')"
  shows "covered d' now (dedupKey (Some src) i, t, now)"
proof -
  have "live_until d' (dedupKey (Some src) i) = Some (t + unat (ddTtl d))"
    using Seen_live [OF assms(1), of t "Some src" i "dedupKey (Some src) i"] assms(3) by simp
  with assms(2) Seen_ttl [OF assms(3)] show ?thesis by (simp add: covered_def)
qed

lemma admissions_start:
  assumes "x \<in> set (svAdmitted s)" "run_admission r = admitted_as x"
    and "svAdmitted s' = remove1 x (svAdmitted s)" "svRuns s' = r # svRuns s"
  shows "mset (admissions s') = mset (admissions s)"
proof -
  have "mset (svAdmitted s) = add_mset x (mset (remove1 x (svAdmitted s)))" using assms(1) by simp
  then have "mset (map admitted_as (svAdmitted s)) = add_mset (admitted_as x) (mset (map admitted_as (remove1 x (svAdmitted s))))"
    by (metis image_mset_add_mset mset_map)
  then show ?thesis by (simp add: admissions_def assms(2-4))
qed

lemma srv_step_inv:
  assumes "srv_step s s'" "srv_inv ttl s" shows "srv_inv ttl s'"
proof -
  note inv = assms(2) [unfolded srv_inv_covered]
  then have wf: "dedup_wf (svDedup s)" by blast
  from assms(1) show ?thesis
  proof (cases rule: srv_step.cases)
    case (tick t)
    from inv tick(2) covered_later [OF _ tick(2)] show ?thesis
      unfolding srv_inv_covered by (fastforce simp: tick(1) admissions_def)
  next
    case (first pkt src secret t d)
    have t: "t \<le> svNow s" using inv first(2) by auto
    have wfd: "dedup_wf d" using Seen_wf [OF wf, of t "Some src" "pIdentifier pkt"] first(3) by simp
    have ttl: "ddTtl d = ddTtl (svDedup s)" by (rule Seen_ttl [OF first(3)])
    have a: "admissions s' = (dedupKey (Some src) (pIdentifier pkt), t, svNow s) # admissions s"
      by (simp add: admissions_def first(1) admitted_as_def)
    have "covered d (svNow s) x" "apart (unat (ddTtl d)) (dedupKey (Some src) (pIdentifier pkt), t, svNow s) x"
      if "x \<in> set (admissions s)" for x
      using covered_first [OF _ wf t first(3)] inv that ttl by auto
    with Seen_new [OF wf t first(3)] inv wfd ttl show ?thesis
      unfolding srv_inv_covered a by (auto simp: first(1) dest: set_remove1_subset [THEN subsetD])
  next
    case (duplicate pkt src secret t d)
    have t: "t \<le> svNow s" using inv duplicate(2) by auto
    have d: "d = evictExpiredLocked (svDedup s) t"
      using duplicate(3) by (auto simp: dedup_Seen_def Let_def split: option.splits)
    have a: "admissions s' = admissions s" by (simp add: admissions_def duplicate(1))
    show ?thesis
      using inv evict_wf [OF wf] covered_evict [OF _ wf t]
      unfolding srv_inv_covered a by (auto simp: duplicate(1) d dest: set_remove1_subset [THEN subsetD])
  next
    case (start pkt src secret t l)
    have m: "mset (admissions s) = mset (admissions s')"
      by (rule admissions_start [OF start(2), symmetric]) (simp_all add: start(1) run_admission_def admitted_as_def)
    have perm: "sorted_wrt (apart (unat (ddTtl (svDedup s)))) (admissions s')" "set (admissions s') = set (admissions s)"
    proof -
      show "sorted_wrt (apart (unat (ddTtl (svDedup s)))) (admissions s')"
        by (rule sorted_wrt_perm [OF m]) (use inv apart_sym in blast)+
      show "set (admissions s') = set (admissions s)" by (rule mset_eq_setD [OF m, symmetric])
    qed
    have "admitted_as (pkt, src, secret, t, l) \<in> set (admissions s)" using start(2) by (simp add: admissions_def)
    with inv have "l \<le> svNow s" by (auto simp: covered_def admitted_as_def)
    with inv perm show ?thesis unfolding srv_inv_covered by (auto simp: start(1))
  next
    case cleanup
    have a: "admissions s' = admissions s" by (simp add: admissions_def cleanup)
    show ?thesis
      using inv evict_wf [OF wf] covered_evict [OF _ wf order_refl]
      unfolding srv_inv_covered a by (auto simp: cleanup dedup_Cleanup_def)
  next
    case (reply pkt src secret p out)
    have a: "admissions s' = admissions s" by (simp add: admissions_def reply(1))
    show ?thesis
      using inv Store_wf [OF wf] unfolding srv_inv_covered a
      by (auto simp: reply(1) covered_def Store_live [OF wf])
  qed (use inv in \<open>auto simp: srv_inv_covered admissions_def\<close>)
qed

lemma srv_reachable_inv: "srv_reachable ttl s \<Longrightarrow> srv_inv ttl s"
proof (induction rule: rtranclp_induct)
  case base
  show ?case by (simp add: srv_init_def srv_inv_def NewDeduplicator_def dedup_wf_def admissions_def)
next
  case (step s s')
  then show ?case by (blast intro: srv_step_inv)
qed

text \<open>
  C8: However the goroutines of the server interleave, of two runs of the handler for the same
  address and identifier one entered the locked section of \<open>Seen\<close> at least one lifetime after the
  other had read the clock. That is not a lifetime between their starts, as \<open>Seen\<close> reads
  the clock before it takes the lock: two handlers can start at once. But when no goroutine
  takes longer than some time from its reading to the call of its handler, the calls are a
  lifetime less that time apart.
\<close>

theorem handler_runs_spaced:
  assumes "srv_reachable ttl s"
  shows "sorted_wrt (\<lambda>(k, t, l, b) (k', t', l', b'). k = k' \<longrightarrow>
      t + unat (ddTtl (NewDeduplicator ttl)) \<le> l' \<or> t' + unat (ddTtl (NewDeduplicator ttl)) \<le> l) (svRuns s)
    \<and> (\<forall>(k, t, l, b) \<in> set (svRuns s). t \<le> l \<and> l \<le> b \<and> b \<le> svNow s)
    \<and> (\<forall>delay. (\<forall>(k, t, l, b) \<in> set (svRuns s). b \<le> t + delay) \<longrightarrow>
        sorted_wrt (\<lambda>(k, t, l, b) (k', t', l', b'). k = k' \<longrightarrow>
          b + unat (ddTtl (NewDeduplicator ttl)) \<le> b' + delay
          \<or> b' + unat (ddTtl (NewDeduplicator ttl)) \<le> b + delay) (svRuns s))"
proof -
  let ?T = "unat (ddTtl (NewDeduplicator ttl))"
  note inv = srv_reachable_inv [OF assms, unfolded srv_inv_def]
  then have "sorted_wrt (apart ?T) (map run_admission (svRuns s))"
    by (auto simp: admissions_def sorted_wrt_append)
  then have s: "sorted_wrt (\<lambda>(k, t, l, b) (k', t', l', b'). k = k' \<longrightarrow> t + ?T \<le> l' \<or> t' + ?T \<le> l) (svRuns s)"
    unfolding sorted_wrt_map by (rule sorted_wrt_mono_rel [rotated]) (auto simp: apart_def run_admission_def)
  have "(k, t, l) \<in> set (admissions s)" if "(k, t, l, b) \<in> set (svRuns s)" for k t l b
    using that by (force simp: admissions_def run_admission_def)
  with inv have o: "\<forall>(k, t, l, b) \<in> set (svRuns s). t \<le> l \<and> l \<le> b \<and> b \<le> svNow s" by fastforce
  have d: "sorted_wrt (\<lambda>(k, t, l, b) (k', t', l', b'). k = k' \<longrightarrow> b + ?T \<le> b' + delay \<or> b' + ?T \<le> b + delay) (svRuns s)"
    if "\<forall>(k, t, l, b) \<in> set (svRuns s). b \<le> t + delay" for delay
  proof (rule sorted_wrt_mono_rel [OF _ s])
    fix x y :: "string \<times> nat \<times> nat \<times> nat"
    assume m: "x \<in> set (svRuns s)" "y \<in> set (svRuns s)"
      and a: "(\<lambda>(k, t, l, b) (k', t', l', b'). k = k' \<longrightarrow> t + ?T \<le> l' \<or> t' + ?T \<le> l) x y"
    obtain k t l b k' t' l' b' where x: "x = (k, t, l, b)" "y = (k', t', l', b')" by (cases x, cases y) blast
    from bspec [OF that m(1)] bspec [OF that m(2)] bspec [OF o m(1)] bspec [OF o m(2)]
    have "b \<le> t + delay" "b' \<le> t' + delay" "l \<le> b" "l' \<le> b'" by (simp_all add: x)
    with a show "(\<lambda>(k, t, l, b) (k', t', l', b'). k = k' \<longrightarrow> b + ?T \<le> b' + delay \<or> b' + ?T \<le> b + delay) x y"
      by (auto simp: x)
  qed
  show ?thesis by (intro conjI allI impI s o d)
qed

text \<open>A run in which two handlers for one key start at the same time.\<close>

lemma Seen_at_ttl:
  assumes "dedup_Seen (NewDeduplicator ttl) 0 a i = (False, d1)"
  shows "\<exists>d2. dedup_Seen d1 (unat (ddTtl (NewDeduplicator ttl))) a i = (False, d2)"
proof -
  have wf: "dedup_wf d1" using Seen_wf [OF new_dedup_facts(1), of ttl 0 a i] assms by simp
  have "live_until d1 (dedupKey a i) = Some (unat (ddTtl (NewDeduplicator ttl)))"
    using Seen_live [OF new_dedup_facts(1), of ttl 0 a i "dedupKey a i"] assms by simp
  then have "\<not> fst (dedup_Seen d1 (unat (ddTtl (NewDeduplicator ttl))) a i)" using Seen_iff [OF wf] by simp
  then show ?thesis by (metis (full_types) prod.collapse)
qed

lemma two_starts:
  "\<exists>s. srv_reachable 0 s \<and> svRuns s =
    [(dedupKey (Some demo_addr) 9, 5000000000, 5000000000, 5000000000), (dedupKey (Some demo_addr) 9, 0, 5000000000, 5000000000)]"
proof -
  let ?p = "\<lparr>pCode = 1, pIdentifier = 9, pAuthenticator = replicate 16 5, pAttributes = []\<rparr> :: packet"
  let ?q = "(?p, demo_addr, [0x73] :: bytes)" and ?T = "5000000000 :: nat"
  obtain d1 where d1: "dedup_Seen (NewDeduplicator 0) 0 (Some demo_addr) 9 = (False, d1)"
    using new_dedup_facts(3) by blast
  obtain d2 where d2: "dedup_Seen d1 ?T (Some demo_addr) 9 = (False, d2)"
    using Seen_at_ttl [OF d1] unfolding new_dedup_facts(2) by auto
  define key where "key = dedupKey (Some demo_addr) 9"
  define i where "i = srv_init 0"
  have i: "svNow i = 0" "svDedup i = NewDeduplicator 0" "svStamped i = []" "svAdmitted i = []" "svRuns i = []"
    by (simp_all add: i_def srv_init_def)
  define s1 where "s1 = i\<lparr>svStamped := [(?p, demo_addr, [0x73], 0)]\<rparr>"
  define s2 where "s2 = s1\<lparr>svNow := ?T\<rparr>"
  define s3 where "s3 = s2\<lparr>svDedup := d1, svStamped := [], svAdmitted := [(?p, demo_addr, [0x73], 0, ?T)]\<rparr>"
  define s4 where "s4 = s3\<lparr>svAdmitted := [], svRuns := [(key, 0, ?T, ?T)], svPending := ?q # svPending s3\<rparr>"
  define s5 where "s5 = s4\<lparr>svStamped := [(?p, demo_addr, [0x73], ?T)]\<rparr>"
  define s6 where "s6 = s5\<lparr>svDedup := d2, svStamped := [], svAdmitted := [(?p, demo_addr, [0x73], ?T, ?T)]\<rparr>"
  define s7 where "s7 = s6\<lparr>svAdmitted := [], svRuns := (key, ?T, ?T, ?T) # svRuns s6, svPending := ?q # svPending s6\<rparr>"
  have 1: "srv_step i s1" using srv_step.stamp [OF demo_unmarshal, of i demo_addr] by (simp add: s1_def i)
  have 2: "srv_step s1 s2" using srv_step.tick [of s1 ?T] by (simp add: s2_def s1_def i)
  have 3: "srv_step s2 s3" using srv_step.first [of ?p demo_addr "[0x73]" 0 s2 d1] d1 by (simp add: s3_def s2_def s1_def i)
  have 4: "srv_step s3 s4" using srv_step.start [of ?p demo_addr "[0x73]" 0 ?T s3] by (simp add: s4_def s3_def s2_def s1_def i key_def)
  have 5: "srv_step s4 s5"
    using srv_step.stamp [OF demo_unmarshal, of s4 demo_addr] by (simp add: s5_def s4_def s3_def s2_def s1_def i)
  have 6: "srv_step s5 s6"
    using srv_step.first [of ?p demo_addr "[0x73]" ?T s5 d2] d2 by (simp add: s6_def s5_def s4_def s3_def s2_def s1_def i)
  have 7: "srv_step s6 s7"
    using srv_step.start [of ?p demo_addr "[0x73]" ?T ?T s6] by (simp add: s7_def s6_def s5_def s4_def s3_def s2_def s1_def i key_def)
  have "srv_reachable 0 s7" unfolding i_def [symmetric]
    by (rule converse_rtranclp_into_rtranclp [OF 1 converse_rtranclp_into_rtranclp [OF 2 converse_rtranclp_into_rtranclp [OF 3
        converse_rtranclp_into_rtranclp [OF 4 converse_rtranclp_into_rtranclp [OF 5
        converse_rtranclp_into_rtranclp [OF 6 r_into_rtranclp [of srv_step, OF 7]]]]]]])
  then show ?thesis by (intro exI [of _ s7]) (simp add: s7_def s6_def s5_def s4_def key_def)
qed

theorem handler_runs_spaced_witness:
  "\<exists>s k. srv_reachable 0 s \<and> svRuns s = [(k, 5000000000, 5000000000, 5000000000), (k, 0, 5000000000, 5000000000)]
     \<and> sorted_wrt (\<lambda>(k, t, l, b) (k', t', l', b'). k = k' \<longrightarrow> t + 5000000000 \<le> l' \<or> t' + 5000000000 \<le> l) (svRuns s)"
proof -
  obtain s where s: "srv_reachable 0 s" "svRuns s = [(dedupKey (Some demo_addr) 9, 5000000000, 5000000000, 5000000000),
      (dedupKey (Some demo_addr) 9, 0, 5000000000, 5000000000)]" using two_starts by blast
  have "unat (ddTtl (NewDeduplicator 0)) = 5000000000" by (simp add: new_dedup_facts(2))
  from handler_runs_spaced [OF s(1), THEN conjunct1, unfolded this] s show ?thesis
    by (intro exI [of _ s] exI [of _ "dedupKey (Some demo_addr) 9"] conjI)
qed

section \<open>Secrets\<close>

lemma update_fold:
  "map_of (fold (\<lambda>(k, v) acc. AList.update (f k) v acc) m acc) x =
    (case map_of (rev (map (\<lambda>(k, v). (f k, v)) m)) x of Some v \<Rightarrow> Some v | None \<Rightarrow> map_of acc x)"
proof (induction m arbitrary: acc)
  case (Cons a m)
  obtain k v where a: "a = (k, v)" by (cases a)
  show ?case unfolding a by (simp add: Cons.IH update_conv' map_add_def split: option.split)
qed simp

lemma SecretMap_iff:
  "SecretMap m (Some ip) = map_of (rev (map (\<lambda>(k, v). (normalizeIPKey k, v)) m)) (IP_String ip)"
  by (simp add: SecretMap_def secret_index_def update_fold split: option.split)

lemma dropWhile_pad:
  "list_all P a \<Longrightarrow> list_all (\<lambda>c. \<not> P c) s \<Longrightarrow> s \<noteq> [] \<Longrightarrow> dropWhile P (a @ s @ b) = s @ b"
  by (induction a) (cases s, auto)+

lemma TrimSpace_pad: "list_all (\<lambda>c. \<not> is_space c) s \<Longrightarrow> s \<noteq> [] \<Longrightarrow> list_all is_space a \<Longrightarrow> list_all is_space b \<Longrightarrow>
  TrimSpace (a @ s @ b) = s"
  using dropWhile_pad [of is_space a s b] dropWhile_pad [of is_space "rev b" "rev s" "[]"]
  by (simp add: TrimSpace_def)

lemma ipv4_chars:
  assumes "length ip = 4"
  shows "set (IP_String ip) \<subseteq> {c. is_digit c \<or> c = CHR ''.''}" and "IP_String ip \<noteq> []"
proof -
  obtain a b c d where ip: "ip = [a, b, c, d]" using length_4_cases [OF assms] by blast
  show "set (IP_String ip) \<subseteq> {c. is_digit c \<or> c = CHR ''.''}" "IP_String ip \<noteq> []"
    using dec_digits_facts(1) dec_digits_facts(3)
    by (auto simp: IP_String_def IP_To4_def ip ipv4_String_def list_all_iff)
qed

lemma IP_String_to16: "length ip = 4 \<Longrightarrow> IP_String (v4InV6Prefix @ ip) = IP_String ip"
  by (auto simp: IP_String_def IP_To4_def v4InV6Prefix_def)

lemma normalize_ipv4:
  assumes ip: "length ip = 4" and sp: "list_all is_space a" "list_all is_space b"
    and suf: "suffix = [] \<or> (\<exists>r. suffix = CHR ''/'' # r \<and> list_all (\<lambda>c. \<not> is_space c) r)"
  shows "normalizeIPKey (a @ IP_String ip @ suffix @ b) = IP_String ip"
proof -
  have ns: "\<not> is_space c" if "is_digit c \<or> c = CHR ''.''" for c
    using that by (auto simp: is_space_def is_digit_def)
  have sl: "CHR ''/'' \<notin> set (IP_String ip)"
    using ipv4_chars(1) [OF ip] by (auto simp: is_digit_def)
  have "list_all (\<lambda>c. \<not> is_space c) (IP_String ip @ suffix)"
  proof -
    have "list_all (\<lambda>c. \<not> is_space c) (IP_String ip)"
      using ipv4_chars(1) [OF ip] ns by (auto simp: list_all_iff)
    moreover have "list_all (\<lambda>c. \<not> is_space c) suffix" using suf by (auto simp: is_space_def)
    ultimately show ?thesis by simp
  qed
  then have t: "TrimSpace (a @ (IP_String ip @ suffix) @ b) = IP_String ip @ suffix"
    using ipv4_chars(2) [OF ip] sp by (intro TrimSpace_pad) auto
  have k2: "(case IndexByte (IP_String ip @ suffix) (CHR ''/'') of Some i \<Rightarrow> take i (IP_String ip @ suffix)
      | None \<Rightarrow> IP_String ip @ suffix) = IP_String ip"
    using suf sl by (auto simp: IndexByte_none IndexByte_append)
  show ?thesis
    using t unfolding normalizeIPKey_def Let_def append_assoc
    by (simp only: k2) (simp add: ParseIP_ipv4_String [OF ip] IP_String_to16 [OF ip])
qed

text \<open>
  A secret registered under an IPv4 address, with or without surrounding blanks and a
  \<open>/prefix\<close>, is the one used for packets from that address, in its 4-octet and in its
  IPv4-mapped form; addresses without an entry, and non-IP sources, get none.
\<close>

theorem secret_map_lookup:
  assumes "length ip = 4" and "list_all is_space a" and "list_all is_space b"
    and "suffix = [] \<or> (\<exists>r. suffix = CHR ''/'' # r \<and> list_all (\<lambda>c. \<not> is_space c) r)"
    and "map_of (map (\<lambda>(k, v). (normalizeIPKey k, v)) m) (IP_String ip) = None"
  shows "SecretMap (m @ [(a @ IP_String ip @ suffix @ b, secret)]) (ipFromAddr (UDPAddr ip port z)) = Some secret
    \<and> SecretMap (m @ [(a @ IP_String ip @ suffix @ b, secret)]) (Some (v4InV6Prefix @ ip)) = Some secret
    \<and> SecretMap m (Some ip) = None \<and> SecretMap m (ipFromAddr (OtherAddr other)) = None"
proof -
  have n: "normalizeIPKey (a @ IP_String ip @ suffix @ b) = IP_String ip"
    by (rule normalize_ipv4 [OF assms(1-4)])
  have "map_of (rev (map (\<lambda>(k, v). (normalizeIPKey k, v)) m)) (IP_String ip) = None"
    using assms(5) by (simp add: map_of_eq_None_iff)
  with n show ?thesis
    by (simp add: SecretMap_iff IP_String_to16 [OF assms(1)]) (simp add: SecretMap_def)
qed

theorem secret_map_lookup_witness:
  "SecretMap [('' 10.0.0.7/32'', [0x73])] (ipFromAddr (UDPAddr [10, 0, 0, 7] 1645 [])) = Some [0x73]"
proof -
  have t: "IP_String [10, 0, 0, 7] = ''10.0.0.7''" by code_simp
  from secret_map_lookup [of "[10, 0, 0, 7]" "'' ''" "[]" "''/32''" "[]" "[0x73]" 1645 "[]"] show ?thesis
    unfolding t by (simp add: is_space_def)
qed

section \<open>Serving\<close>

text \<open>
  The UDP reading loop hands on exactly the datagrams whose source has a secret, each with
  that secret, in the order of arrival, up to the first read error; every other datagram is dropped.
\<close>

theorem serve_dispatches_known_clients:
  assumes "list_all (\<lambda>r. case r of Inl _ \<Rightarrow> False | Inr (dg, src) \<Rightarrow> length dg \<le> 4096) dgs"
    and "uDlErr (usListener s) = None" and "uIn (usListener s) = dgs @ Inl e # rest"
  shows "UDPServer_Serve lookup s ctx =
    (map (\<lambda>(dg, src). (dg, src, the (lookup (ipFromAddr src))))
       (filter (\<lambda>(dg, src). lookup (ipFromAddr src) \<noteq> None)
          (map (\<lambda>r. case r of Inr x \<Rightarrow> x | Inl _ \<Rightarrow> ([], OtherAddr [])) dgs)),
     Some (server_mapReadErr ctx (read_error e ctx)))"
proof -
  have "serve_loop lookup ctx (dgs @ Inl e # rest) =
    (map (\<lambda>(dg, src). (dg, src, the (lookup (ipFromAddr src))))
       (filter (\<lambda>(dg, src). lookup (ipFromAddr src) \<noteq> None)
          (map (\<lambda>r. case r of Inr x \<Rightarrow> x | Inl _ \<Rightarrow> ([], OtherAddr [])) dgs)),
     Some (server_mapReadErr ctx (read_error e ctx)))"
    using assms(1)
  proof (induction dgs)
    case (Cons r dgs)
    then obtain dg src where r: "r = Inr (dg, src)" "length dg \<le> 4096" by (cases r) auto
    with Cons show ?case by (auto simp: limit_num split: option.split)
  qed simp
  with assms(2,3) show ?thesis by (simp add: UDPServer_Serve_def)
qed

theorem serve_dispatches_known_clients_witness:
  "UDPServer_Serve (\<lambda>ip. if ip = Some [10, 0, 0, 7] then Some [0x73] else None)
     \<lparr>usListener = \<lparr>uIn = [Inr ([1], UDPAddr [10, 0, 0, 7] 1 []), Inr ([2], UDPAddr [10, 0, 0, 8] 1 []),
        Inl io_EOF], uOut = [], uWr = [], uDlErr = None, uReadDl = None, uWriteDl = None, uClosed = False\<rparr>, usDedup = None, usLog = initial_Default\<rparr>
     \<lparr>cxDeadline = None, cxErr = Some CtxCanceled\<rparr>
   = ([([1], UDPAddr [10, 0, 0, 7] 1 [], [0x73])], Some CtxCanceled)"
  by (subst serve_dispatches_known_clients [where rest = "[]" and e = io_EOF and
        dgs = "[Inr ([1], UDPAddr [10, 0, 0, 7] 1 []), Inr ([2], UDPAddr [10, 0, 0, 8] 1 [])]"])
     (simp_all add: server_mapReadErr_def)

lemma conn_loop_closes:
  "conn_loop h ctx remote secret clock k runs c dd = Done (n, c', dd') \<Longrightarrow> kClosed c' \<and> runs \<le> n"
proof (induction h ctx remote secret clock k runs c dd rule: conn_loop.induct)
  case (1 h ctx remote secret clock k runs c dd)
  obtain r c1 where rd: "TCPConn_ReadPacket c ctx = (r, c1)" by fastforce
  show ?case
  proof (cases r)
    case (Inl e)
    with "1.prems" rd show ?thesis by (subst (asm) conn_loop.simps) (auto simp: conn_Close_def)
  next
    case (Inr raw)
    show ?thesis
    proof (cases "conn_request h ctx remote secret (clock k) raw runs c1 dd")
      case (Continue m c2 dd2)
      with "1.prems" rd Inr have "conn_loop h ctx remote secret clock (Suc k) m c2 dd2 = Done (n, c', dd')"
        by (subst (asm) conn_loop.simps) simp
      from "1.IH" [OF rd [symmetric] Inr Continue this] conn_request_in [OF Continue] show ?thesis by simp
    next
      case (Stop m c2 dd2)
      moreover from this have "runs \<le> m"
        by (auto simp: conn_request_def conn_dispatch_def Let_def
            split: sum.splits option.splits prod.splits bool.splits if_splits)
      ultimately show ?thesis
        using "1.prems" rd Inr by (subst (asm) conn_loop.simps) (auto simp: conn_Close_def)
    next
      case Blocks
      with "1.prems" rd Inr show ?thesis by (subst (asm) conn_loop.simps) simp
    next
      case Panics
      with "1.prems" rd Inr show ?thesis by (subst (asm) conn_loop.simps) simp
    qed
  qed
qed

lemma conn_request_nodedup:
  "conn_request h ctx remote secret now raw runs c None \<noteq> Blocks"
  "conn_request h ctx remote secret now raw runs c None = Continue n c' dd' \<Longrightarrow> dd' = None"
  by (auto simp: conn_request_def conn_dispatch_def Let_def split: sum.splits option.splits prod.splits if_splits)

lemma conn_loop_nodedup: "dd = None \<Longrightarrow> conn_loop h ctx remote secret clock k runs c dd \<noteq> Hangs"
proof (induction h ctx remote secret clock k runs c dd rule: conn_loop.induct)
  case (1 h ctx remote secret clock k runs c dd)
  obtain r c1 where rd: "TCPConn_ReadPacket c ctx = (r, c1)" by fastforce
  show ?case
  proof (cases r)
    case (Inl e)
    with rd show ?thesis by (subst conn_loop.simps) simp
  next
    case (Inr raw)
    show ?thesis
    proof (cases "conn_request h ctx remote secret (clock k) raw runs c1 dd")
      case Blocks
      with conn_request_nodedup(1) "1.prems" show ?thesis by simp
    next
      case (Continue m c2 dd2)
      with conn_request_nodedup(2) "1.prems" have "dd2 = None" by blast
      from "1.IH" [OF rd [symmetric] Inr Continue this] show ?thesis
        using rd Inr Continue by (subst conn_loop.simps) simp
    next
      case (Stop m c2 dd2)
      with rd Inr show ?thesis by (subst conn_loop.simps) simp
    next
      case Panics
      with rd Inr show ?thesis by (subst conn_loop.simps) simp
    qed
  qed
qed

text \<open>
  When the goroutine of a TCP connection ends, for whatever reason other than a panic, the
  connection is closed; a connection from an unknown client is closed with nothing read or
  written. Without duplicate detection the goroutine never blocks for good.
\<close>

theorem connection_closed:
  "case lookup (ipFromAddr remote) of
     None \<Rightarrow> handleConn h lookup ctx remote clock c dd = Done (0, conn_Close c, dd)
   | Some secret \<Rightarrow>
       (case handleConn h lookup ctx remote clock c dd of
          Hangs \<Rightarrow> dd \<noteq> None
        | Crashes \<Rightarrow> True
        | Done (n, c', dd') \<Rightarrow> kClosed c')"
proof (cases "lookup (ipFromAddr remote)")
  case (Some secret)
  have "conn_loop h ctx remote secret clock 0 0 c dd = Hangs \<Longrightarrow> dd \<noteq> None"
    using conn_loop_nodedup by blast
  with Some conn_loop_closes show ?thesis by (force simp: handleConn_def split: task.split)
qed (simp add: handleConn_def)

end
