(* ===== verification/Chap.thy ===== *)
theory Chap
  imports Password
begin

text \<open>
  \<open>crypto/chap.go\<close>: the CHAP-Password value of RFC 2865 section 5.3 and its check.
  The challenge may have any length (CHAP-Challenge attribute).
\<close>

definition CHAPPasswordLength :: nat where [limit_num]: "CHAPPasswordLength = 17"

definition ComputeCHAPResponse :: "byte \<Rightarrow> bytes \<Rightarrow> bytes \<Rightarrow> bytes" where
  "ComputeCHAPResponse chapID password challenge =
     chapID # take 16 (md5_Sum (chapID # password @ challenge))"

definition VerifyCHAPResponse :: "bytes \<Rightarrow> bytes \<Rightarrow> bytes \<Rightarrow> bool" where
  "VerifyCHAPResponse attr password challenge \<longleftrightarrow>
    (if length attr \<noteq> CHAPPasswordLength then False
     else let expected = ComputeCHAPResponse (attr ! 0) password challenge
          in EqualConstantTime (drop 1 attr) (drop 1 expected))"

lemma length_ComputeCHAPResponse [simp]:
  "length (ComputeCHAPResponse i pw ch) = CHAPPasswordLength"
  by (simp add: ComputeCHAPResponse_def limit_num)

text \<open>
  A CHAP-Password value is accepted exactly when it is the value that
  \<open>ComputeCHAPResponse\<close> gives for the identifier in its first octet; in particular
  every computed response is accepted and no value of another length is.
\<close>

theorem chap_verify_iff:
  "VerifyCHAPResponse attr pw ch \<longleftrightarrow> (\<exists>i. attr = ComputeCHAPResponse i pw ch)"
proof
  assume v: "VerifyCHAPResponse attr pw ch"
  then have l: "length attr = 17"
    by (simp add: VerifyCHAPResponse_def limit_num split: if_splits)
  then obtain i rest where a: "attr = i # rest" by (cases attr) auto
  with v l have "rest = drop 1 (ComputeCHAPResponse i pw ch)"
    by (simp add: VerifyCHAPResponse_def limit_num)
  then show "\<exists>i. attr = ComputeCHAPResponse i pw ch"
    by (auto simp: a ComputeCHAPResponse_def)
next
  assume "\<exists>i. attr = ComputeCHAPResponse i pw ch"
  then obtain i where "attr = ComputeCHAPResponse i pw ch" ..
  then show "VerifyCHAPResponse attr pw ch"
    by (simp add: VerifyCHAPResponse_def) (simp add: ComputeCHAPResponse_def)
qed

end
