(* ===== verification/Tunnel.thy ===== *)
theory Tunnel
  imports Password
begin

text \<open>
  \<open>crypto/tunnel.go\<close> and the key transport half of \<open>crypto/mppe.go\<close>: the salted
  MD5-feedback encryption of Tunnel-Password (RFC 2868 section 3.5) and of the MS-MPPE
  keys (RFC 2548 section 3.3), and the tag prefix of tunnel attributes. The outcomes of
  the two \<open>rand.Read\<close> calls are arguments: the 2 salt octets and the padding.
\<close>

section \<open>Salted encryption\<close>

definition tunnelPasswordMaxLen :: nat where [limit_num]: "tunnelPasswordMaxLen = 239"
definition mppeKeyMaxLen :: nat where [limit_num]: "mppeKeyMaxLen = 239"

definition saltedPaddingLen :: "nat \<Rightarrow> nat" where
  "saltedPaddingLen passwordLen =
    (let plaintextLen = 1 + passwordLen;
         padded = ((plaintextLen + 15) div 16) * 16
     in padded - plaintextLen)"

text \<open>The loops over the blocks after the first: \<open>c(i) = p(i) XOR MD5(secret + c(i-1))\<close>.\<close>

function salted_encrypt_rest :: "bytes \<Rightarrow> bytes \<Rightarrow> bytes \<Rightarrow> bytes" where
  "salted_encrypt_rest secret prev_c plaintext =
    (if plaintext = [] then []
     else let prev = md5_Sum (secret @ prev_c);
              c = xor_bytes (take 16 plaintext) prev
          in c @ salted_encrypt_rest secret c (drop 16 plaintext))"
  by pat_completeness auto
termination by (relation "measure (\<lambda>(s, prev, p). length p)") auto

function salted_decrypt_rest :: "bytes \<Rightarrow> bytes \<Rightarrow> bytes \<Rightarrow> bytes" where
  "salted_decrypt_rest secret prev_c body =
    (if body = [] then []
     else let prev = md5_Sum (secret @ prev_c)
          in xor_bytes (take 16 body) prev @
             salted_decrypt_rest secret (take 16 body) (drop 16 body))"
  by pat_completeness auto
termination by (relation "measure (\<lambda>(s, prev, c). length c)") auto

declare salted_encrypt_rest.simps [simp del] salted_decrypt_rest.simps [simp del]

interpretation salted: feedback_cipher "\<lambda>prev. md5_Sum (secret @ prev)"
  "salted_encrypt_rest secret" "salted_decrypt_rest secret" for secret
proof unfold_locales
  fix prev p c
  show "salted_encrypt_rest secret prev p = (if p = [] then []
      else let c = xor_bytes (take 16 p) (md5_Sum (secret @ prev))
           in c @ salted_encrypt_rest secret c (drop 16 p))"
    by (subst salted_encrypt_rest.simps) (simp add: Let_def)
  show "salted_decrypt_rest secret prev c = (if c = [] then []
      else xor_bytes (take 16 c) (md5_Sum (secret @ prev)) @
           salted_decrypt_rest secret (take 16 c) (drop 16 c))"
    by (subst salted_decrypt_rest.simps) (simp add: Let_def)
qed simp

text \<open>
  The block loops index whole blocks of 16, so a plaintext that is not a multiple of
  16 octets panics (\<open>plaintext[i+j]\<close> out of range).
\<close>

definition encryptSaltedPasswordWithPadding ::
  "bytes \<Rightarrow> bytes \<Rightarrow> bytes \<Rightarrow> bytes \<Rightarrow> bytes \<Rightarrow> bytes res" where
  "encryptSaltedPasswordWithPadding payload requestAuth secret salt padding =
    (let paddedLen = 1 + length payload + length padding;
         plaintext = word_of_nat (length payload) # payload @ padding
     in if paddedLen mod 16 \<noteq> 0 then Inl GoPanic
        else let prev = md5_Sum (secret @ requestAuth @ salt);
                 c1 = xor_bytes (take 16 plaintext) prev
             in Inr (salt @ c1 @ salted_encrypt_rest secret c1 (drop 16 plaintext)))"

text \<open>\<open>pad_rnd\<close> is the outcome of filling \<open>saltedPaddingLen\<close> octets; on an error the padding is empty.\<close>

definition encryptSaltedPassword ::
  "bytes \<Rightarrow> bytes \<Rightarrow> bytes \<Rightarrow> bytes \<Rightarrow> bytes res \<Rightarrow> bytes res" where
  "encryptSaltedPassword password requestAuth secret salt pad_rnd =
    (let padding = (case pad_rnd of Inl e \<Rightarrow> []
                    | Inr r \<Rightarrow> take (saltedPaddingLen (length password)) r)
     in encryptSaltedPasswordWithPadding password requestAuth secret salt padding)"

definition EncryptTunnelPassword ::
  "bytes \<Rightarrow> bytes \<Rightarrow> bytes \<Rightarrow> bytes res \<Rightarrow> bytes res \<Rightarrow> bytes res" where
  "EncryptTunnelPassword password requestAuth secret salt_rnd pad_rnd =
    (if length secret = 0 then Inl ErrSecretEmpty
     else if length password > tunnelPasswordMaxLen then Inl ErrPasswordTooLong
     else case salt_rnd of Inl e \<Rightarrow> Inl e
       | Inr salt \<Rightarrow> encryptSaltedPassword password requestAuth secret
                       (salt[0 := (salt ! 0) OR 0x80]) pad_rnd)"

definition EncryptMPPEKey ::
  "bytes \<Rightarrow> bytes \<Rightarrow> bytes \<Rightarrow> bytes res \<Rightarrow> bytes res \<Rightarrow> bytes res" where
  "EncryptMPPEKey key requestAuth secret salt_rnd pad_rnd =
    (if length secret = 0 then Inl ErrSecretEmpty
     else if length key > mppeKeyMaxLen then Inl ErrInvalidAttribute
     else case salt_rnd of Inl e \<Rightarrow> Inl e
       | Inr salt \<Rightarrow> encryptSaltedPassword key requestAuth secret
                       (salt[0 := (salt ! 0) OR 0x80]) pad_rnd)"

definition decryptSaltedAttribute :: "bytes \<Rightarrow> bytes \<Rightarrow> bytes \<Rightarrow> bytes res" where
  "decryptSaltedAttribute value requestAuth secret =
    (if length secret = 0 then Inl ErrSecretEmpty
     else if length value < 3 then Inl ErrInvalidAttribute
     else let salt = take 2 value; body = drop 2 value in
       if length body = 0 \<or> length body mod 16 \<noteq> 0 then Inl ErrInvalidAttribute
       else let prev = md5_Sum (secret @ requestAuth @ salt);
                plaintext = xor_bytes (take 16 body) prev @
                  salted_decrypt_rest secret (take 16 body) (drop 16 body);
                dataLen = unat (plaintext ! 0)
            in if dataLen > length plaintext - 1 then Inl ErrInvalidAttribute
               else Inr (slice 1 (1 + dataLen) plaintext))"

definition DecryptTunnelPassword :: "bytes \<Rightarrow> bytes \<Rightarrow> bytes \<Rightarrow> bytes res" where
  "DecryptTunnelPassword value requestAuth secret = decryptSaltedAttribute value requestAuth secret"

definition DecryptMPPEKey :: "bytes \<Rightarrow> bytes \<Rightarrow> bytes \<Rightarrow> bytes res" where
  "DecryptMPPEKey value requestAuth secret = decryptSaltedAttribute value requestAuth secret"

section \<open>Tags\<close>

definition EncodeTunnelTag :: "byte \<Rightarrow> byte \<times> bool" where
  "EncodeTunnelTag tag =
    (if tag = 0 then (0, False) else if tag > 0x1F then (0, False) else (tag, True))"

definition DecodeTunnelTag :: "bytes \<Rightarrow> byte \<times> bool \<times> bytes" where
  "DecodeTunnelTag value =
    (if length value > 0 \<and> value ! 0 \<ge> 0x01 \<and> value ! 0 \<le> 0x1F
     then (value ! 0, True, drop 1 value) else (0, False, value))"

definition EncodeTunnelInteger :: "byte \<Rightarrow> 32 word \<Rightarrow> bytes" where
  "EncodeTunnelInteger tag n =
    (let out = BE_PutUint32 n; (t, ok) = EncodeTunnelTag tag
     in if ok then [t] @ out else out)"

definition DecodeTunnelInteger :: "bytes \<Rightarrow> (byte \<times> bool \<times> 32 word) res" where
  "DecodeTunnelInteger value =
    (let (t, ht, payload) = DecodeTunnelTag value
     in if length payload \<noteq> 4 then Inl ErrInvalidAttribute
        else Inr (t, ht, BE_Uint32 payload))"

section \<open>Properties\<close>

lemma salted_padding_multiple: "(1 + n + saltedPaddingLen n) mod 16 = 0"
proof -
  have "1 + n \<le> ((1 + n + 15) div 16) * 16" by linarith
  then have "1 + n + saltedPaddingLen n = ((1 + n + 15) div 16) * 16"
    by (simp add: saltedPaddingLen_def Let_def)
  then show ?thesis by simp
qed

lemma saltedPaddingLen_le: "saltedPaddingLen n \<le> 15"
  by (simp add: saltedPaddingLen_def Let_def)

text \<open>Both salted loops are the User-Password chain, seeded with the authenticator and the salt.\<close>

lemma salted_encrypt_rest_chain: "salted_encrypt_rest secret prev p = encrypt_blocks secret prev p"
proof (induction "length p" arbitrary: prev p rule: less_induct)
  case less
  show ?case
  proof (cases "p = []")
    case True
    then show ?thesis by (simp add: salted_encrypt_rest.simps encrypt_blocks.simps)
  next
    case False
    then have "length (drop 16 p) < length p" by simp
    from less.hyps [OF this] False show ?thesis
      by (simp add: salted_encrypt_rest.simps [of _ _ p] encrypt_blocks.simps [of _ _ p] Let_def)
  qed
qed

lemma salted_decrypt_rest_chain: "salted_decrypt_rest secret prev c = decrypt_blocks secret prev c"
proof (induction "length c" arbitrary: prev c rule: less_induct)
  case less
  show ?case
  proof (cases "c = []")
    case True
    then show ?thesis by (simp add: salted_decrypt_rest.simps decrypt_blocks.simps)
  next
    case False
    then have "length (drop 16 c) < length c" by simp
    from less.hyps [OF this] False show ?thesis
      by (simp add: salted_decrypt_rest.simps [of _ _ c] decrypt_blocks.simps [of _ _ c] Let_def)
  qed
qed

lemma salted_first_block:
  "p \<noteq> [] \<Longrightarrow>
   xor_bytes (take 16 p) (md5_Sum (s @ seed)) @
     salted_encrypt_rest s (xor_bytes (take 16 p) (md5_Sum (s @ seed))) (drop 16 p)
   = encrypt_blocks s seed p"
  by (simp add: salted_encrypt_rest_chain encrypt_blocks.simps [of _ _ p] Let_def)

lemma encrypt_salted_shape:
  assumes "(1 + length payload + length padding) mod 16 = 0"
  shows "encryptSaltedPasswordWithPadding payload ra s salt padding =
    Inr (salt @ encrypt_blocks s (ra @ salt) (word_of_nat (length payload) # payload @ padding))"
  using assms salted_first_block [of "word_of_nat (length payload) # payload @ padding" s "ra @ salt"]
  by (simp add: encryptSaltedPasswordWithPadding_def Let_def)

lemma decrypt_salted_shape:
  assumes "s \<noteq> []" "length salt = 2" "body \<noteq> []" "16 dvd length body"
  shows "decryptSaltedAttribute (salt @ body) ra s =
    (let p = decrypt_blocks s (ra @ salt) body; n = unat (p ! 0)
     in if n > length p - 1 then Inl ErrInvalidAttribute else Inr (slice 1 (1 + n) p))"
proof -
  have "decrypt_blocks s (ra @ salt) body = xor_bytes (take 16 body) (md5_Sum (s @ ra @ salt)) @
      salted_decrypt_rest s (take 16 body) (drop 16 body)"
    using assms(3) by (simp add: salted_decrypt_rest_chain decrypt_blocks.simps [of _ _ body])
  moreover have "1 \<le> length body" using assms(3) by (cases body) auto
  ultimately show ?thesis
    using assms by (simp add: decryptSaltedAttribute_def Let_def)
qed

lemma salted_roundtrip:
  assumes "s \<noteq> []" "length salt = 2" "length payload \<le> 239"
    and "length padding = saltedPaddingLen (length payload)"
  shows "\<exists>v. encryptSaltedPasswordWithPadding payload ra s salt padding = Inr v
      \<and> take 2 v = salt \<and> length v = 3 + length payload + length padding
      \<and> decryptSaltedAttribute v ra s = Inr payload"
proof -
  define pt where "pt = (word_of_nat (length payload) :: byte) # payload @ padding"
  define body where "body = encrypt_blocks s (ra @ salt) pt"
  have m: "(1 + length payload + length padding) mod 16 = 0"
    using salted_padding_multiple assms(4) by simp
  then have d: "16 dvd length pt" by (simp add: pt_def mod_eq_0_iff_dvd)
  have l: "length body = length pt" by (simp add: body_def up.length_enc)
  then have ne: "body \<noteq> []" by (auto simp: pt_def)
  have dec: "decrypt_blocks s (ra @ salt) body = pt"
    unfolding body_def by (rule up.dec_enc [OF d])
  have "unat (pt ! 0) = length payload" using assms(3) by (simp add: pt_def)
  then have "decryptSaltedAttribute (salt @ body) ra s = Inr payload"
    using decrypt_salted_shape [OF assms(1,2) ne] d l
    by (simp add: dec Let_def pt_def slice_def)
  then show ?thesis
    using encrypt_salted_shape [OF m, of ra s salt] assms(2) l
    by (simp add: body_def pt_def)
qed

text \<open>
  C27: RFC 2868 section 3.5 and RFC 2548 section 3.3: whatever the random salt and padding,
  a tunnel password or MPPE key of at most 239 octets encrypts to a value that fits an attribute,
  whose first octet has its top bit set, and that decrypts to exactly the password or key.
\<close>

theorem tunnel_password_roundtrip:
  assumes "secret \<noteq> []" and "length pw \<le> 239"
    and "length salt = 2" and "length pad = saltedPaddingLen (length pw)"
  shows "\<exists>v. EncryptTunnelPassword pw ra secret (Inr salt) (Inr pad) = Inr v
      \<and> EncryptMPPEKey pw ra secret (Inr salt) (Inr pad) = Inr v
      \<and> length v \<le> 242 \<and> bit (v ! 0) 7
      \<and> DecryptTunnelPassword v ra secret = Inr pw \<and> DecryptMPPEKey v ra secret = Inr pw"
proof -
  let ?salt = "salt[0 := (salt ! 0) OR 0x80]"
  have "length ?salt = 2" using assms(3) by simp
  from salted_roundtrip [OF assms(1) this assms(2,4)] obtain v
    where e: "encryptSaltedPasswordWithPadding pw ra secret ?salt pad = Inr v"
      and t: "take 2 v = ?salt" and l: "length v = 3 + length pw + length pad"
      and d: "decryptSaltedAttribute v ra secret = Inr pw" by blast
  have "1 + length pw + length pad \<le> 240"
    using salted_padding_multiple [of "length pw"] saltedPaddingLen_le [of "length pw"] assms(2,4)
    by presburger
  moreover have "v ! 0 = ?salt ! 0" using t by (metis nth_take zero_less_numeral)
  then have "bit (v ! 0) 7" using assms(3) by (simp add: bit_simps)
  moreover have "encryptSaltedPassword pw ra secret ?salt (Inr pad) = Inr v"
    using e assms(4) by (simp add: encryptSaltedPassword_def)
  ultimately show ?thesis
    using assms(1,2) d l
    by (simp add: EncryptTunnelPassword_def EncryptMPPEKey_def DecryptTunnelPassword_def
        DecryptMPPEKey_def limit_num)
qed

theorem tunnel_password_roundtrip_witness:
  "\<exists>v. EncryptTunnelPassword [1, 2, 3] (replicate 16 9) [0x73] (Inr [5, 6]) (Inr (replicate 12 4)) = Inr v
     \<and> DecryptTunnelPassword v (replicate 16 9) [0x73] = Inr [1, 2, 3]"
  using tunnel_password_roundtrip [of "[0x73]" "[1, 2, 3]" "[5, 6]" "replicate 12 4" "replicate 16 9"]
  by (auto simp: saltedPaddingLen_def)

text \<open>
  RFC 2868 section 3.1: an integer tagged 1 to 31 decodes to its tag and value. Without a
  tag (0, or out of range) it decodes to its value, except that one whose top octet is 1 to 31
  is read as tagged and refused: the ambiguity the code documents, exactly delimited.
\<close>

theorem tunnel_integer_roundtrip:
  "DecodeTunnelInteger (EncodeTunnelInteger tag n) =
    (if 1 \<le> tag \<and> tag \<le> 0x1F then Inr (tag, True, n)
     else if 1 \<le> BE_PutUint32 n ! 0 \<and> BE_PutUint32 n ! 0 \<le> 0x1F then Inl ErrInvalidAttribute
     else Inr (0, False, n))"
proof (cases "1 \<le> tag \<and> tag \<le> 0x1F")
  case True
  then have "EncodeTunnelTag tag = (tag, True)" by (auto simp: EncodeTunnelTag_def)
  with True show ?thesis
    by (simp add: DecodeTunnelInteger_def EncodeTunnelInteger_def DecodeTunnelTag_def)
next
  case False
  have "tag \<noteq> 0 \<Longrightarrow> 1 \<le> tag" by (simp add: word_le_nat_alt unat_gt_0 Suc_le_eq)
  with False have "EncodeTunnelTag tag = (0, False)" by (auto simp: EncodeTunnelTag_def)
  with False show ?thesis
    by (auto simp: DecodeTunnelInteger_def EncodeTunnelInteger_def DecodeTunnelTag_def)
qed

end
