(* ===== verification/EndToEnd.thy ===== *)
theory EndToEnd
  imports Client_Calls Server_Props Chap Tunnel
begin

text \<open>
  Client and server together: the request a client call marshals is the request the server's
  handler sees, and the reply the server marshals is the response the call returns.
\<close>

lemma with_ma_sized: "ma_sized as \<Longrightarrow> ma_sized (with_ma b as)"
  by (auto simp: with_ma_def ma_sized_def NewOctets_def)

text \<open>The server has no duplicate detection, or has not seen the request's key within the lifetime.\<close>

definition fresh_request :: "udp_server \<Rightarrow> nat \<Rightarrow> net_addr \<Rightarrow> byte \<Rightarrow> bool" where
  "fresh_request srv now src i \<longleftrightarrow>
    (case usDedup srv of None \<Rightarrow> True | Some d \<Rightarrow> \<not> fst (dedup_Seen d now (Some src) i))"

lemma serve_one:
  assumes fresh: "fresh_request srv now src (pIdentifier pkt)" and sock: "plain_sock (usListener srv)"
    and u: "Unmarshal empty_packet raw s = (pkt, Inr ())"
    and h: "h sctx \<lparr>rqPacket = pkt, rqSecret = s, rqRemoteAddr = src\<rparr> = Inr (Some reply)"
    and m: "Marshal reply s = Inr out"
  shows "\<exists>srv'. handleOne h srv now sctx raw src s = Done (True, srv')
    \<and> uOut (usListener srv') = uOut (usListener srv) @ [(out, src)]"
proof (cases "usDedup srv")
  case None
  obtain srv' where "udp_dispatch h srv sctx pkt src s = Done srv'"
    "usListener srv' = (usListener srv)\<lparr>uOut := uOut (usListener srv) @ [(out, src)]\<rparr>"
    by (rule dispatch_reply [where h = h and ctx = sctx, OF h m sock])
  with None u show ?thesis by (simp add: handleOne_def)
next
  case (Some d)
  with fresh obtain d1 where d: "dedup_Seen d now (Some src) (pIdentifier pkt) = (False, d1)"
    by (cases "dedup_Seen d now (Some src) (pIdentifier pkt)") (auto simp: fresh_request_def)
  have "plain_sock (usListener (srv\<lparr>usDedup := Some d1\<rparr>))" using sock by simp
  from dispatch_reply [where h = h and ctx = sctx and s = "srv\<lparr>usDedup := Some d1\<rparr>", OF h m this]
  obtain srv' where "udp_dispatch h (srv\<lparr>usDedup := Some d1\<rparr>) sctx pkt src s = Done srv'"
    "usListener srv' = (usListener srv)\<lparr>uOut := uOut (usListener srv) @ [(out, src)]\<rparr>" by auto
  with handleOne_first [OF Some d u, of h sctx] show ?thesis by simp
qed

text \<open>
  The server's half: a marshalled Access-Request reaches the handler as the packet it was, and
  the reply the server sends verifies as the answer to it.
\<close>

lemma received_access:
  assumes "length ra = 16" "ma_sized (arAttributes req)" "Marshal (access_packet req ra i) s = Inr raw"
  shows "Unmarshal empty_packet raw s = (\<lparr>pCode = AccessRequest, pIdentifier = i, pAuthenticator = ra,
    pAttributes = sent_attrs (access_packet req ra i) s\<rparr>, Inr ())"
proof -
  let ?q = "access_packet req ra i"
  have wf: "wf_packet ?q" "ma_sized (pAttributes ?q)"
    using assms(1,2) by (simp_all add: access_packet_def wf_packet_def with_ma_sized)
  have qc: "pCode ?q = AccessRequest" "pIdentifier ?q = i" "pAuthenticator ?q = ra"
    by (simp_all add: access_packet_def)
  have "sent_auth ?q s = ra"
    using code_classes_disjoint(2,3) [of AccessRequest] by (auto simp: sent_auth_def final_auth_def request_auth_def qc)
  with Unmarshal_marshalled [OF wf assms(3), of empty_packet "[]"] show ?thesis by (simp add: qc)
qed

lemma served_access:
  assumes ra: "length ra = 16" and as: "ma_sized (arAttributes req)" "ma_sized attrs"
    and m: "Marshal (access_packet req ra i) s = Inr raw"
    and h: "\<And>rq. pCode (rqPacket rq) = AccessRequest \<Longrightarrow>
      rq = \<lparr>rqPacket = fst (Unmarshal empty_packet raw s), rqSecret = s, rqRemoteAddr = src\<rparr> \<Longrightarrow>
      h sctx rq = Inr (Some (request_ReplyWith rq code attrs))"
    and code: "code \<in> set [AccessAccept, AccessReject, AccessChallenge]"
    and srv: "fresh_request srv now src i" "plain_sock (usListener srv)"
    and p: "p = \<lparr>pCode = code, pIdentifier = i, pAuthenticator = ra, pAttributes = attrs\<rparr>"
    and out: "Marshal p s = Inr out"
  shows "\<exists>srv'. handleOne h srv now sctx raw src s = Done (True, srv')
    \<and> uOut (usListener srv') = uOut (usListener srv) @ [(out, src)]"
    and "VerifyResponse out i ra s =
        Inr \<lparr>pCode = code, pIdentifier = i, pAuthenticator = sent_auth p s, pAttributes = sent_attrs p s\<rparr>"
proof -
  let ?pkt = "\<lparr>pCode = AccessRequest, pIdentifier = i, pAuthenticator = ra,
    pAttributes = sent_attrs (access_packet req ra i) s\<rparr>"
  note u = received_access [OF ra as(1) m]
  have wfp: "wf_packet p" and szp: "ma_sized (pAttributes p)" using ra as by (simp_all add: p wf_packet_def)
  have hp: "h sctx \<lparr>rqPacket = ?pkt, rqSecret = s, rqRemoteAddr = src\<rparr> = Inr (Some p)"
    by (subst h) (simp_all add: u p request_ReplyWith_def request_Reply_def)
  have rc: "isResponseCode (pCode p)" using code by (auto simp: p isResponseCode_def)
  show "VerifyResponse out i ra s =
      Inr \<lparr>pCode = code, pIdentifier = i, pAuthenticator = sent_auth p s, pAttributes = sent_attrs p s\<rparr>"
    using verify_response_complete [OF wfp szp rc out, of "[]"] by (simp add: p)
  have "fresh_request srv now src (pIdentifier ?pkt)" using srv(1) by simp
  from serve_one [where h = h and sctx = sctx and src = src, OF this srv(2) u hp out] show
    "\<exists>srv'. handleOne h srv now sctx raw src s = Done (True, srv')
      \<and> uOut (usListener srv') = uOut (usListener srv) @ [(out, src)]" .
qed

text \<open>The client's half: a reply that verifies ends the call at its first attempt.\<close>

lemma access_answered:
  assumes pool: "clPool c = i # rest" "length (clPool c) \<le> 256" and live: "\<not> ceCanceled env"
    and build: "build_access (clSecret c) (ceRand env) req i = Inr (raw, ra)"
    and v: "VerifyResponse out i ra (clSecret c) = Inr pkt"
    and code: "pCode pkt \<in> set [AccessAccept, AccessReject, AccessChallenge]"
    and rep: "aeReply (ceAttempt env (applyDefaultTimeout c (ceNow env) ctx) 0) = Inr out"
  shows "\<exists>evs. Authenticate c env ctx req = Some (Inr (to_response pkt), evs, c\<lparr>clPool := rest @ [i]\<rparr>)"
  unfolding Authenticate_run
  by (rule run_call_delivers [where k = 0 and build = "build_access (clSecret c) (ceRand env) req", OF pool live build])
     (use rep v code in \<open>auto simp: attempt_of_def Attempts_pos\<close>)

lemma sent_attrs_reply:
  "pCode p \<noteq> AccessRequest \<Longrightarrow>
   list_all2 (\<lambda>a a'. aType a' = aType a \<and> (a' = a \<or> aType a = AttrMessageAuthenticator)) (pAttributes p) (sent_attrs p s)"
  by (auto simp: sent_attrs_def sealed_attrs_def list_all2_conv_all_nth seal_def set_ma_def is_ma_def)



end
