(* ===== verification/Server_Replies.thy ===== *)
theory Server_Replies
  imports Server_Props
begin

text \<open>
  Where the datagrams a server sends come from, under any interleaving of its goroutines
  (\<open>srv_step\<close> of \<open>Server_Props\<close>): the entries of the duplicate detector keep their key for
  life, so a cached reply only goes to the address it was computed for.
\<close>

section \<open>Keys of entries\<close>

lemma dedupKey_inject:
  assumes "dedupKey (Some a) i = dedupKey (Some b) j"
  shows "i = j" "take 128 (addr_String a) = take 128 (addr_String b)"
proof -
  have k: "dedupKey (Some x) y = take 128 (addr_String x) @ [CHR 0x00, char_of (unat y)]" for x y
    by (simp add: dedupKey_def limit_num Let_def)
  have "unat i = unat j" and "take 128 (addr_String a) = take 128 (addr_String b)"
    using assms unfolding k by simp_all
  then show "i = j" "take 128 (addr_String a) = take 128 (addr_String b)" by (simp_all add: word_unat_eq_iff)
qed

text \<open>\<open>keys\<close> names the key each entry of the heap was made for.\<close>

definition keyed :: "string list \<Rightarrow> deduplicator \<Rightarrow> bool" where
  "keyed keys d \<longleftrightarrow> length keys = length (ddHeap d) \<and> (\<forall>(k, r) \<in> set (ddEntries d). r < length keys \<and> keys ! r = k)"

lemma keyed_lookup: "keyed keys d \<Longrightarrow> map_of (ddEntries d) k = Some r \<Longrightarrow> r < length keys \<and> keys ! r = k"
  by (auto simp: keyed_def dest!: map_of_SomeD)

lemma keyed_evict: "keyed keys d \<Longrightarrow> keyed keys (evictExpiredLocked d now)"
  by (auto simp: keyed_def evictExpiredLocked_def)

lemma keyed_Store: "keyed keys d \<Longrightarrow> keyed keys (dedup_Store d a i out)"
  by (auto simp: keyed_def dedup_Store_def split: option.split)

lemma Store_reply:
  assumes "r < length (ddHeap d)" "deReply (ddHeap (dedup_Store d a i out) ! r) = Some b"
  shows "map_of (ddEntries d) (dedupKey a i) = Some r \<and> b = out \<or> deReply (ddHeap d ! r) = Some b"
proof (cases "map_of (ddEntries d) (dedupKey a i)")
  case (Some x)
  with assms show ?thesis by (cases "x = r") (auto simp: dedup_Store_def split: if_splits)
qed (use assms in \<open>simp add: dedup_Store_def\<close>)

lemma close_refs_reply: "map deReply (close_refs rs h) = map deReply h"
proof (induction rs arbitrary: h)
  case (Cons r rs)
  have "map deReply (h[r := (h ! r)\<lparr>deDone := True\<rparr>]) = map deReply h"
    using list_update_id [of "map deReply h" r] by (cases "r < length h") (simp_all add: map_update list_update_beyond)
  with Cons show ?case by simp
qed simp

lemma evict_replies: "map deReply (ddHeap (evictExpiredLocked d now)) = map deReply (ddHeap d)"
  by (simp add: evictExpiredLocked_def close_refs_reply)

text \<open>The first sighting of a key adds an entry for it, without a reply.\<close>

lemma Seen_first_keyed:
  assumes "keyed keys d" "dedup_Seen d now a i = (False, d')"
  shows "keyed (keys @ [dedupKey a i]) d'" "map deReply (ddHeap d') = map deReply (ddHeap d) @ [None]"
proof -
  let ?d = "evictExpiredLocked d now" and ?k = "dedupKey a i"
  have d': "d' = ?d\<lparr>ddEntries := AList.update ?k (length (ddHeap ?d)) (ddEntries ?d),
      ddHeap := ddHeap ?d @ [\<lparr>deReply = None, deDone = False, deExpires = now + unat (ddTtl ?d)\<rparr>]\<rparr>"
    using assms(2) by (auto simp: dedup_Seen_def Let_def split: option.splits)
  have k: "keyed keys ?d" using assms(1) by (rule keyed_evict)
  have "set (AList.update ?k n xs) \<subseteq> insert (?k, n) (set xs)" for n and xs :: "(string \<times> nat) list"
    by (induction xs) auto
  then show "keyed (keys @ [?k]) d'"
    using k unfolding keyed_def d' by (fastforce simp: nth_append)
  show "map deReply (ddHeap d') = map deReply (ddHeap d) @ [None]"
    by (simp add: d' evict_replies)
qed

lemma Seen_duplicate_evict: "dedup_Seen d now a i = (True, d') \<Longrightarrow> d' = evictExpiredLocked d now"
  by (auto simp: dedup_Seen_def Let_def split: option.splits)

section \<open>Origins\<close>

text \<open>
  \<open>b\<close> is a reply computed for a request with the key \<open>k\<close>: at some earlier time a goroutine
  was handling a request accepted under that key, and \<open>b\<close> is what its handler's reply
  marshals to with the secret the request was accepted with.
\<close>

definition computed_for :: "duration \<Rightarrow> srv_state \<Rightarrow> string \<Rightarrow> bytes \<Rightarrow> bool" where
  "computed_for ttl s k b \<longleftrightarrow> (\<exists>s0 pkt src secret p. srv_reachable ttl s0 \<and> srv_step\<^sup>*\<^sup>* s0 s
     \<and> (pkt, src, secret) \<in> set (svPending s0) \<and> k = dedupKey (Some src) (pIdentifier pkt)
     \<and> Marshal p secret = Inr b)"

lemma computed_for_step: "computed_for ttl s k b \<Longrightarrow> srv_step s s' \<Longrightarrow> computed_for ttl s' k b"
  unfolding computed_for_def by (blast intro: rtranclp.rtrancl_into_rtrancl)

text \<open>The datagrams sent or about to be.\<close>

definition departing :: "srv_state \<Rightarrow> (bytes \<times> net_addr) set" where
  "departing s = set (svOut s) \<union> set (svSending s)"

definition origin_inv :: "duration \<Rightarrow> string list \<Rightarrow> srv_state \<Rightarrow> bool" where
  "origin_inv ttl keys s \<longleftrightarrow> keyed keys (svDedup s)
     \<and> (\<forall>r b. r < length keys \<and> map deReply (ddHeap (svDedup s)) ! r = Some b \<longrightarrow> computed_for ttl s (keys ! r) b)
     \<and> (\<forall>r src. (r, src) \<in> set (svWaiting s) \<longrightarrow> r < length keys \<and> (\<exists>i. keys ! r = dedupKey (Some src) i))
     \<and> (\<forall>b dst. (b, dst) \<in> departing s \<longrightarrow> (\<exists>i. computed_for ttl s (dedupKey (Some dst) i) b))"

lemma origin_inv_keep:
  assumes "origin_inv ttl keys s" "srv_step s s'" "keyed keys (svDedup s')"
    and "map deReply (ddHeap (svDedup s')) = map deReply (ddHeap (svDedup s))"
    and "\<forall>r src. (r, src) \<in> set (svWaiting s') \<longrightarrow> r < length keys \<and> (\<exists>i. keys ! r = dedupKey (Some src) i)"
    and "\<forall>b dst. (b, dst) \<in> departing s' \<longrightarrow>
      (b, dst) \<in> departing s \<or> (\<exists>i. computed_for ttl s (dedupKey (Some dst) i) b)"
  shows "origin_inv ttl keys s'"
  using assms computed_for_step [OF _ assms(2), of ttl] unfolding origin_inv_def by metis

text \<open>A first sighting adds a key; storing a reply files it under its own key.\<close>

lemma origin_first:
  assumes inv: "origin_inv ttl keys s" and st: "srv_step s s'"
    and d: "dedup_Seen (svDedup s) now (Some src) i = (False, d)"
    and s': "svDedup s' = d" "svWaiting s' = svWaiting s" "departing s' = departing s"
  shows "origin_inv ttl (keys @ [dedupKey (Some src) i]) s'"
proof -
  note k = inv [unfolded origin_inv_def]
  have kd: "keyed keys (svDedup s)" using k by blast
  note f = Seen_first_keyed [OF kd d]
  have len: "length (map deReply (ddHeap (svDedup s))) = length keys" using kd by (simp add: keyed_def)
  let ?keys = "keys @ [dedupKey (Some src) i]"
  have "computed_for ttl s' (?keys ! r) b"
    if "r < length ?keys" "map deReply (ddHeap d) ! r = Some b" for r b
  proof (cases "r < length keys")
    case True
    with that(2) len have "map deReply (ddHeap (svDedup s)) ! r = Some b" by (simp only: f(2) nth_append if_True)
    with k True computed_for_step [OF _ st] show ?thesis by (simp add: nth_append)
  next
    case False
    with that(1) len have "r = length (map deReply (ddHeap (svDedup s)))" by simp
    with that(2) show ?thesis by (simp add: f(2) nth_append)
  qed
  moreover have "\<exists>i. computed_for ttl s' (dedupKey (Some dst) i) b" if "(b, dst) \<in> departing s" for b dst
    using k that computed_for_step [OF _ st] by blast
  moreover have "r < length ?keys \<and> (\<exists>i. ?keys ! r = dedupKey (Some x) i)" if "(r, x) \<in> set (svWaiting s)" for r x
    using k that by (fastforce simp: nth_append)
  ultimately show ?thesis using f(1) unfolding origin_inv_def s' by simp
qed

lemma stored_origin:
  assumes inv: "origin_inv ttl keys s" and st: "srv_step s s'" and new: "computed_for ttl s' (dedupKey (Some src) i) out"
    and r: "r < length keys" "map deReply (ddHeap (dedup_Store (svDedup s) (Some src) i out)) ! r = Some b"
  shows "computed_for ttl s' (keys ! r) b"
proof -
  let ?k = "dedupKey (Some src) i" and ?d = "dedup_Store (svDedup s) (Some src) i out"
  note k = inv [unfolded origin_inv_def]
  have kd: "keyed keys ?d" using k keyed_Store by blast
  have len: "length (ddHeap ?d) = length (ddHeap (svDedup s))" "length keys = length (ddHeap (svDedup s))"
    using k kd by (simp_all add: keyed_def)
  show ?thesis
  proof (cases "map_of (ddEntries (svDedup s)) ?k = Some r \<and> b = out")
    case True
    then have "keys ! r = ?k" using keyed_lookup k by blast
    with True new show ?thesis by simp
  next
    case False
    then have "map deReply (ddHeap (svDedup s)) ! r = Some b"
      using r len Store_reply [of r "svDedup s" "Some src" i out b] by auto
    with k r(1) computed_for_step [OF _ st] show ?thesis by blast
  qed
qed

lemma origin_reply:
  assumes inv: "origin_inv ttl keys s" and st: "srv_step s s'" and new: "computed_for ttl s' (dedupKey (Some src) i) out"
    and s': "svDedup s' = dedup_Store (svDedup s) (Some src) i out" "svWaiting s' = svWaiting s"
      "departing s' = insert (out, src) (departing s)"
  shows "origin_inv ttl keys s'"
proof -
  note k = inv [unfolded origin_inv_def]
  have "\<exists>i. computed_for ttl s' (dedupKey (Some dst) i) b" if "(b, dst) \<in> departing s'" for b dst
  proof (cases "(b, dst) \<in> departing s")
    case True
    with k computed_for_step [OF _ st] show ?thesis by blast
  next
    case False
    with that new s'(3) show ?thesis by auto
  qed
  moreover have "keyed keys (svDedup s')" using k keyed_Store unfolding s'(1) by blast
  ultimately show ?thesis using k stored_origin [OF inv st new] unfolding origin_inv_def s'(1,2) by blast
qed

lemma waited_origin:
  assumes inv: "origin_inv ttl keys s" and w: "(r, src) \<in> set (svWaiting s)" "lookup_wait (svDedup s) r = Some (Some b)"
  shows "\<exists>i. computed_for ttl s (dedupKey (Some src) i) b"
proof -
  note k = inv [unfolded origin_inv_def]
  from k w(1) obtain i where r: "r < length keys" "keys ! r = dedupKey (Some src) i" by blast
  have "map deReply (ddHeap (svDedup s)) ! r = Some b"
    using w(2) r(1) k by (auto simp: lookup_wait_def keyed_def split: if_splits)
  with k r show ?thesis by metis
qed

lemma origin_inv_step:
  assumes "srv_reachable ttl s" "srv_step s s'" "origin_inv ttl keys s"
  shows "\<exists>keys'. origin_inv ttl keys' s'"
proof -
  note k = assms(3) [unfolded origin_inv_def]
  note keep = origin_inv_keep [OF assms(3,2)]
  from assms(2) show ?thesis
  proof (cases rule: srv_step.cases)
    case (first pkt src secret t d)
    then show ?thesis using origin_first [OF assms(3,2) first(3)] by (auto simp: departing_def)
  next
    case (duplicate pkt src secret t d)
    from Seen_duplicate_evict [OF duplicate(3)] show ?thesis
      using k keyed_evict by (intro exI [of _ keys] keep) (auto simp: duplicate(1) evict_replies departing_def)
  next
    case (lookup_hit src i r)
    then have "r < length keys" "keys ! r = dedupKey (Some src) i"
      using keyed_lookup k by (auto simp: lookup_ref_def)
    then show ?thesis using k by (intro exI [of _ keys] keep) (auto simp: lookup_hit(1) departing_def)
  next
    case (answer r src cached)
    then show ?thesis using k waited_origin [OF assms(3) answer(2)]
      by (intro exI [of _ keys] keep) (auto simp: departing_def dest: set_remove1_subset [THEN subsetD] split: option.splits)
  next
    case (reply pkt src secret p out)
    have "computed_for ttl s' (dedupKey (Some src) (pIdentifier pkt)) out"
      unfolding computed_for_def using assms(1,2) reply(2,3) by blast
    from origin_reply [OF assms(3,2) this] show ?thesis by (auto simp: reply(1) departing_def)
  next
    case (send out src)
    then show ?thesis using k
      by (intro exI [of _ keys] keep) (auto simp: departing_def dest: set_remove1_subset [THEN subsetD])
  next
    case cleanup
    then show ?thesis using k keyed_evict
      by (intro exI [of _ keys] keep) (auto simp: dedup_Cleanup_def evict_replies departing_def)
  qed (use k in \<open>intro exI [of _ keys] keep; auto simp: departing_def\<close>)+
qed

lemma origin_inv_reachable:
  "srv_reachable ttl s \<Longrightarrow> \<exists>keys. origin_inv ttl keys s"
proof (induction rule: rtranclp_induct)
  case base
  show ?case
    by (intro exI [of _ "[]"]) (simp add: origin_inv_def departing_def srv_init_def keyed_def NewDeduplicator_def)
next
  case (step s s')
  then show ?case using origin_inv_step by blast
qed

text \<open>A goroutine only handles what was unmarshalled with the secret it holds.\<close>

definition received :: "srv_state \<Rightarrow> packet \<Rightarrow> bytes \<Rightarrow> bool" where
  "received s pkt secret \<longleftrightarrow> (\<exists>src t. (pkt, src, secret, t) \<in> set (svStamped s))
     \<or> (\<exists>src t l. (pkt, src, secret, t, l) \<in> set (svAdmitted s)) \<or> (\<exists>src. (pkt, src, secret) \<in> set (svPending s))"

lemma received_step:
  assumes "srv_step s s'" "received s' pkt secret"
  shows "received s pkt secret \<or> (\<exists>raw. Unmarshal empty_packet raw secret = (pkt, Inr ()))"
  using assms
  by (cases rule: srv_step.cases) (auto simp: received_def dest: set_remove1_subset [THEN subsetD])

lemma received_unmarshalled:
  "srv_reachable ttl s \<Longrightarrow> received s pkt secret \<Longrightarrow> \<exists>raw. Unmarshal empty_packet raw secret = (pkt, Inr ())"
proof (induction rule: rtranclp_induct)
  case base
  then show ?case by (simp add: srv_init_def received_def)
next
  case (step s s')
  from received_step [OF step.hyps(2) step.prems] step.IH show ?case by blast
qed

text \<open>
  C10: However the goroutines of the server interleave, and whatever entries expire, are
  evicted or are waited for meanwhile, every datagram the server sends is a reply that some
  handler run gave, marshalled with the secret its request was accepted with, and it goes to the
  address that request came from (up to the 128 octets of address text the detector keeps).
\<close>

theorem replies_reach_their_client:
  assumes "srv_reachable ttl s" and "(b, dst) \<in> set (svOut s)"
  shows "\<exists>s0 pkt src secret p raw. srv_reachable ttl s0 \<and> srv_step\<^sup>*\<^sup>* s0 s
    \<and> (pkt, src, secret) \<in> set (svPending s0) \<and> Unmarshal empty_packet raw secret = (pkt, Inr ())
    \<and> Marshal p secret = Inr b \<and> take 128 (addr_String src) = take 128 (addr_String dst)"
proof -
  from origin_inv_reachable [OF assms(1)] assms(2) obtain i where
    "computed_for ttl s (dedupKey (Some dst) i) b" unfolding origin_inv_def departing_def by blast
  then obtain s0 pkt src secret p where o: "srv_reachable ttl s0" "srv_step\<^sup>*\<^sup>* s0 s"
    "(pkt, src, secret) \<in> set (svPending s0)" "dedupKey (Some dst) i = dedupKey (Some src) (pIdentifier pkt)"
    "Marshal p secret = Inr b" unfolding computed_for_def by blast
  then have "received s0 pkt secret" by (auto simp: received_def)
  with o dedupKey_inject(2) [OF o(4)] received_unmarshalled [OF o(1)] show ?thesis by metis
qed

theorem replies_reach_their_client_witness:
  "\<exists>s b src secret p. srv_reachable 0 s \<and> svOut s = [(b, demo_addr)] \<and> Marshal p secret = Inr b
     \<and> take 128 (addr_String src) = take 128 (addr_String demo_addr)"
proof -
  let ?p = "\<lparr>pCode = 1, pIdentifier = 9, pAuthenticator = replicate 16 5, pAttributes = []\<rparr>"
  let ?i = "srv_init 0" and ?q = "(?p, demo_addr, [0x73] :: bytes)"
  obtain d1 where d1: "dedup_Seen (NewDeduplicator 0) 0 (Some demo_addr) 9 = (False, d1)"
    using new_dedup_facts(3) by blast
  obtain out where out: "Marshal \<lparr>pCode = AccessAccept, pIdentifier = 9, pAuthenticator = replicate 16 5,
      pAttributes = []\<rparr> [0x73] = Inr out" using demo_marshal by blast
  let ?s1 = "?i\<lparr>svStamped := [(?p, demo_addr, [0x73], 0)]\<rparr>"
  let ?s2 = "?i\<lparr>svDedup := d1, svAdmitted := [(?p, demo_addr, [0x73], 0, 0)]\<rparr>"
  have 1: "srv_step ?i ?s1" using srv_step.stamp [OF demo_unmarshal, of ?i demo_addr] by (simp add: srv_init_def)
  have 2: "srv_step ?s1 ?s2"
    using srv_step.first [of ?p demo_addr "[0x73]" 0 ?s1 d1] d1 by (simp add: srv_init_def)
  obtain s3 where s3: "srv_step ?s2 s3" "?q \<in> set (svPending s3)" "svSending s3 = []" "svOut s3 = []"
    using srv_step.start [of ?p demo_addr "[0x73]" 0 0 ?s2] by (fastforce simp: srv_init_def)
  from srv_step.reply [OF s3(2) out] obtain s4 where
    s4: "srv_step s3 s4" "svSending s4 = [(out, demo_addr)]" "svOut s4 = []" by (fastforce simp: s3(3,4))
  have "(out, demo_addr) \<in> set (svSending s4)" by (simp add: s4(2))
  from srv_step.send [OF this] obtain s2 where s2: "srv_step s4 s2" "svOut s2 = [(out, demo_addr)]" by (fastforce simp: s4(3))
  have r: "srv_reachable 0 s2"
    by (rule converse_rtranclp_into_rtranclp [OF 1 converse_rtranclp_into_rtranclp [OF 2 converse_rtranclp_into_rtranclp
        [OF s3(1) converse_rtranclp_into_rtranclp [OF s4(1) r_into_rtranclp [of srv_step, OF s2(1)]]]]])
  have "(out, demo_addr) \<in> set (svOut s2)" by (simp add: s2(2))
  from replies_reach_their_client [OF r this] r s2(2) show ?thesis by blast
qed

section \<open>A late reply\<close>

text \<open>
  The detector does not tell two requests of one key apart: a handler that is still running when
  its entry has expired and the key was seen again stores its reply in the entry of the new
  request, and duplicates of that one are answered with it.
\<close>

lemma late_reply_cached:
  assumes "dedup_wf d" "dedup_Seen d t1 a i = (False, d1)" "t1 + unat (ddTtl d) \<le> t2" "out \<noteq> []"
  shows "\<exists>d2. dedup_Seen d1 t2 a i = (False, d2) \<and> dedup_Lookup (dedup_Store d2 a i out) a i = Some (Some out)"
proof -
  have w1: "dedup_wf d1" using Seen_wf [OF assms(1), of t1 a i] assms(2) by simp
  have "live_until d1 (dedupKey a i) = Some (t1 + unat (ddTtl d))"
    using Seen_live [OF assms(1), of t1 a i "dedupKey a i"] assms(2) by simp
  then have "\<not> fst (dedup_Seen d1 t2 a i)" using Seen_iff [OF w1] assms(3) by simp
  then obtain d2 where d2: "dedup_Seen d1 t2 a i = (False, d2)" by (cases "dedup_Seen d1 t2 a i") auto
  from d2 lookup_first(2) [OF w1 d2 assms(4)] show ?thesis by blast
qed

end
