(* ===== verification/Client_Package.thy ===== *)
theory Client_Package
  imports Client_Calls Transport
begin

text \<open>
  \<open>client/client.go\<close>: the clients an application constructs, a protocol client over a dialled
  UDP or TCP socket. \<open>dial\<close> is the outcome of dialling a network; of the configured jitter it
  matters whether it is zero (\<open>ccJitterZero\<close>) and whether it is positive (\<open>rpJittered\<close>).
  \<open>dflt\<close> is the package-level logger. A run is a sequence of calls on one client, each with its own environment.
\<close>

record client_config =
  ccNetwork :: string
  ccTimeout :: duration
  ccRetransmit :: retransmit_policy
  ccJitterZero :: bool
  ccLogger :: "logger option"

record udp_client =
  ucClient :: client
  ucTransport :: udp_sock
  ucCfg :: client_config

record tcp_client =
  tcClient :: client
  tcTransport :: conn
  tcCfg :: client_config

definition retransmitOrZero :: "client_config \<Rightarrow> retransmit_policy" where
  "retransmitOrZero c =
    (if rpMaxAttempts (ccRetransmit c) = 0 \<and> rpInitial (ccRetransmit c) = 0 \<and>
        rpMax (ccRetransmit c) = 0 \<and> ccJitterZero c
     then DefaultRetransmitPolicy else ccRetransmit c)"

text \<open>The option for a logger, when one is configured.\<close>

abbreviation logger_opt :: "logger option \<Rightarrow> (client \<Rightarrow> client) list" where
  "logger_opt l \<equiv> (case l of None \<Rightarrow> [] | Some x \<Rightarrow> [WithLogger (Some x)])"

definition NewUDPClient :: "(string \<Rightarrow> net_error + udp_sock) \<Rightarrow> logger \<Rightarrow> bytes \<Rightarrow> client_config \<Rightarrow> udp_client res" where
  "NewUDPClient dial dflt secret cfg =
    (let network = (if ccNetwork cfg = [] then ''udp4'' else ccNetwork cfg) in
     case DialUDP (dial network) of Inl e \<Rightarrow> Inl e
     | Inr tr \<Rightarrow>
        (let opts = [WithRetransmitPolicy (retransmitOrZero cfg), WithDefaultTimeout (ccTimeout cfg)] @
           logger_opt (ccLogger cfg)
         in Inr \<lparr>ucClient = NewClient dflt secret opts, ucTransport = tr, ucCfg = cfg\<rparr>))"

definition UDPClient_Transport :: "udp_client \<Rightarrow> udp_sock" where
  "UDPClient_Transport c = ucTransport c"

definition NewTCPClient :: "(string \<Rightarrow> net_error + conn) \<Rightarrow> logger \<Rightarrow> bytes \<Rightarrow> client_config \<Rightarrow> tcp_client res" where
  "NewTCPClient dial dflt secret cfg =
    (let network = (if ccNetwork cfg = [] then ''tcp4'' else ccNetwork cfg) in
     case DialTCP (dial network) of Inl e \<Rightarrow> Inl e
     | Inr tr \<Rightarrow>
        (let opts = [WithRetransmitPolicy \<lparr>rpMaxAttempts = 1, rpInitial = 0, rpMax = 0, rpJittered = False\<rparr>,
                     WithDefaultTimeout (ccTimeout cfg)] @
           logger_opt (ccLogger cfg)
         in Inr \<lparr>tcClient = NewClient dflt secret opts, tcTransport = tr, tcCfg = cfg\<rparr>))"

definition TCPClient_Transport :: "tcp_client \<Rightarrow> conn" where
  "TCPClient_Transport c = tcTransport c"

text \<open>\<open>r\<close>: what closing the socket underneath answers.\<close>

definition UDPClient_Close :: "net_error option \<Rightarrow> udp_client \<Rightarrow> gerror option \<times> udp_client" where
  "UDPClient_Close r c = (let (e, t) = udp_transport_Close r (ucTransport c) in (e, c\<lparr>ucTransport := t\<rparr>))"

definition TCPClient_Close :: "net_error option \<Rightarrow> tcp_client \<Rightarrow> gerror option \<times> tcp_client" where
  "TCPClient_Close r c = (let (e, t) = tcp_transport_Close r (tcTransport c) in (e, c\<lparr>tcTransport := t\<rparr>))"

section \<open>Runs\<close>

inductive client_run :: "client \<Rightarrow> client_event list list \<Rightarrow> client \<Rightarrow> bool" where
  run_none: "client_run c [] c"
| run_call: "client_run c evss c1 \<Longrightarrow> call \<in> set (any_call c1 env ctx ar ac co dc) \<Longrightarrow>
    call = Some (r, evs, c2) \<Longrightarrow> client_run c (evss @ [evs]) c2"

lemma NewClient_two:
  "clPool (NewClient dflt s (WithRetransmitPolicy p # WithDefaultTimeout d # logger_opt l)) = NewIdentifierPool"
  "clRetransmit (NewClient dflt s (WithRetransmitPolicy p # WithDefaultTimeout d # logger_opt l)) = p"
  "clSecret (NewClient dflt s (WithRetransmitPolicy p # WithDefaultTimeout d # logger_opt l)) = s"
  "clDefaultTimeout (NewClient dflt s (WithRetransmitPolicy p # WithDefaultTimeout d # logger_opt l)) = d"
  "clLog (NewClient dflt s (WithRetransmitPolicy p # WithDefaultTimeout d # logger_opt l)) = (case l of None \<Rightarrow> dflt | Some x \<Rightarrow> x)"
  "clPool (NewClient dflt s [WithRetransmitPolicy p, WithDefaultTimeout d]) = NewIdentifierPool"
  "clRetransmit (NewClient dflt s [WithRetransmitPolicy p, WithDefaultTimeout d]) = p"
  "clSecret (NewClient dflt s [WithRetransmitPolicy p, WithDefaultTimeout d]) = s"
  "clDefaultTimeout (NewClient dflt s [WithRetransmitPolicy p, WithDefaultTimeout d]) = d"
  by (simp_all add: NewClient_def WithRetransmitPolicy_def WithDefaultTimeout_def WithLogger_def split: option.split)

lemma call_keeps:
  assumes "call \<in> set (any_call c env ctx ar ac co dc)" "call = Some (r, evs, c')" "length (clPool c) \<le> 256"
  shows "mset (clPool c') = mset (clPool c)" "clRetransmit c' = clRetransmit c" "clSecret c' = clSecret c"
    "clLog c' = clLog c" "length (sends evs) \<le> nat (Attempts (clRetransmit c))"
proof -
  from any_call_run [OF assms(1)] assms(2) obtain build ok where
    run: "run_call c env ctx build ok = Some (r, evs, c')" by auto
  from run_call_client [OF run assms(3)]
  show "mset (clPool c') = mset (clPool c)" "clRetransmit c' = clRetransmit c" "clSecret c' = clSecret c"
    "clLog c' = clLog c" by auto
  from run_call_sends [OF run] show "length (sends evs) \<le> nat (Attempts (clRetransmit c))" by auto
qed

lemma client_run_invariant:
  assumes "client_run c evss c'" "length (clPool c) \<le> 256"
  shows "mset (clPool c') = mset (clPool c) \<and> clRetransmit c' = clRetransmit c \<and> clSecret c' = clSecret c \<and> clLog c' = clLog c
    \<and> (\<forall>evs \<in> set evss. length (sends evs) \<le> nat (Attempts (clRetransmit c)))"
  using assms
proof (induction rule: client_run.induct)
  case (run_call c evss c1 call env ctx ar ac co dc r evs c2)
  then have IH: "mset (clPool c1) = mset (clPool c)" "clRetransmit c1 = clRetransmit c" "clSecret c1 = clSecret c" "clLog c1 = clLog c"
    "\<forall>evs \<in> set evss. length (sends evs) \<le> nat (Attempts (clRetransmit c))" by auto
  then have "length (clPool c1) \<le> 256" using run_call.prems by (metis size_mset)
  from call_keeps [OF run_call.hyps(2,3) this] IH show ?case by auto
qed simp

lemma new_pool_mset: "mset NewIdentifierPool = mset (map word_of_nat [0..<256])"
  by (simp add: NewIdentifierPool_def)


lemma Authenticate_returns:
  "clPool c \<noteq> [] \<Longrightarrow> \<not> ceCanceled env \<Longrightarrow> \<exists>r evs c'. Authenticate c env ctx req = Some (r, evs, c')"
  unfolding Authenticate_run run_call_def acquireID_cases
  by (cases "clPool c") (auto split: sum.split prod.split)

lemma one_call_run:
  assumes "clPool c = NewIdentifierPool"
  shows "\<exists>evs c'. client_run c [evs] c'"
proof -
  let ?env = "demo_env (\<lambda>k. Inl ErrTimeout)" and ?ctx = "\<lparr>cxDeadline = None, cxErr = None\<rparr>"
  have "clPool c \<noteq> []" using assms by (simp add: NewIdentifierPool_def)
  then obtain r evs c' where a: "Authenticate c ?env ?ctx NewAccessRequest = Some (r, evs, c')"
    using Authenticate_returns [of c ?env ?ctx NewAccessRequest] by (auto simp: demo_env_def)
  have "Authenticate c ?env ?ctx NewAccessRequest \<in> set (any_call c ?env ?ctx NewAccessRequest
      NewAccountingRequest NewCoARequest NewDisconnectRequest)" by (simp add: any_call_def)
  from run_call [OF run_none this a] show ?thesis by auto
qed


end
