(* ===== verification/Transport_Props.thy ===== *)
theory Transport_Props
  imports Transport
begin

text \<open>
  Properties of the transports: a byte stream delivers exactly the packets it was fed, however
  the octets were cut into reads (the packet framing is an instance of the interface
  \<open>tlv_codec\<close>); TCP and TLS share one reader; a DTLS record delivers its packet; the UDP
  client returns the first datagram of its server and drops strays; writes are all or nothing
  for the caller.
\<close>

section \<open>Streams\<close>

definition data_only :: "(net_error + bytes) list \<Rightarrow> bool" where
  "data_only rs \<longleftrightarrow> list_all (\<lambda>r. case r of Inl _ \<Rightarrow> False | Inr _ \<Rightarrow> True) rs"

definition stream :: "(net_error + bytes) list \<Rightarrow> bytes" where
  "stream rs = concat (map (\<lambda>r. case r of Inl _ \<Rightarrow> [] | Inr b \<Rightarrow> b) rs)"

lemma data_only_simps [simp]:
  "data_only []" "data_only (Inr b # rs) \<longleftrightarrow> data_only rs" "\<not> data_only (Inl e # rs)"
  by (simp_all add: data_only_def)

lemma stream_simps [simp]:
  "stream [] = []" "stream (Inr b # rs) = b @ stream rs"
  by (simp_all add: stream_def)

lemma io_ReadFull_enough:
  "data_only rs \<Longrightarrow> length acc \<le> k \<Longrightarrow> k \<le> length acc + length (stream rs) \<Longrightarrow>
   \<exists>rs'. io_ReadFull k acc rs = (Inr (acc @ take (k - length acc) (stream rs)), rs')
     \<and> data_only rs' \<and> stream rs' = drop (k - length acc) (stream rs)"
proof (induction rs arbitrary: acc)
  case Nil
  then show ?case by simp
next
  case (Cons r rs)
  then obtain b where r: "r = Inr b" by (cases r) auto
  show ?case
  proof (cases "length acc < k \<and> length b \<le> k - length acc")
    case True
    with Cons r have "\<exists>rs'. io_ReadFull k (acc @ b) rs =
        (Inr ((acc @ b) @ take (k - length (acc @ b)) (stream rs)), rs') \<and> data_only rs'
        \<and> stream rs' = drop (k - length (acc @ b)) (stream rs)"
      by (intro Cons.IH) auto
    with True r show ?thesis by (auto simp: Let_def)
  next
    case False
    with Cons r show ?thesis by (auto simp: Let_def)
  qed
qed

lemma io_ReadFull_short:
  "data_only rs \<Longrightarrow> length acc + length (stream rs) < k \<Longrightarrow>
   \<exists>e. io_ReadFull k acc rs = (Inl e, []) \<and> e \<in> {io_EOF, io_ErrUnexpectedEOF}"
proof (induction rs arbitrary: acc)
  case (Cons r rs)
  then obtain b where r: "r = Inr b" by (cases r) auto
  with Cons.prems Cons.IH [of "acc @ b"] show ?case by (auto simp: Let_def)
qed simp

lemma conn_ReadFull_enough:
  assumes "data_only (kIn c)" "k \<le> length (stream (kIn c))"
  shows "\<exists>c'. conn_ReadFull k c = (Inr (take k (stream (kIn c))), c') \<and> data_only (kIn c')
    \<and> stream (kIn c') = drop k (stream (kIn c)) \<and> kDlErr c' = kDlErr c"
  using io_ReadFull_enough [OF assms(1), of "[]" k] assms(2)
  by (auto simp: conn_ReadFull_def)

lemma mapReadErr_EOF [simp]:
  "mapReadErr io_EOF ctx = ErrConnClosed" "mapReadErr io_ErrUnexpectedEOF ctx = ErrConnClosed"
  by (simp_all add: mapReadErr_def io_EOF_def io_ErrUnexpectedEOF_def)

lemma conn_ReadFull_short:
  assumes "data_only (kIn c)" "length (stream (kIn c)) < k"
  shows "\<exists>e c'. conn_ReadFull k c = (Inl e, c') \<and> mapReadErr e ctx = ErrConnClosed"
  using io_ReadFull_short [OF assms(1), of "[]" k] assms(2)
  by (auto simp: conn_ReadFull_def)

section \<open>Framing as a codec\<close>

definition frame_ok :: "bytes \<Rightarrow> bool" where
  "frame_ok p \<longleftrightarrow> 20 \<le> length p \<and> length p \<le> maxLengthForCode (p ! 0)
     \<and> unat (BE_Uint16 (slice 2 4 p)) = length p"

definition deframe :: "bytes \<Rightarrow> (bytes \<times> bytes) res" where
  "deframe bs =
    (if length bs < 4 then Inl ErrConnClosed
     else case validateRadiusLength (take 4 bs) of Inl e \<Rightarrow> Inl e
     | Inr len \<Rightarrow> if length bs < unat len then Inl ErrConnClosed
                 else Inr (take (unat len) bs, drop (unat len) bs))"

lemma validateRadiusLength_eq:
  "validateRadiusLength h =
    (if unat (BE_Uint16 (slice 2 4 h)) < 20 \<or> unat (BE_Uint16 (slice 2 4 h)) > maxLengthForCode (h ! 0)
     then Inl ErrMalformedPacket else Inr (BE_Uint16 (slice 2 4 h)))"
proof -
  have "(if isAccountingCode x then PacketMaxLengthRFC2866 else PacketMaxLengthRFC2865) = maxLengthForCode x" for x
    by (simp add: isAccountingCode_def maxLengthForCode_def)
  then show ?thesis
    unfolding validateRadiusLength_def Let_def
    by (cases "unat (BE_Uint16 (slice 2 4 h)) < 20")
       (simp_all only: PacketMinLength_def if_True if_False simp_thms)
qed

lemma validate_take4:
  assumes "4 \<le> length bs"
  shows "validateRadiusLength (take 4 bs) =
    (if unat (BE_Uint16 (slice 2 4 bs)) < 20 \<or> unat (BE_Uint16 (slice 2 4 bs)) > maxLengthForCode (bs ! 0)
     then Inl ErrMalformedPacket else Inr (BE_Uint16 (slice 2 4 bs)))"
proof -
  have "slice 2 4 (take 4 bs) = slice 2 4 bs" by (simp add: slice_def drop_take)
  moreover have "take 4 bs ! 0 = bs ! 0" by simp
  ultimately show ?thesis by (simp only: validateRadiusLength_eq)
qed

lemma deframe_iff:
  "deframe bs = Inr (p, rest) \<longleftrightarrow> frame_ok p \<and> bs = p @ rest"
proof
  assume d: "deframe bs = Inr (p, rest)"
  let ?n = "unat (BE_Uint16 (slice 2 4 bs))"
  from d have l: "4 \<le> length bs" by (auto simp: deframe_def split: if_splits)
  from d have n: "20 \<le> ?n" "?n \<le> maxLengthForCode (bs ! 0)" "?n \<le> length bs"
    and p: "p = take ?n bs" and r: "rest = drop ?n bs"
    by (auto simp: deframe_def validate_take4 [OF l] Let_def split: if_splits)
  have "slice 2 4 p = slice 2 4 bs" using n by (simp add: p slice_def drop_take min_def)
  moreover have "p ! 0 = bs ! 0" using n by (simp add: p)
  ultimately show "frame_ok p \<and> bs = p @ rest" using n p r by (simp add: frame_ok_def)
next
  assume a: "frame_ok p \<and> bs = p @ rest"
  then have l: "4 \<le> length bs" "20 \<le> length p" by (auto simp: frame_ok_def)
  have s: "slice 2 4 (p @ rest) = slice 2 4 p" "(p @ rest) ! 0 = p ! 0"
    using l by (auto simp: slice_append_left nth_append)
  from a l show "deframe bs = Inr (p, rest)"
    by (auto simp: deframe_def validate_take4 s frame_ok_def Let_def)
qed

function parse_frames :: "bytes \<Rightarrow> bytes list res" where
  "parse_frames bs =
    (if bs = [] then Inr []
     else case deframe bs of Inl e \<Rightarrow> Inl e
       | Inr (p, rest) \<Rightarrow> (case parse_frames rest of Inl e \<Rightarrow> Inl e | Inr ps \<Rightarrow> Inr (p # ps)))"
  by pat_completeness auto
termination
  by (relation "measure length") (auto simp: deframe_iff frame_ok_def)

declare parse_frames.simps [simp del]

interpretation frames: tlv_codec "\<lambda>p. p" deframe frame_ok parse_frames
  by unfold_locales
     (auto simp: deframe_iff frame_ok_def parse_frames.simps split: sum.split)

section \<open>Reading from a stream\<close>

lemma ReadPacket_deframe:
  assumes "data_only (kIn c)" "kDlErr c = None"
  shows "\<exists>c'. TCPConn_ReadPacket c ctx =
      ((case deframe (stream (kIn c)) of Inl e \<Rightarrow> Inl e | Inr (p, rest) \<Rightarrow> Inr p), c')
    \<and> (case deframe (stream (kIn c)) of Inl e \<Rightarrow> True
       | Inr (p, rest) \<Rightarrow> stream (kIn c') = rest \<and> data_only (kIn c') \<and> kDlErr c' = None)"
proof -
  let ?s = "stream (kIn c)"
  obtain c1 where c1: "TCPConn_applyReadDeadline c ctx = (None, c1)" "kIn c1 = kIn c" "kDlErr c1 = None"
    using assms(2) by (cases "cxDeadline ctx") (auto simp: TCPConn_applyReadDeadline_def)
  show ?thesis
  proof (cases "length ?s < 4")
    case True
    with assms c1 obtain e c2 where "conn_ReadFull 4 c1 = (Inl e, c2)" "mapReadErr e (Some ctx) = ErrConnClosed"
      using conn_ReadFull_short [of c1 4] by fastforce
    with True c1 show ?thesis by (auto simp: TCPConn_ReadPacket_def deframe_def)
  next
    case False
    then have s4: "4 \<le> length ?s" by simp
    from conn_ReadFull_enough [of c1 4] assms c1 s4 obtain c2 where
      c2: "conn_ReadFull 4 c1 = (Inr (take 4 ?s), c2)" "data_only (kIn c2)"
        "stream (kIn c2) = drop 4 ?s" "kDlErr c2 = None" by auto
    have sl: "slice 2 4 (take 4 ?s) = slice 2 4 ?s" "take 4 ?s ! 0 = ?s ! 0"
      by (simp_all add: slice_def drop_take)
    let ?n = "unat (BE_Uint16 (slice 2 4 ?s))"
    have mx: "(if isAccountingCode x then PacketMaxLengthRFC2866 else PacketMaxLengthRFC2865) = maxLengthForCode x" for x
      by (simp add: isAccountingCode_def maxLengthForCode_def)
    have tcp: "TCPConn_ReadPacket c ctx =
        (if ?n < 20 then (Inl ErrMalformedPacket, c2)
         else if ?n > maxLengthForCode (?s ! 0) then (Inl ErrMalformedPacket, c2)
         else (case conn_ReadFull (?n - 4) c2 of
                 (Inl e, c3) \<Rightarrow> (Inl (mapReadErr e (Some ctx)), c3)
               | (Inr payload, c3) \<Rightarrow> (Inr (take 4 ?s @ payload), c3)))"
      unfolding TCPConn_ReadPacket_def Let_def c1(1) prod.case option.case c2(1) sum.case sl mx
        PacketMinLength_def by (rule refl)
    have df: "deframe ?s =
        (if ?n < 20 \<or> ?n > maxLengthForCode (?s ! 0) then Inl ErrMalformedPacket
         else if length ?s < ?n then Inl ErrConnClosed else Inr (take ?n ?s, drop ?n ?s))"
      using False by (auto simp: deframe_def validate_take4 [OF s4] Let_def)
    show ?thesis
    proof (cases "?n < 20 \<or> ?n > maxLengthForCode (?s ! 0)")
      case True
      then show ?thesis by (auto simp: tcp df)
    next
      case bounds: False
      show ?thesis
      proof (cases "length ?s < ?n")
        case True
        have "length (stream (kIn c2)) < ?n - 4" using True bounds s4 c2(3) by simp
        from conn_ReadFull_short [OF c2(2) this] obtain e c3 where
          "conn_ReadFull (?n - 4) c2 = (Inl e, c3)" "mapReadErr e (Some ctx) = ErrConnClosed" by blast
        with True bounds show ?thesis by (auto simp: tcp df)
      next
        case enough: False
        have "?n - 4 \<le> length (stream (kIn c2))" using enough bounds s4 c2(3) by simp
        from conn_ReadFull_enough [OF c2(2) this] c2(3,4) obtain c3 where
          c3: "conn_ReadFull (?n - 4) c2 = (Inr (take (?n - 4) (drop 4 ?s)), c3)" "data_only (kIn c3)"
            "stream (kIn c3) = drop (?n - 4) (drop 4 ?s)" "kDlErr c3 = None"
          by auto
        have "take 4 ?s @ take (?n - 4) (drop 4 ?s) = take ?n ?s"
          using bounds take_add [of 4 "?n - 4" ?s] by simp
        with bounds enough c3 show ?thesis by (auto simp: tcp df)
      qed
    qed
  qed
qed

text \<open>The successive results of reading \<open>n\<close> packets.\<close>

fun read_packets :: "nat \<Rightarrow> go_ctx \<Rightarrow> conn \<Rightarrow> bytes res list" where
  "read_packets 0 ctx c = []"
| "read_packets (Suc n) ctx c =
    (let (r, c') = TCPConn_ReadPacket c ctx in r # read_packets n ctx c')"

text \<open>
  C13: However the octets of a sequence of well-framed packets are cut into reads, a TCP
  connection returns exactly those packets, in order, and then, when the peer closes at a
  packet boundary or in the middle of a packet, \<open>ErrConnClosed\<close>.
\<close>

theorem stream_delivery:
  assumes "data_only (kIn c)" and "kDlErr c = None"
    and "stream (kIn c) = concat ps @ tail" and "\<forall>p \<in> set ps. frame_ok p"
    and "deframe tail = Inl ErrConnClosed"
  shows "read_packets (Suc (length ps)) ctx c = map Inr ps @ [Inl ErrConnClosed]"
  using assms
proof (induction ps arbitrary: c)
  case Nil
  with ReadPacket_deframe [of c ctx] show ?case by (auto split: prod.split)
next
  case (Cons p ps)
  then have "deframe (stream (kIn c)) = Inr (p, concat ps @ tail)"
    using frames.dec_enc [of p "concat ps @ tail"] by simp
  with ReadPacket_deframe [OF Cons.prems(1,2), of ctx] obtain c' where
    "TCPConn_ReadPacket c ctx = (Inr p, c')" "stream (kIn c') = concat ps @ tail"
    "data_only (kIn c')" "kDlErr c' = None" by auto
  with Cons.IH [of c'] Cons.prems show ?case by simp
qed

definition demo_conn :: "(net_error + bytes) list \<Rightarrow> conn" where
  "demo_conn rs = \<lparr>kIn = rs, kOut = [], kWr = [], kDlErr = None, kReadDl = None, kWriteDl = None, kClosed = False, kCloseErr = net_ErrClosed,
     kTooSmall = plain_error ''buffer too small''\<rparr>"

theorem stream_delivery_witness:
  "let p = [1, 7, 0, 20] @ replicate 16 9
   in read_packets 3 \<lparr>cxDeadline = None, cxErr = None\<rparr>
        (demo_conn [Inr [1, 7], Inr ([0, 20] @ replicate 16 9 @ [1]), Inr ([7, 0, 20] @ replicate 16 9), Inr [4]])
      = [Inr p, Inr p, Inl ErrConnClosed]"
proof -
  let ?p = "[1, 7, 0, 20] @ replicate 16 9 :: bytes"
  let ?c = "demo_conn [Inr [1, 7], Inr ([0, 20] @ replicate 16 9 @ [1]), Inr ([7, 0, 20] @ replicate 16 9), Inr [4]]"
  have "frame_ok ?p"
    by (simp add: frame_ok_def maxLengthForCode_def IsAccounting_def code_num limit_num slice_def BE_Uint16_def)
  then show ?thesis
    using stream_delivery [of ?c "[?p, ?p]" "[4]" "\<lparr>cxDeadline = None, cxErr = None\<rparr>"]
    by (simp add: demo_conn_def deframe_def Let_def numeral_3_eq_3 del: read_packets.simps)
qed

text \<open>
  The TLS reader \<open>readFramedStream\<close> and the TCP reader are the same function, on every
  script of the connection, errors included; so are the two writers.
\<close>

theorem tls_tcp_equivalent:
  "TLSConn_ReadPacket c ctx = TCPConn_ReadPacket c ctx
   \<and> TLSConn_WritePacket c raw = TCPConn_WritePacket c raw
   \<and> DTLSConn_WritePacket c raw = TCPConn_WritePacket c raw"
  by (auto simp: TLSConn_ReadPacket_def readFramedStream_def TCPConn_ReadPacket_def validateRadiusLength_def
      applyReadDeadline_def TCPConn_applyReadDeadline_def TLSConn_WritePacket_def DTLSConn_WritePacket_def
      writeFramedPacket_def TCPConn_WritePacket_def Let_def
      split: option.split prod.split sum.split)

text \<open>
  A DTLS record that starts with a well-framed packet of at most 4095 octets delivers
  exactly that packet (what follows it in the record is dropped); \<open>readFramedMessage\<close> only
  ever returns well-framed packets, and never one of 4096 octets, the legal maximum of
  an Access packet: its buffer holds 4095.
\<close>

theorem dtls_record:
  assumes "kDlErr c = None" and "kIn c = Inr (p @ extra) # rs" and "frame_ok p"
    and "length (p @ extra) \<le> 4095"
  shows "fst (DTLSConn_ReadPacket c ctx) = Inr p"
proof -
  obtain c1 where c1: "applyReadDeadline c ctx = (None, c1)" "kIn c1 = kIn c"
    using assms(1) by (cases "cxDeadline ctx") (auto simp: applyReadDeadline_def)
  have l: "20 \<le> length p" "length p \<le> maxLengthForCode (p ! 0)"
    "unat (BE_Uint16 (slice 2 4 p)) = length p"
    using assms(3) by (auto simp: frame_ok_def)
  have h: "slice 0 4 (p @ extra) = take 4 p" using l by (simp add: slice_def)
  have v: "validateRadiusLength (take 4 p) = Inr (BE_Uint16 (slice 2 4 p))"
    using l by (subst validate_take4) auto
  have m: "msg_Read 4095 c1 = (Inr (p @ extra), c1\<lparr>kIn := rs\<rparr>)"
    using assms(2,4) c1(2) by (simp add: msg_Read_def)
  have "\<not> length (p @ extra) < 4" using l by simp
  then show ?thesis
    unfolding DTLSConn_ReadPacket_def readFramedMessage_def c1(1) prod.case option.case
      PacketMaxLengthRFC2866_def m sum.case h v
    using l by (simp add: slice_def)
qed

theorem dtls_record_witness:
  "fst (DTLSConn_ReadPacket (demo_conn [Inr ([1, 7, 0, 20] @ replicate 16 9 @ [0])])
     \<lparr>cxDeadline = None, cxErr = None\<rparr>) = Inr ([1, 7, 0, 20] @ replicate 16 9)"
  by (rule dtls_record [where extra = "[0]" and rs = "[]"])
     (simp_all add: demo_conn_def frame_ok_def maxLengthForCode_def IsAccounting_def code_num limit_num
        slice_def BE_Uint16_def)

lemma dtls_returns_framed:
  assumes "fst (DTLSConn_ReadPacket c ctx) = Inr p"
  shows "frame_ok p \<and> length p \<le> 4095"
proof -
  obtain de c1 where c1: "applyReadDeadline c ctx = (de, c1)" by fastforce
  obtain r c2 where c2: "msg_Read PacketMaxLengthRFC2866 c1 = (r, c2)" by fastforce
  from assms c1 c2 obtain buf len where r: "r = Inr buf" and len: "validateRadiusLength (slice 0 4 buf) = Inr len"
    and p: "p = slice 0 (unat len) buf" and l: "\<not> length buf < 4" "\<not> unat len > length buf"
    by (auto simp: DTLSConn_ReadPacket_def readFramedMessage_def split: option.splits sum.splits if_splits)
  have "length buf \<le> 4095"
    using c2 r by (auto simp: msg_Read_def limit_num split: list.splits sum.splits if_splits)
  moreover have "deframe buf = Inr (p, drop (unat len) buf)"
    using len l p by (simp add: deframe_def slice_def)
  then have "frame_ok p \<and> buf = p @ drop (unat len) buf" using deframe_iff by blast
  ultimately show ?thesis using p by (auto simp: slice_def)
qed

section \<open>UDP\<close>

definition from_server :: "net_addr \<Rightarrow> net_error + (bytes \<times> net_addr) \<Rightarrow> bool" where
  "from_server server r \<longleftrightarrow> (case r of Inl _ \<Rightarrow> False | Inr (dg, src) \<Rightarrow> udpAddrEqual src server)"

definition is_stray :: "net_addr \<Rightarrow> net_error + (bytes \<times> net_addr) \<Rightarrow> bool" where
  "is_stray server r \<longleftrightarrow> (case r of Inl _ \<Rightarrow> False | Inr (dg, src) \<Rightarrow> \<not> udpAddrEqual src server)"

lemma exchange_loop_strays:
  "list_all (is_stray server) ss \<Longrightarrow> exchange_loop server ctx (ss @ rs) = exchange_loop server ctx rs"
  by (induction ss) (auto simp: is_stray_def split: sum.splits)

lemma exchange_loop_cases:
  "exchange_loop server ctx rs =
    (case dropWhile (is_stray server) rs of [] \<Rightarrow> None
     | Inl e # rest \<Rightarrow> Some (Inl (read_error e ctx), rest)
     | Inr (dg, src) # rest \<Rightarrow> Some (Inr (take 4096 dg), rest))"
  by (induction server ctx rs rule: exchange_loop.induct) (auto simp: is_stray_def limit_num)

text \<open>
  \<open>UDPClient.Exchange\<close> sends the request once, to the server, and returns what the first
  datagram from the server's address holds (at most 4096 octets of it), however many datagrams
  from other addresses came before; the strays are consumed and the rest of the input is left.
  A socket error that comes first is returned instead, and with strays only it keeps waiting.
\<close>

theorem udp_exchange_first_from_server:
  assumes "uDlErr t = None" and "uWr t = []" and "\<not> uClosed t"
  shows "UDPClient_Exchange server t ctx raw =
    (case dropWhile (is_stray server) (uIn t) of [] \<Rightarrow> None
     | Inl e # rest \<Rightarrow> Some (Inl (read_error e ctx),
         t\<lparr>uIn := rest, uOut := uOut t @ [(raw, server)], uReadDl := cxDeadline ctx, uWriteDl := cxDeadline ctx\<rparr>)
     | Inr (dg, src) # rest \<Rightarrow> Some (Inr (take 4096 dg),
         t\<lparr>uIn := rest, uOut := uOut t @ [(raw, server)], uReadDl := cxDeadline ctx, uWriteDl := cxDeadline ctx\<rparr>))"
proof -
  define d where "d = dropWhile (is_stray server) (uIn t)"
  have loop: "exchange_loop server ctx (uIn t) = (case d of [] \<Rightarrow> None
     | Inl e # rest \<Rightarrow> Some (Inl (read_error e ctx), rest)
     | Inr (dg, src) # rest \<Rightarrow> Some (Inr (take 4096 dg), rest))"
    unfolding d_def by (rule exchange_loop_cases)
  have "UDPClient_applyDeadline t ctx = (None, t\<lparr>uReadDl := cxDeadline ctx, uWriteDl := cxDeadline ctx\<rparr>)"
    using assms(1) by (cases "cxDeadline ctx") (simp_all add: UDPClient_applyDeadline_def)
  then show ?thesis
    unfolding d_def [symmetric] using assms(2,3) loop
    by (cases t; cases d) (auto simp: UDPClient_Exchange_def udp_Write_def split: sum.split)
qed

theorem udp_exchange_first_from_server_witness:
  "let server = UDPAddr [10, 0, 0, 1] 1812 []; stray = UDPAddr [10, 0, 0, 2] 1812 [];
       mapped = UDPAddr (v4InV6Prefix @ [10, 0, 0, 1]) 1812 []
   in map_option fst (UDPClient_Exchange server
        \<lparr>uIn = [Inr ([6, 6], stray), Inr ([2, 7], mapped)], uOut = [], uWr = [], uDlErr = None, uReadDl = None, uWriteDl = None, uClosed = False\<rparr>
        \<lparr>cxDeadline = None, cxErr = None\<rparr> [1, 7]) = Some (Inr [2, 7])"
  unfolding Let_def
  by (subst udp_exchange_first_from_server) (simp_all add: is_stray_def IP_Equal_def v4InV6Prefix_def)

section \<open>Writing\<close>

text \<open>
  A framed write that reports success has put the whole packet on the connection, behind
  what was written before; a short write or an error is never reported as success, and reads are not
  affected.
\<close>

theorem write_outcome:
  "case TCPConn_WritePacket c raw of
     (Inr _, c') \<Rightarrow> kOut c' = kOut c @ raw \<and> kIn c' = kIn c
       \<and> \<not> kClosed c \<and> (case kWr c of [] \<Rightarrow> True | Inl e # _ \<Rightarrow> False | Inr n # _ \<Rightarrow> n \<ge> length raw)
   | (Inl e, c') \<Rightarrow> kIn c' = kIn c \<and> (\<exists>n. kOut c' = kOut c @ take n raw)
       \<and> (if kClosed c then kOut c' = kOut c \<and> e = (if isClosed (kCloseErr c) then ErrConnClosed else raw_error (kCloseErr c))
          else case kWr c of [] \<Rightarrow> False
          | Inl ne # _ \<Rightarrow> e = (if isClosed ne then ErrConnClosed else raw_error ne)
          | Inr n # _ \<Rightarrow> e = ErrShortBuffer \<and> n < length raw)"
proof -
  have none: "\<exists>n. kOut c = kOut c @ take n raw" by (intro exI [of _ 0]) simp
  show ?thesis
  proof (cases "kClosed c")
    case False
    with none show ?thesis
      by (cases "kWr c"; cases "hd (kWr c)") (auto simp: TCPConn_WritePacket_def conn_Write_def)
  qed (use none in \<open>simp add: TCPConn_WritePacket_def conn_Write_def\<close>)
qed

end
