(* ===== verification/Client_Transport.thy ===== *)
theory Client_Transport
  imports Client_Package Transport_Props
begin

text \<open>
  The protocol client over a transport: the retransmission loop of \<open>protocol/client.go\<close> with
  the state of the transport threaded through its calls of \<open>Exchange\<close>, in place of what each
  attempt is going to meet. The two loops agree (\<open>transport_loop_sim\<close>), so whatever holds of one
  holds of the other. A transport that keeps unread replies in order is the interface
  \<open>reply_queue\<close>, with UDP, TCP, TLS and DTLS as its instances; the consequence for a client
  whose server once answered late is proved in it.
\<close>

section \<open>The loop over a transport\<close>

type_synonym 's exchange_fn = "'s \<Rightarrow> go_ctx \<Rightarrow> bytes \<Rightarrow> (bytes res \<times> 's) option"

text \<open>
  The clock when an attempt starts, the error of the context when it ends the wait before the
  attempt, and \<open>ctx.Err()\<close> after an exchange that failed.
\<close>

record attempt_clock =
  tcNow :: nat
  tcDone :: "gerror option"
  tcErr :: "gerror option"

definition attempt_ctx :: "go_ctx \<Rightarrow> nat \<Rightarrow> duration option \<Rightarrow> go_ctx" where
  "attempt_ctx ctx now perAttempt =
    (case perAttempt of None \<Rightarrow> ctx
     | Some d \<Rightarrow> ctx\<lparr>cxDeadline := Some (case cxDeadline ctx of None \<Rightarrow> now + unat d
                                        | Some dl \<Rightarrow> min dl (now + unat d))\<rparr>)"

definition per_attempt :: "retransmit_policy \<Rightarrow> (nat \<Rightarrow> duration \<Rightarrow> duration) \<Rightarrow> nat \<Rightarrow> nat \<Rightarrow> duration option" where
  "per_attempt p sc k r =
    (if r > 0 then (let d = NextDelay (sc (2 * k + 1)) p (int k) in if sint d > 0 then Some d else None) else None)"

fun transport_loop :: "'s exchange_fn \<Rightarrow> retransmit_policy \<Rightarrow> bytes \<Rightarrow> (nat \<Rightarrow> duration \<Rightarrow> duration) \<Rightarrow> go_ctx
    \<Rightarrow> (nat \<Rightarrow> attempt_clock) \<Rightarrow> bytes \<Rightarrow> byte \<Rightarrow> bytes \<Rightarrow> nat \<Rightarrow> nat \<Rightarrow> gerror option \<Rightarrow> 's
    \<Rightarrow> (packet res \<times> client_event list \<times> 's) option" where
  "transport_loop ex p secret sc ctx ck raw expectedID requestAuth k 0 lastErr s =
    Some (case lastErr of Some e \<Rightarrow> Inl e | None \<Rightarrow> Inl ErrNoResponse, [], s)"
| "transport_loop ex p secret sc ctx ck raw expectedID requestAuth k (Suc r) lastErr s =
    (let wait = (if k > 0 then [Wait (NextDelay (sc (2 * k)) p (int k - 1))] else []) in
     case (if k > 0 then tcDone (ck k) else None) of
       Some e \<Rightarrow> Some (Inl e, wait, s)
     | None \<Rightarrow>
         (let perAttempt = per_attempt p sc k r;
              sent = wait @ [Send raw perAttempt];
              again = (\<lambda>err s'. map_option (\<lambda>(res, evs, s2). (res, sent @ evs, s2))
                (transport_loop ex p secret sc ctx ck raw expectedID requestAuth (Suc k) r (Some err) s')) in
          case ex s (attempt_ctx ctx (tcNow (ck k)) perAttempt) raw of None \<Rightarrow> None
          | Some (Inl err, s1) \<Rightarrow>
              if err = CtxCanceled then Some (Inl err, sent, s1)
              else (case tcErr (ck k) of
                  Some ctxErr \<Rightarrow> Some (Inl ctxErr, sent, s1)
                | None \<Rightarrow> again err s1)
          | Some (Inr reply, s1) \<Rightarrow>
              (case VerifyResponse reply expectedID requestAuth secret of
                 Inl vErr \<Rightarrow> again vErr s1
               | Inr pkt \<Rightarrow> Some (Inr pkt, sent, s1))))"

definition exchange_over :: "client \<Rightarrow> 's exchange_fn \<Rightarrow> (nat \<Rightarrow> duration \<Rightarrow> duration) \<Rightarrow> go_ctx
    \<Rightarrow> (nat \<Rightarrow> attempt_clock) \<Rightarrow> bytes \<Rightarrow> byte \<Rightarrow> bytes \<Rightarrow> 's \<Rightarrow> (packet res \<times> client_event list \<times> 's) option" where
  "exchange_over c ex sc ctx ck raw expectedID requestAuth s =
    transport_loop ex (clRetransmit c) (clSecret c) sc ctx ck raw expectedID requestAuth
      0 (nat (Attempts (clRetransmit c))) None s"

section \<open>Agreement with the loop over scripted attempts\<close>

definition clocked :: "(nat \<Rightarrow> attempt_clock) \<Rightarrow> (nat \<Rightarrow> attempt_env) \<Rightarrow> bool" where
  "clocked ck env \<longleftrightarrow> (\<forall>k. aeCtxDone (env k) = tcDone (ck k) \<and> aeCtxErr (env k) = tcErr (ck k))"

lemma retransmit_loop_cong:
  "(\<And>j. k \<le> j \<Longrightarrow> env j = env' j) \<Longrightarrow>
   retransmit_loop p secret sc env raw i ra k r l = retransmit_loop p secret sc env' raw i ra k r l"
proof (induction r arbitrary: k l)
  case (Suc r)
  have e: "env k = env' k" by (rule Suc.prems) simp
  have l: "retransmit_loop p secret sc env raw i ra (Suc k) r l' = retransmit_loop p secret sc env' raw i ra (Suc k) r l'" for l'
    by (rule Suc.IH) (simp add: Suc.prems)
  show ?case by (simp only: retransmit_loop.simps e l)
qed simp

text \<open>What an attempt's answer comes to: the end of the loop, or the error to go on with.\<close>

fun verdict :: "bytes \<Rightarrow> byte \<Rightarrow> bytes \<Rightarrow> gerror option \<Rightarrow> bytes res \<Rightarrow> packet res + gerror" where
  "verdict secret i ra ctxErr (Inl err) =
    (if err = CtxCanceled then Inl (Inl err) else case ctxErr of Some e \<Rightarrow> Inl (Inl e) | None \<Rightarrow> Inr err)"
| "verdict secret i ra ctxErr (Inr reply) =
    (case VerifyResponse reply i ra secret of Inl vErr \<Rightarrow> Inr vErr | Inr pkt \<Rightarrow> Inl (Inr pkt))"

definition waited :: "retransmit_policy \<Rightarrow> (nat \<Rightarrow> duration \<Rightarrow> duration) \<Rightarrow> nat \<Rightarrow> client_event list" where
  "waited p sc k = (if k > 0 then [Wait (NextDelay (sc (2 * k)) p (int k - 1))] else [])"

lemma sends_waited [simp]: "sends (waited p sc k) = []"
  by (simp add: waited_def)

lemma retransmit_loop_verdict:
  "retransmit_loop p secret sc env raw i ra k (Suc r) l =
    (case (if k > 0 then aeCtxDone (env k) else None) of Some e \<Rightarrow> (Inl e, waited p sc k)
     | None \<Rightarrow> (case verdict secret i ra (aeCtxErr (env k)) (aeReply (env k)) of
         Inl res \<Rightarrow> (res, waited p sc k @ [Send raw (per_attempt p sc k r)])
       | Inr err \<Rightarrow> (let (res, evs) = retransmit_loop p secret sc env raw i ra (Suc k) r (Some err)
           in (res, (waited p sc k @ [Send raw (per_attempt p sc k r)]) @ evs))))"
proof (cases "if k > 0 then aeCtxDone (env k) else None")
  case None
  then show ?thesis
    unfolding retransmit_loop.simps(2) Let_def waited_def [symmetric] per_attempt_def [unfolded Let_def, symmetric] None option.case
    by (cases "aeReply (env k)"; cases "aeCtxErr (env k)") (simp_all split: sum.split)
qed (simp add: waited_def)

lemma transport_loop_verdict:
  "transport_loop ex p secret sc ctx ck raw i ra k (Suc r) l s =
    (case (if k > 0 then tcDone (ck k) else None) of Some e \<Rightarrow> Some (Inl e, waited p sc k, s)
     | None \<Rightarrow> (case ex s (attempt_ctx ctx (tcNow (ck k)) (per_attempt p sc k r)) raw of None \<Rightarrow> None
       | Some (x, s1) \<Rightarrow> (case verdict secret i ra (tcErr (ck k)) x of
           Inl res \<Rightarrow> Some (res, waited p sc k @ [Send raw (per_attempt p sc k r)], s1)
         | Inr err \<Rightarrow> map_option (\<lambda>(res, evs, s2). (res, (waited p sc k @ [Send raw (per_attempt p sc k r)]) @ evs, s2))
             (transport_loop ex p secret sc ctx ck raw i ra (Suc k) r (Some err) s1))))"
proof (cases "if k > 0 then tcDone (ck k) else None")
  case None
  then show ?thesis
    unfolding transport_loop.simps(2) Let_def waited_def [symmetric] None option.case
    by (cases "tcErr (ck k)") (simp_all split: option.split prod.split sum.split)
qed (simp add: waited_def)

declare transport_loop.simps(2) [simp del]

lemma transport_loop_sim:
  assumes "transport_loop ex p secret sc ctx ck raw i ra k r l s = Some (res, evs, s')"
  shows "\<exists>env. clocked ck env \<and> retransmit_loop p secret sc env raw i ra k r l = (res, evs)"
  using assms
proof (induction r arbitrary: k l s evs)
  case 0
  let ?env = "\<lambda>k. \<lparr>aeCtxDone = tcDone (ck k), aeReply = Inl ErrTimeout, aeCtxErr = tcErr (ck k)\<rparr>"
  from 0 have "clocked ck ?env \<and> retransmit_loop p secret sc ?env raw i ra k 0 l = (res, evs)"
    by (cases l) (auto simp: clocked_def)
  then show ?case by blast
next
  case (Suc r)
  let ?at = "\<lambda>x k. \<lparr>aeCtxDone = tcDone (ck k), aeReply = x, aeCtxErr = tcErr (ck k)\<rparr>"
  have flat: "clocked ck (?at x)" for x by (simp add: clocked_def)
  note run = Suc.prems [unfolded transport_loop_verdict]
  show ?case
  proof (cases "if k > 0 then tcDone (ck k) else None")
    case (Some e)
    with run have "retransmit_loop p secret sc (?at (Inl ErrTimeout)) raw i ra k (Suc r) l = (res, evs)"
      unfolding retransmit_loop_verdict attempt_env.select_convs Some by simp
    with flat show ?thesis by blast
  next
    case None
    then obtain x s1 where x: "ex s (attempt_ctx ctx (tcNow (ck k)) (per_attempt p sc k r)) raw = Some (x, s1)"
      using run by (auto split: option.splits)
    note run = run [unfolded None x option.case prod.case]
    show ?thesis
    proof (cases "verdict secret i ra (tcErr (ck k)) x")
      case (Inl y)
      with run have "retransmit_loop p secret sc (?at x) raw i ra k (Suc r) l = (res, evs)"
        unfolding retransmit_loop_verdict attempt_env.select_convs None by simp
      with flat show ?thesis by blast
    next
      case (Inr err)
      with run obtain evs1 where t: "transport_loop ex p secret sc ctx ck raw i ra (Suc k) r (Some err) s1 = Some (res, evs1, s')"
        "evs = (waited p sc k @ [Send raw (per_attempt p sc k r)]) @ evs1" by auto
      from Suc.IH [OF t(1)] obtain env where env: "clocked ck env"
        "retransmit_loop p secret sc env raw i ra (Suc k) r (Some err) = (res, evs1)" by blast
      let ?env = "env(k := ?at x k)"
      have "retransmit_loop p secret sc ?env raw i ra (Suc k) r (Some err) = (res, evs1)"
        using env(2) retransmit_loop_cong [of "Suc k" ?env env] by simp
      then have "retransmit_loop p secret sc ?env raw i ra k (Suc r) l = (res, evs)"
        unfolding retransmit_loop_verdict [of p secret sc ?env] fun_upd_same attempt_env.select_convs None option.case Inr sum.case t(2)
        by simp
      moreover have "clocked ck ?env" using env(1) by (simp add: clocked_def)
      ultimately show ?thesis by blast
    qed
  qed
qed

lemma transport_loop_live:
  assumes "\<forall>k. tcDone (ck k) = None"
  shows "transport_loop ex p secret sc ctx ck raw i ra k (Suc r) l s =
    (case ex s (attempt_ctx ctx (tcNow (ck k)) (per_attempt p sc k r)) raw of None \<Rightarrow> None
     | Some (x, s1) \<Rightarrow> (case verdict secret i ra (tcErr (ck k)) x of
         Inl res \<Rightarrow> Some (res, waited p sc k @ [Send raw (per_attempt p sc k r)], s1)
       | Inr err \<Rightarrow> map_option (\<lambda>(res, evs, s2). (res, (waited p sc k @ [Send raw (per_attempt p sc k r)]) @ evs, s2))
           (transport_loop ex p secret sc ctx ck raw i ra (Suc k) r (Some err) s1)))"
proof -
  have "(if k > 0 then tcDone (ck k) else None) = None" using assms by simp
  then show ?thesis unfolding transport_loop_verdict by (simp only: option.case)
qed

lemma exchange_over_sim:
  assumes "exchange_over c ex sc ctx ck raw i ra s = Some (res, evs, s')"
  shows "\<exists>env. clocked ck env \<and> exchangeWithRetransmit c sc env raw i ra = (res, evs)"
  unfolding exchangeWithRetransmit_def by (rule transport_loop_sim [OF assms [unfolded exchange_over_def]])

lemma exchange_over_sends:
  assumes "exchange_over c ex sc ctx ck raw i ra s = Some (res, evs, s')"
  shows "sends evs \<noteq> []"
proof -
  obtain r where r: "nat (Attempts (clRetransmit c)) = Suc r"
    using Attempts_pos [of "clRetransmit c"] by (metis gr0_implies_Suc zero_less_nat_eq)
  from assms show ?thesis
    unfolding exchange_over_def r transport_loop_verdict
    by (auto split: option.splits sum.splits)
qed

section \<open>Calls on a transport that keeps unread replies\<close>

text \<open>
  A run of exchanges on one transport, from the unread replies \<open>B\<close> on. In each the server answers
  every datagram with a reply that verifies (\<open>R\<close>, behind what is unread already; the script of
  the reads to come holds them from the start), and the identifier is not that of an unread
  reply. The results are collected.
\<close>

inductive answered_calls :: "'s exchange_fn \<Rightarrow> ('s \<Rightarrow> bytes list \<Rightarrow> 's) \<Rightarrow> (bytes \<Rightarrow> bool) \<Rightarrow> client
    \<Rightarrow> 's \<Rightarrow> bytes list \<Rightarrow> packet res list \<Rightarrow> 's \<Rightarrow> bytes list \<Rightarrow> bool"
  for ex feed fits c s B where
  no_call: "answered_calls ex feed fits c s B [] s B"
| one_call: "answered_calls ex feed fits c s B rs s1 B1 \<Longrightarrow> \<forall>x \<in> set B1. x ! 1 \<noteq> i \<Longrightarrow>
    \<forall>k. tcDone (ck k) = None \<Longrightarrow>
    \<forall>x \<in> set R. fits x \<and> \<not> isl (VerifyResponse x i ra (clSecret c)) \<Longrightarrow>
    exchange_over c ex sc ctx ck raw i ra (feed s1 R) = Some (r, evs, s2) \<Longrightarrow>
    length R = length (sends evs) \<Longrightarrow>
    answered_calls ex feed fits c s B (rs @ [r]) s2 (drop (length (sends evs)) (B1 @ R))"

lemma other_identifier: "x ! 1 \<noteq> i \<Longrightarrow> isl (VerifyResponse x i ra s)"
  using verified_reply [of x i ra s] by (cases "VerifyResponse x i ra s") fastforce+

locale reply_queue =
  fixes exchange :: "'s exchange_fn"
    and holds :: "'s \<Rightarrow> bytes list \<Rightarrow> bool"
    and feed :: "'s \<Rightarrow> bytes list \<Rightarrow> 's"
    and fits :: "bytes \<Rightarrow> bool"
  assumes exchange_head: "holds s (x # xs) \<Longrightarrow> \<exists>s'. exchange s ctx raw = Some (Inr x, s') \<and> holds s' xs"
    and holds_feed: "holds s xs \<Longrightarrow> \<forall>y \<in> set ys. fits y \<Longrightarrow> holds (feed s ys) (xs @ ys)"
begin

lemma stale_step:
  assumes "holds s (b # xs)" "isl (VerifyResponse b i ra secret)" "\<forall>k. tcDone (ck k) = None"
  shows "\<exists>e s'. holds s' xs \<and> transport_loop exchange p secret sc ctx ck raw i ra k (Suc r) l s =
      map_option (\<lambda>(res, evs, s2). (res, (waited p sc k @ [Send raw (per_attempt p sc k r)]) @ evs, s2))
        (transport_loop exchange p secret sc ctx ck raw i ra (Suc k) r (Some e) s')"
proof -
  obtain s' where s': "exchange s (attempt_ctx ctx (tcNow (ck k)) (per_attempt p sc k r)) raw = Some (Inr b, s')" "holds s' xs"
    using exchange_head [OF assms(1)] by blast
  obtain e where "VerifyResponse b i ra secret = Inl e" using assms(2) by (auto simp: isl_def)
  with s' assms(3) show ?thesis by (intro exI [of _ e] exI [of _ s']) (simp add: transport_loop_live)
qed

lemma loop_stale:
  "holds s (B @ R) \<Longrightarrow> \<forall>x \<in> set B. isl (VerifyResponse x i ra secret) \<Longrightarrow> \<forall>k. tcDone (ck k) = None \<Longrightarrow>
   r \<le> length B \<Longrightarrow>
   \<exists>e evs s'. transport_loop exchange p secret sc ctx ck raw i ra k r l s = Some (Inl e, evs, s')
     \<and> sends evs = replicate r raw \<and> holds s' (drop r B @ R)"
proof (induction r arbitrary: k l s B)
  case 0
  then show ?case by (cases l) auto
next
  case (Suc r)
  from Suc.prems(4) obtain b B' where B: "B = b # B'" "r \<le> length B'" by (cases B) auto
  obtain e s1 where s1: "holds s1 (B' @ R)"
    "transport_loop exchange p secret sc ctx ck raw i ra k (Suc r) l s =
      map_option (\<lambda>(res, evs, s2). (res, (waited p sc k @ [Send raw (per_attempt p sc k r)]) @ evs, s2))
        (transport_loop exchange p secret sc ctx ck raw i ra (Suc k) r (Some e) s1)"
    using stale_step [of s b "B' @ R" i ra secret ck p sc ctx raw k r l] Suc.prems(1-3) by (auto simp: B(1))
  from Suc.IH [OF s1(1) _ Suc.prems(3) B(2), of "Suc k" "Some e"] Suc.prems(2) show ?case
    by (auto simp: B(1) s1(2))
qed

lemma loop_fresh:
  "holds s (B @ g # R) \<Longrightarrow> \<forall>x \<in> set B. isl (VerifyResponse x i ra secret) \<Longrightarrow> \<forall>k. tcDone (ck k) = None \<Longrightarrow>
   VerifyResponse g i ra secret = Inr pkt \<Longrightarrow> length B < r \<Longrightarrow>
   \<exists>evs s'. transport_loop exchange p secret sc ctx ck raw i ra k r l s = Some (Inr pkt, evs, s')
     \<and> sends evs = replicate (Suc (length B)) raw \<and> holds s' R"
proof (induction B arbitrary: k l s r)
  case Nil
  then obtain r' where r: "r = Suc r'" by (cases r) auto
  obtain s' where "exchange s (attempt_ctx ctx (tcNow (ck k)) (per_attempt p sc k r')) raw = Some (Inr g, s')" "holds s' R"
    using exchange_head [of s g R] Nil.prems(1) by auto
  with Nil.prems(3,4) show ?case by (simp add: r transport_loop_live)
next
  case (Cons b B)
  then obtain r' where r: "r = Suc r'" "length B < r'" by (cases r) auto
  obtain e s1 where s1: "holds s1 (B @ g # R)"
    "transport_loop exchange p secret sc ctx ck raw i ra k (Suc r') l s =
      map_option (\<lambda>(res, evs, s2). (res, (waited p sc k @ [Send raw (per_attempt p sc k r')]) @ evs, s2))
        (transport_loop exchange p secret sc ctx ck raw i ra (Suc k) r' (Some e) s1)"
    using stale_step [of s b "B @ g # R" i ra secret ck p sc ctx raw k r' l] Cons.prems(1-3) by auto
  from Cons.IH [OF s1(1) _ Cons.prems(3,4) r(2), of "Suc k" "Some e"] Cons.prems(2) show ?case
    by (auto simp: r(1) s1(2))
qed

text \<open>
  The number of unread replies never changes, and a call succeeds exactly when there are fewer
  of them than attempts.
\<close>

lemma backlog_persists:
  "answered_calls exchange feed fits c s B rs s' B' \<Longrightarrow> holds s B \<Longrightarrow>
   holds s' B' \<and> length B' = length B \<and> (\<forall>r \<in> set rs. isl r \<longleftrightarrow> nat (Attempts (clRetransmit c)) \<le> length B)"
proof (induction rule: answered_calls.induct)
  case (one_call rs s1 B1 i ck R ra sc ctx raw r evs s2)
  let ?n = "nat (Attempts (clRetransmit c))"
  from one_call have IH: "holds s1 B1" "length B1 = length B"
    "\<forall>r \<in> set rs. isl r \<longleftrightarrow> ?n \<le> length B" by auto
  have h: "holds (feed s1 R) (B1 @ R)" using one_call.hyps(4) by (intro holds_feed [OF IH(1)]) blast
  have stale: "\<forall>x \<in> set B1. isl (VerifyResponse x i ra (clSecret c))"
    using one_call.hyps(2) other_identifier by blast
  note x = one_call.hyps(5) [unfolded exchange_over_def]
  show ?case
  proof (cases "?n \<le> length B1")
    case True
    from loop_stale [OF h stale one_call.hyps(3) True, of "clRetransmit c" sc ctx raw 0 None] x
    obtain e where "r = Inl e" "sends evs = replicate ?n raw" "holds s2 (drop ?n B1 @ R)" by auto
    with IH True one_call.hyps(6) show ?thesis by auto
  next
    case False
    from one_call.hyps(6) exchange_over_sends [OF one_call.hyps(5)] obtain g R' where R: "R = g # R'" by (cases R) auto
    then obtain pkt where "VerifyResponse g i ra (clSecret c) = Inr pkt"
      using one_call.hyps(4) by (cases "VerifyResponse g i ra (clSecret c)") auto
    from loop_fresh [OF h [unfolded R] stale one_call.hyps(3) this, of ?n "clRetransmit c" sc ctx raw 0 None] x False R
    have "r = Inr pkt" "sends evs = replicate (Suc (length B1)) raw" "holds s2 R'" by auto
    with IH False one_call.hyps(6) show ?thesis by (auto simp: R)
  qed
qed simp

end

section \<open>The transports\<close>

definition udp_holds :: "net_addr \<Rightarrow> udp_sock \<Rightarrow> bytes list \<Rightarrow> bool" where
  "udp_holds server t xs \<longleftrightarrow> \<not> uClosed t \<and> uDlErr t = None \<and> uWr t = [] \<and> udpAddrEqual server server
     \<and> uIn t = map (\<lambda>x. Inr (x, server)) xs \<and> (\<forall>x \<in> set xs. length x \<le> 4096)"

definition udp_feed :: "net_addr \<Rightarrow> udp_sock \<Rightarrow> bytes list \<Rightarrow> udp_sock" where
  "udp_feed server t ys = t\<lparr>uIn := uIn t @ map (\<lambda>x. Inr (x, server)) ys\<rparr>"

definition udp_fits :: "bytes \<Rightarrow> bool" where
  "udp_fits x \<longleftrightarrow> length x \<le> 4096"

interpretation udp_queue: reply_queue "UDPClient_Exchange server" "udp_holds server" "udp_feed server" udp_fits
proof
  fix s x xs raw and ctx :: go_ctx
  assume h: "udp_holds server s (x # xs)"
  then have d: "UDPClient_applyDeadline s ctx = (None, s\<lparr>uReadDl := cxDeadline ctx, uWriteDl := cxDeadline ctx\<rparr>)"
    by (cases "cxDeadline ctx") (simp_all add: udp_holds_def UDPClient_applyDeadline_def)
  let ?s' = "s\<lparr>uReadDl := cxDeadline ctx, uWriteDl := cxDeadline ctx, uOut := uOut s @ [(raw, server)], uIn := map (\<lambda>x. Inr (x, server)) xs\<rparr>"
  have "UDPClient_Exchange server s ctx raw = Some (Inr x, ?s')"
    using h by (simp add: UDPClient_Exchange_def d udp_Write_def udp_holds_def limit_num)
  moreover have "udp_holds server ?s' xs" using h by (simp add: udp_holds_def)
  ultimately show "\<exists>s'. UDPClient_Exchange server s ctx raw = Some (Inr x, s') \<and> udp_holds server s' xs" by blast
qed (auto simp: udp_holds_def udp_feed_def udp_fits_def)

text \<open>A stream holds the frames its chunks make up, however they are cut.\<close>

definition stream_holds :: "conn \<Rightarrow> bytes list \<Rightarrow> bool" where
  "stream_holds c xs \<longleftrightarrow> \<not> kClosed c \<and> kDlErr c = None \<and> kWr c = [] \<and> data_only (kIn c) \<and> stream (kIn c) = concat xs
     \<and> (\<forall>x \<in> set xs. frame_ok x)"

definition conn_feed :: "conn \<Rightarrow> bytes list \<Rightarrow> conn" where
  "conn_feed c ys = c\<lparr>kIn := kIn c @ map Inr ys\<rparr>"

lemma stream_append: "stream (rs @ map Inr ys) = stream rs @ concat ys"
  by (simp add: stream_def comp_def)

text \<open>Reading a packet leaves the writing side of the connection as it is.\<close>

definition write_side :: "conn \<Rightarrow> bytes \<times> (net_error + nat) list \<times> bool \<times> net_error \<times> nat option" where
  "write_side c = (kOut c, kWr c, kClosed c, kCloseErr c, kWriteDl c)"

lemma ReadPacket_writes: "write_side (snd (TCPConn_ReadPacket c ctx)) = write_side c"
proof -
  have d: "write_side (snd (TCPConn_applyReadDeadline c ctx)) = write_side c"
    by (simp add: TCPConn_applyReadDeadline_def write_side_def split: option.split)
  have f: "write_side (snd (conn_ReadFull k c')) = write_side c'" for k c'
    by (simp add: conn_ReadFull_def write_side_def split: prod.split)
  show ?thesis
  proof (cases "TCPConn_applyReadDeadline c ctx")
    case (Pair de c1)
    then have c1: "write_side c1 = write_side c" using d by simp
    obtain h c2 where h: "conn_ReadFull 4 c1 = (h, c2)" by fastforce
    then have c2: "write_side c2 = write_side c" using f [of 4 c1] c1 by simp
    have "write_side (snd (conn_ReadFull k c2)) = write_side c" for k using f c2 by simp
    then show ?thesis
      using c1 c2 by (auto simp: TCPConn_ReadPacket_def Pair h Let_def split: option.split sum.split prod.split)
        (metis snd_conv)+
  qed
qed

lemma stream_read:
  assumes "stream_holds c (x # xs)"
  shows "\<exists>c'. TCPConn_ReadPacket c ctx = (Inr x, c') \<and> stream_holds c' xs"
proof -
  from assms have c: "kDlErr c = None" "kWr c = []" "data_only (kIn c)" "stream (kIn c) = x @ concat xs"
      "frame_ok x" "\<forall>y \<in> set xs. frame_ok y" "\<not> kClosed c"
    by (auto simp: stream_holds_def)
  then have "deframe (stream (kIn c)) = Inr (x, concat xs)" by (simp add: deframe_iff)
  with ReadPacket_deframe [OF c(3,1), of ctx] obtain c' where
    "TCPConn_ReadPacket c ctx = (Inr x, c')" "stream (kIn c') = concat xs" "data_only (kIn c')" "kDlErr c' = None"
    by auto
  moreover from this(1) have "kWr c' = []" "\<not> kClosed c'"
    using ReadPacket_writes [of c ctx] c(2,7) by (simp_all add: write_side_def)
  ultimately show ?thesis using c(6) by (auto simp: stream_holds_def)
qed

lemma stream_write:
  assumes "kWr c = []" "\<not> kClosed c"
  shows "TCPConn_WritePacket c raw = (Inr (), c\<lparr>kOut := kOut c @ raw\<rparr>)"
  using assms by (simp add: TCPConn_WritePacket_def conn_Write_def)

lemma conn_feed_stream: "stream_holds c xs \<Longrightarrow> \<forall>y \<in> set ys. frame_ok y \<Longrightarrow> stream_holds (conn_feed c ys) (xs @ ys)"
  by (auto simp: stream_holds_def conn_feed_def stream_append data_only_def list_all_iff)

interpretation tcp_queue: reply_queue "\<lambda>c ctx raw. Some (TCPClient_Exchange c ctx raw)" stream_holds conn_feed frame_ok
proof
  fix s x xs raw and ctx :: go_ctx
  assume h: "stream_holds s (x # xs)"
  let ?s0 = "case cxDeadline ctx of Some dl \<Rightarrow> s\<lparr>kReadDl := Some dl, kWriteDl := Some dl\<rparr> | None \<Rightarrow> s"
  let ?s1 = "?s0\<lparr>kOut := kOut ?s0 @ raw\<rparr>"
  have h1: "stream_holds ?s1 (x # xs)" using h by (simp add: stream_holds_def split: option.split)
  have w: "TCPConn_WritePacket ?s0 raw = (Inr (), ?s1)"
    using h by (intro stream_write) (simp_all add: stream_holds_def split: option.split)
  have dl: "(case cxDeadline ctx of Some dl \<Rightarrow> kDlErr s | None \<Rightarrow> None) = None"
    using h by (simp add: stream_holds_def split: option.split)
  have "TCPClient_Exchange s ctx raw = TCPConn_ReadPacket ?s1 ctx"
    unfolding TCPClient_Exchange_def dl option.case Let_def w by simp
  with stream_read [OF h1, of ctx]
  show "\<exists>s'. Some (TCPClient_Exchange s ctx raw) = Some (Inr x, s') \<and> stream_holds s' xs" by simp
qed (rule conn_feed_stream)

interpretation tls_queue: reply_queue "\<lambda>c ctx raw. Some (TLSClient_Exchange c ctx raw)" stream_holds conn_feed frame_ok
proof
  fix s x xs raw and ctx :: go_ctx
  assume h: "stream_holds s (x # xs)"
  let ?s1 = "s\<lparr>kOut := kOut s @ raw\<rparr>"
  have h1: "stream_holds ?s1 (x # xs)" using h by (simp add: stream_holds_def)
  have "TCPConn_WritePacket s raw = (Inr (), ?s1)" using h by (intro stream_write) (simp_all add: stream_holds_def)
  then have "TLSClient_Exchange s ctx raw = TCPConn_ReadPacket ?s1 ctx"
    using tls_tcp_equivalent [of s ctx raw] tls_tcp_equivalent [of ?s1 ctx raw] by (simp add: TLSClient_Exchange_def)
  with stream_read [OF h1, of ctx]
  show "\<exists>s'. Some (TLSClient_Exchange s ctx raw) = Some (Inr x, s') \<and> stream_holds s' xs" by simp
qed (rule conn_feed_stream)

definition records_hold :: "conn \<Rightarrow> bytes list \<Rightarrow> bool" where
  "records_hold c xs \<longleftrightarrow> \<not> kClosed c \<and> kDlErr c = None \<and> kWr c = [] \<and> kIn c = map Inr xs
     \<and> (\<forall>x \<in> set xs. frame_ok x \<and> length x \<le> 4095)"

lemma record_read:
  assumes "records_hold c (x # xs)"
  shows "\<exists>c'. DTLSConn_ReadPacket c ctx = (Inr x, c') \<and> records_hold c' xs"
proof -
  from assms have c: "kDlErr c = None" "kIn c = Inr (x @ []) # map Inr xs" "frame_ok x" "length (x @ []) \<le> 4095"
    by (auto simp: records_hold_def)
  let ?c1 = "c\<lparr>kReadDl := cxDeadline ctx\<rparr>"
  have a: "applyReadDeadline c ctx = (None, ?c1)"
    using c(1) by (cases "cxDeadline ctx") (simp_all add: applyReadDeadline_def)
  have m: "msg_Read PacketMaxLengthRFC2866 ?c1 = (Inr x, ?c1\<lparr>kIn := map Inr xs\<rparr>)"
    using c by (simp add: msg_Read_def limit_num)
  have "snd (DTLSConn_ReadPacket c ctx) = ?c1\<lparr>kIn := map Inr xs\<rparr>"
    unfolding DTLSConn_ReadPacket_def readFramedMessage_def a prod.case option.case m sum.case
    by (simp split: sum.split)
  moreover have "fst (DTLSConn_ReadPacket c ctx) = Inr x" by (rule dtls_record [OF c])
  ultimately have "DTLSConn_ReadPacket c ctx = (Inr x, ?c1\<lparr>kIn := map Inr xs\<rparr>)" by (simp add: prod_eq_iff)
  moreover have "records_hold (?c1\<lparr>kIn := map Inr xs\<rparr>) xs" using assms by (simp add: records_hold_def)
  ultimately show ?thesis by blast
qed

definition dtls_fits :: "bytes \<Rightarrow> bool" where
  "dtls_fits x \<longleftrightarrow> frame_ok x \<and> length x \<le> 4095"

interpretation dtls_queue: reply_queue "\<lambda>c ctx raw. Some (DTLSClient_Exchange c ctx raw)" records_hold conn_feed dtls_fits
proof
  fix s x xs raw and ctx :: go_ctx
  assume h: "records_hold s (x # xs)"
  let ?s1 = "s\<lparr>kOut := kOut s @ raw\<rparr>"
  have h1: "records_hold ?s1 (x # xs)" using h by (simp add: records_hold_def)
  have "TCPConn_WritePacket s raw = (Inr (), ?s1)" using h by (intro stream_write) (simp_all add: records_hold_def)
  then have "DTLSClient_Exchange s ctx raw = DTLSConn_ReadPacket ?s1 ctx"
    using tls_tcp_equivalent [of s ctx raw] by (simp add: DTLSClient_Exchange_def)
  with record_read [OF h1, of ctx]
  show "\<exists>s'. Some (DTLSClient_Exchange s ctx raw) = Some (Inr x, s') \<and> records_hold s' xs" by simp
qed (auto simp: records_hold_def conn_feed_def dtls_fits_def)

section \<open>A server that answered late\<close>

lemma UDPClient_times_out:
  assumes "uDlErr t = None" "uWr t = []" "\<not> uClosed t" "uIn t = Inl e # rs" "\<not> isClosed e" "neDeadline e"
  shows "UDPClient_Exchange server t ctx raw = Some (Inl ErrTimeout,
    t\<lparr>uReadDl := cxDeadline ctx, uWriteDl := cxDeadline ctx, uOut := uOut t @ [(raw, server)], uIn := rs\<rparr>)"
proof -
  have "UDPClient_applyDeadline t ctx = (None, t\<lparr>uReadDl := cxDeadline ctx, uWriteDl := cxDeadline ctx\<rparr>)"
    using assms(1) by (cases "cxDeadline ctx") (simp_all add: UDPClient_applyDeadline_def)
  then show ?thesis
    using assms by (simp add: UDPClient_Exchange_def udp_Write_def read_error_def isTimeout_def)
qed

lemma loop_times_out:
  assumes "\<not> isClosed e" "neDeadline e" "\<forall>k. tcDone (ck k) = None \<and> tcErr (ck k) = None"
  shows "uDlErr t = None \<Longrightarrow> uWr t = [] \<Longrightarrow> \<not> uClosed t \<Longrightarrow> uIn t = replicate r (Inl e) \<Longrightarrow> 0 < r \<or> l = Some ErrTimeout \<Longrightarrow>
   \<exists>evs t'. transport_loop (UDPClient_Exchange server) p secret sc ctx ck raw i ra k r l t = Some (Inl ErrTimeout, evs, t')
     \<and> sends evs = replicate r raw \<and> uIn t' = [] \<and> uDlErr t' = None \<and> uWr t' = [] \<and> \<not> uClosed t'"
proof (induction r arbitrary: k l t)
  case (Suc r)
  let ?t' = "\<lambda>d. t\<lparr>uReadDl := d, uWriteDl := d, uOut := uOut t @ [(raw, server)], uIn := replicate r (Inl e)\<rparr>"
  have x: "UDPClient_Exchange server t cx raw = Some (Inl ErrTimeout, ?t' (cxDeadline cx))" for cx
    using UDPClient_times_out [OF Suc.prems(1-3) _ assms(1,2)] Suc.prems(4) by simp
  have nc: "ErrTimeout \<noteq> CtxCanceled" by simp
  show ?case
    using Suc.IH [of "?t' d" for d, of _ "Some ErrTimeout" "Suc k"] Suc.prems assms(3)
    by (fastforce simp: transport_loop_live x nc)
qed auto

text \<open>
  C6: One slow answer spoils a UDP client for good. When every attempt of a call times out and
  the server's replies to its datagrams come afterwards, they stay in the socket, one for each
  attempt; from then on every call fails, although the server answers each of its datagrams at
  once with a reply that verifies: each attempt takes the oldest unread reply, finds the
  identifier of another call and is spent, and its own reply joins the queue. In general the
  number of unread replies never changes, and calls succeed exactly when there are fewer of them
  than attempts.
\<close>

theorem late_replies_persist:
  assumes e: "\<not> isClosed e" "neDeadline e" and ck: "\<forall>k. tcDone (ck k) = None \<and> tcErr (ck k) = None"
    and n: "n = nat (Attempts (clRetransmit c))" and t: "udp_holds server t []"
    and slow: "exchange_over c (UDPClient_Exchange server) sc ctx ck raw i ra (t\<lparr>uIn := replicate n (Inl e)\<rparr>)
        = Some (r0, evs, t1)"
    and L: "\<forall>x \<in> set L. udp_fits x"
    and run: "answered_calls (UDPClient_Exchange server) (udp_feed server) udp_fits c (udp_feed server t1 L) L rs t' B"
  shows "r0 = Inl ErrTimeout \<and> sends evs = replicate n raw
    \<and> length B = length L \<and> udp_holds server t' B \<and> (\<forall>r \<in> set rs. isl r \<longleftrightarrow> n \<le> length L)
    \<and> (length L = length (sends evs) \<longrightarrow> (\<forall>r \<in> set rs. isl r))"
proof -
  have "0 < n" using Attempts_pos [of "clRetransmit c"] by (simp add: n)
  then have first: "r0 = Inl ErrTimeout" "sends evs = replicate n raw" "uIn t1 = []" "uDlErr t1 = None" "uWr t1 = []" "\<not> uClosed t1"
    using loop_times_out [OF e ck, of "t\<lparr>uIn := replicate n (Inl e)\<rparr>" n None server "clRetransmit c" "clSecret c" sc ctx raw i ra 0]
      t slow by (auto simp: exchange_over_def n udp_holds_def)
  then have "udp_holds server t1 []" using t by (simp add: udp_holds_def)
  from udp_queue.holds_feed [OF this L] have "udp_holds server (udp_feed server t1 L) L" by simp
  from udp_queue.backlog_persists [OF run this] first(1,2) show ?thesis by (simp add: n)
qed

definition late_error :: net_error where
  "late_error = (plain_error ''i/o timeout'')\<lparr>neDeadline := True\<rparr>"

lemma demo_reply:
  "\<exists>w pkt. VerifyResponse w 0 (replicate 16 7) [0x73] = Inr pkt \<and> length w \<le> 4096"
proof -
  let ?p = "\<lparr>pCode = AccessAccept, pIdentifier = 0, pAuthenticator = replicate 16 7, pAttributes = []\<rparr>"
  have wf: "wf_packet ?p" and sz: "ma_sized (pAttributes ?p)" by (simp_all add: wf_packet_def ma_sized_def)
  have rc: "isResponseCode (pCode ?p)" by (simp add: isResponseCode_def)
  have "sendable ?p [0x73]"
    by (simp add: sendable_def isValidCode_def marshal_len_seal maxLengthForCode_def limit_num code_num
        IsAccounting_def ma_count_def)
  then obtain w where w: "Marshal ?p [0x73] = Inr w" using Marshal_total [OF wf sz] by blast
  from verify_response_complete [OF wf sz rc w, of "[]"] obtain pkt where v: "VerifyResponse w 0 (replicate 16 7) [0x73] = Inr pkt"
    by simp
  have "length w \<le> 4096"
    using marshalled(2) [OF wf sz w] length_sent_auth [OF wf]
    by (simp add: wire_def sent_attrs_def sealed_attrs_def)
  with v show ?thesis by blast
qed

theorem late_replies_persist_witness:
  "let c = NewClient initial_Default [0x73] []; server = UDPAddr [10, 0, 0, 1] 1812 []; ctx = \<lparr>cxDeadline = None, cxErr = None\<rparr>;
       t = \<lparr>uIn = replicate 3 (Inl late_error), uOut = [], uWr = [], uDlErr = None, uReadDl = None, uWriteDl = None, uClosed = False\<rparr>;
       ck = (\<lambda>k. \<lparr>tcNow = 0, tcDone = None, tcErr = None\<rparr>); ex = UDPClient_Exchange server
   in \<exists>evs t1 r t' w. exchange_over c ex (\<lambda>_ d. d) ctx ck [1] 9 [] t = Some (Inl ErrTimeout, evs, t1)
      \<and> answered_calls ex (udp_feed server) udp_fits c
          (udp_feed server t1 (replicate 3 [2, 9])) (replicate 3 [2, 9]) [r] t' (replicate 3 w) \<and> isl r"
proof -
  let ?c = "NewClient initial_Default [0x73] []" and ?server = "UDPAddr [10, 0, 0, 1] 1812 []"
  let ?ctx = "\<lparr>cxDeadline = None, cxErr = None\<rparr> :: go_ctx" and ?ex = "UDPClient_Exchange (UDPAddr [10, 0, 0, 1] 1812 [])"
  let ?t = "\<lparr>uIn = [], uOut = [], uWr = [], uDlErr = None, uReadDl = None, uWriteDl = None, uClosed = False\<rparr> :: udp_sock"
  let ?ck = "\<lambda>k :: nat. \<lparr>tcNow = 0, tcDone = None, tcErr = None\<rparr>" and ?L = "replicate 3 [2, 9] :: bytes list"
  have e: "\<not> isClosed late_error" "neDeadline late_error" by code_simp+
  have ck: "\<forall>k. tcDone (?ck k) = None \<and> tcErr (?ck k) = None" by simp
  have n: "3 = nat (Attempts (clRetransmit ?c))" by (simp add: NewClient_def Attempts_def DefaultRetransmitPolicy_def)
  have sec: "clSecret ?c = [0x73]" by (simp add: NewClient_def)
  have t: "udp_holds ?server ?t []" by (simp add: udp_holds_def IP_Equal_def)
  obtain evs t1 where slow: "exchange_over ?c ?ex (\<lambda>_ d. d) ?ctx ?ck [1] 9 [] (?t\<lparr>uIn := replicate 3 (Inl late_error)\<rparr>)
      = Some (Inl ErrTimeout, evs, t1)" and t1: "uIn t1 = []" "uDlErr t1 = None" "uWr t1 = []" "\<not> uClosed t1"
    using loop_times_out [OF e ck, of "?t\<lparr>uIn := replicate 3 (Inl late_error)\<rparr>" 3 None ?server "clRetransmit ?c"
        "clSecret ?c" "\<lambda>_ d. d" ?ctx "[1]" 9 "[]" 0]
    by (auto simp: exchange_over_def n [symmetric])
  obtain w pkt where w: "VerifyResponse w 0 (replicate 16 7) [0x73] = Inr pkt" "udp_fits w"
    using demo_reply by (auto simp: udp_fits_def)
  have L: "\<forall>x \<in> set ?L. udp_fits x" by (simp add: udp_fits_def)
  have "udp_holds ?server t1 []" using t1 by (simp add: udp_holds_def IP_Equal_def)
  from udp_queue.holds_feed [OF this L] have "udp_holds ?server (udp_feed ?server t1 ?L) ?L" by simp
  from udp_queue.holds_feed [OF this, of "replicate 3 w"] w(2)
  have h: "udp_holds ?server (udp_feed ?server (udp_feed ?server t1 ?L) (replicate 3 w)) (?L @ replicate 3 w)" by simp
  have stale: "\<forall>x \<in> set ?L. isl (VerifyResponse x 0 (replicate 16 7) [0x73])" by (auto intro: other_identifier)
  obtain err evs2 t2 where second: "exchange_over ?c ?ex (\<lambda>_ d. d) ?ctx ?ck [1] 0 (replicate 16 7)
      (udp_feed ?server (udp_feed ?server t1 ?L) (replicate 3 w)) = Some (Inl err, evs2, t2)" "sends evs2 = replicate 3 [1]"
    using udp_queue.loop_stale [OF h stale, of ?ck 3 "clRetransmit ?c" "\<lambda>_ d. d" ?ctx "[1]" 0 None]
    by (auto simp: exchange_over_def n [symmetric] sec)
  have "answered_calls ?ex (udp_feed ?server) udp_fits ?c (udp_feed ?server t1 ?L) ?L ([] @ [Inl err]) t2
      (drop (length (sends evs2)) (?L @ replicate 3 w))"
    using w second(2)
    by (intro one_call [OF no_call, where feed = "udp_feed ?server" and R = "replicate 3 w" and i = 0 and ra = "replicate 16 7"
          and ck = ?ck, OF _ _ _ second(1)]) (simp_all add: sec)
  then have run: "answered_calls ?ex (udp_feed ?server) udp_fits ?c (udp_feed ?server t1 ?L) ?L [Inl err] t2 (replicate 3 w)"
    using second(2) by simp
  have "isl (Inl err :: packet res)"
    using late_replies_persist [OF e ck n t slow L run] by simp
  with slow run show ?thesis
    unfolding Let_def by (intro exI [of _ evs] exI [of _ t1] exI [of _ "Inl err"] exI [of _ t2] exI [of _ w]) simp
qed

text \<open>
  The same over TCP and TLS, where the constructed clients make one attempt: a single reply
  that came late is enough.
\<close>

lemma late_reply_tcp:
  assumes "answered_calls (\<lambda>c ctx raw. Some (TCPClient_Exchange c ctx raw)) conn_feed frame_ok c s B rs s' B'"
    and "stream_holds s B" "Attempts (clRetransmit c) = 1" "B \<noteq> []"
  shows "B' \<noteq> [] \<and> (\<forall>r \<in> set rs. isl r)"
  using tcp_queue.backlog_persists [OF assms(1,2)] assms(3,4) by (cases B) auto

text \<open>
  The write deadline of a TCP connection is set by every exchange whose context has one and
  never cleared: later exchanges without a deadline still write under it.
\<close>

lemma WritePacket_write_deadline: "kWriteDl (snd (TCPConn_WritePacket c raw)) = kWriteDl c"
  by (simp add: TCPConn_WritePacket_def conn_Write_def split: list.split sum.split prod.split)

lemma exchange_write_deadline:
  assumes "kDlErr c = None"
  shows "kWriteDl (snd (TCPClient_Exchange c ctx raw)) = (case cxDeadline ctx of Some dl \<Rightarrow> Some dl | None \<Rightarrow> kWriteDl c)"
proof -
  let ?c = "case cxDeadline ctx of Some dl \<Rightarrow> c\<lparr>kReadDl := Some dl, kWriteDl := Some dl\<rparr> | None \<Rightarrow> c"
  obtain r c1 where w: "TCPConn_WritePacket ?c raw = (r, c1)" by fastforce
  have "kWriteDl c1 = kWriteDl ?c" using WritePacket_write_deadline [of ?c raw] w by simp
  moreover have "kWriteDl (snd (TCPConn_ReadPacket c1 ctx)) = kWriteDl c1"
    using ReadPacket_writes [of c1 ctx] by (simp add: write_side_def)
  moreover have "(case cxDeadline ctx of Some dl \<Rightarrow> kDlErr c | None \<Rightarrow> None) = None"
    using assms by (simp split: option.split)
  ultimately show ?thesis
    unfolding TCPClient_Exchange_def by (simp add: w Let_def split: sum.split option.split)
qed

text \<open>
  Two calls in flight on one UDP socket, the answer to the second one first: each exchange returns
  the other call's reply, neither verifies, and nothing is left to read.
\<close>

lemma replies_in_flight_swap:
  assumes "udpAddrEqual server server" "length ra \<le> 4096" "length rb \<le> 4096"
    and "ra ! 1 = ida" "rb ! 1 = idb" "ida \<noteq> idb"
  shows "exchange_loop server ctx [Inr (rb, server), Inr (ra, server)] = Some (Inr rb, [Inr (ra, server)])
    \<and> isl (VerifyResponse rb ida autha s)
    \<and> exchange_loop server ctx' [Inr (ra, server)] = Some (Inr ra, []) \<and> isl (VerifyResponse ra idb authb s)"
  using assms by (simp add: limit_num other_identifier)

end
