(* ===== verification/Closing.thy ===== *)
theory Closing
  imports Client_Transport
begin

text \<open>
  What closing does: to the reads and writes of a connection, to a listener, and to the calls of
  a client whose transport has been closed. \<open>closed_transport\<close> is a transport that answers every
  exchange with an error and stays closed; UDP, TCP, TLS and DTLS are its instances.
\<close>

section \<open>The client's Close\<close>

text \<open>
  \<open>protocol.Client.Close\<close> is the \<open>Close\<close> of whatever transport the client was built on, given
  here by what it does to the transport's state.
\<close>

definition Client_Close :: "('s \<Rightarrow> gerror option \<times> 's) \<Rightarrow> 's \<Rightarrow> gerror option \<times> 's" where
  "Client_Close close s = close s"

section \<open>Connections and listeners\<close>

lemma isClosed_net [simp]: "isClosed net_ErrClosed"
  by (simp add: net_ErrClosed_def isClosed_def)

lemma close_twice [simp]:
  "conn_Close (conn_Close c) = conn_Close c" "pion_Close (pion_Close c) = pion_Close c" "udp_Close (udp_Close t) = udp_Close t"
  by (simp_all add: conn_Close_def pion_Close_def udp_Close_def)

text \<open>Reads and writes after \<open>Close\<close>; nothing is written, however often they are tried.\<close>

lemma closed_read:
  assumes "isClosed (kCloseErr c)"
  shows "TCPConn_ReadPacket (conn_Close c) ctx = (Inl ErrConnClosed, conn_Close c)"
    and "TLSConn_ReadPacket (conn_Close c) ctx = (Inl ErrConnClosed, conn_Close c)"
  using assms
  by (simp_all add: TCPConn_ReadPacket_def TCPConn_applyReadDeadline_def TLSConn_ReadPacket_def readFramedStream_def
      applyReadDeadline_def conn_Close_def split: option.split)

lemma closed_read_record:
  assumes "kDlErr c = None"
  shows "fst (DTLSConn_ReadPacket (pion_Close c) ctx) = Inl ErrConnClosed"
  using assms
  by (simp add: DTLSConn_ReadPacket_def readFramedMessage_def applyReadDeadline_def pion_Close_def msg_Read_def
      mapReadErr_def io_EOF_def split: option.split)

lemma closed_write:
  assumes "kClosed c" "isClosed (kCloseErr c)"
  shows "TCPConn_WritePacket c raw = (Inl ErrConnClosed, c)" "TLSConn_WritePacket c raw = (Inl ErrConnClosed, c)"
    "DTLSConn_WritePacket c raw = (Inl ErrConnClosed, c)"
  using assms
  by (simp_all add: TCPConn_WritePacket_def TLSConn_WritePacket_def DTLSConn_WritePacket_def writeFramedPacket_def conn_Write_def)

lemma closed_datagrams:
  "UDPTransport_ReadPacket (udp_Close t) ctx = Some (Inl ErrConnClosed, udp_Close t)"
  "UDPTransport_SendPacket (udp_Close t) data dst = (Inl ErrConnClosed, udp_Close t)"
  by (simp_all add: UDPTransport_ReadPacket_def UDPTransport_applyReadDeadline_def UDPTransport_SendPacket_def
      udp_Write_def udp_Close_def)

lemma closed_listener:
  "TCPListener_Accept ctx (hd (snd (TCPListener_Close r ln))) = Inl ErrConnClosed"
  "fst (TLSListener_Accept ctx (hd (snd (TLSListener_Close r ln)))) = Inl ErrConnClosed"
  "isClosed e \<Longrightarrow> DTLSListener_Accept ctx (hd (snd (DTLSListener_Close e r ln))) = Inl ErrConnClosed"
  by (simp_all add: TCPListener_Accept_def TCPListener_Close_def TLSListener_Accept_def TLSListener_Close_def
      DTLSListener_Accept_def DTLSListener_Close_def accept_error_def)

section \<open>Calls on a closed transport\<close>

fun delays :: "client_event list \<Rightarrow> duration list" where
  "delays [] = []"
| "delays (Wait d # evs) = d # delays evs"
| "delays (Send _ _ # evs) = delays evs"

lemma delays_append [simp]: "delays (xs @ ys) = delays xs @ delays ys"
  by (induction xs rule: delays.induct) auto

lemma delays_waited: "delays (waited p sc k) = (if 0 < k then [NextDelay (sc (2 * k)) p (int k - 1)] else [])"
  by (simp add: waited_def)

text \<open>
  \<open>refuses\<close>: every exchange of the client fails and puts nothing on the transport; one whose
  context does not end it makes all its attempts, with all their delays, and its error is one of
  \<open>errs\<close>.
\<close>

definition refuses :: "client \<Rightarrow> 's exchange_fn \<Rightarrow> ('s \<Rightarrow> 'o) \<Rightarrow> gerror set \<Rightarrow> 's \<Rightarrow> bool" where
  "refuses c ex sent errs s \<longleftrightarrow> (\<forall>sc ctx ck raw i ra. \<exists>e evs s'.
     exchange_over c ex sc ctx ck raw i ra s = Some (Inl e, evs, s') \<and> sent s' = sent s
     \<and> ((\<forall>k. tcDone (ck k) = None \<and> tcErr (ck k) = None) \<longrightarrow> e \<in> errs
        \<and> sends evs = replicate (nat (Attempts (clRetransmit c))) raw
        \<and> delays evs = map (\<lambda>k. NextDelay (sc (2 * k)) (clRetransmit c) (int k - 1))
            [1..<nat (Attempts (clRetransmit c))]))"

locale closed_transport =
  fixes exchange :: "'s exchange_fn" and closed :: "'s \<Rightarrow> bool" and sent :: "'s \<Rightarrow> 'o" and errs :: "gerror set"
  assumes exchange_closed: "closed s \<Longrightarrow> \<exists>e s'. exchange s ctx raw = Some (Inl e, s') \<and> e \<in> errs \<and> closed s' \<and> sent s' = sent s"
    and no_cancel: "CtxCanceled \<notin> errs"
begin

lemma loop_fails:
  "closed s \<Longrightarrow> \<exists>e evs s'. transport_loop exchange p secret sc ctx ck raw i ra k r l s = Some (Inl e, evs, s') \<and> sent s' = sent s"
proof (induction r arbitrary: k l s)
  case (Suc r)
  show ?case
  proof (cases "if k > 0 then tcDone (ck k) else None")
    case None
    obtain e s' where x: "exchange s (attempt_ctx ctx (tcNow (ck k)) (per_attempt p sc k r)) raw = Some (Inl e, s')"
        "closed s'" "sent s' = sent s"
      using exchange_closed [OF Suc.prems] by blast
    from Suc.IH [OF x(2), of "Suc k" "Some e"] obtain e2 evs s2 where
      "transport_loop exchange p secret sc ctx ck raw i ra (Suc k) r (Some e) s' = Some (Inl e2, evs, s2)" "sent s2 = sent s"
      using x(3) by auto
    then show ?thesis
      unfolding transport_loop_verdict None option.case x(1) prod.case
      by (cases "tcErr (ck k)") (simp_all add: x(3))
  qed (simp add: transport_loop_verdict)
qed (simp split: option.split)

lemma loop_tries:
  assumes "\<forall>k. tcDone (ck k) = None \<and> tcErr (ck k) = None"
  shows "closed s \<Longrightarrow> 0 < r \<or> (\<exists>e \<in> errs. l = Some e) \<Longrightarrow>
    \<exists>e evs s'. transport_loop exchange p secret sc ctx ck raw i ra k r l s = Some (Inl e, evs, s') \<and> e \<in> errs
      \<and> sent s' = sent s \<and> sends evs = replicate r raw
      \<and> delays evs = map (\<lambda>j. NextDelay (sc (2 * j)) p (int j - 1)) (filter (\<lambda>j. 0 < j) [k..<k + r])"
proof (induction r arbitrary: k l s)
  case (Suc r)
  obtain e s' where x: "exchange s (attempt_ctx ctx (tcNow (ck k)) (per_attempt p sc k r)) raw = Some (Inl e, s')"
      "closed s'" "sent s' = sent s" "e \<in> errs"
    using exchange_closed [OF Suc.prems(1)] by blast
  then have nc: "e \<noteq> CtxCanceled" using no_cancel by blast
  from Suc.IH [OF x(2), of "Some e" "Suc k"] x(4) obtain e2 evs s2 where
    r: "transport_loop exchange p secret sc ctx ck raw i ra (Suc k) r (Some e) s' = Some (Inl e2, evs, s2)" "e2 \<in> errs"
      "sent s2 = sent s'" "sends evs = replicate r raw"
      "delays evs = map (\<lambda>j. NextDelay (sc (2 * j)) p (int j - 1)) (filter (\<lambda>j. 0 < j) [Suc k..<Suc k + r])" by auto
  have u: "[k..<k + Suc r] = k # [Suc k..<Suc k + r]" by (simp add: upt_conv_Cons)
  from assms have live: "\<forall>k. tcDone (ck k) = None" "tcErr (ck k) = None" by simp_all
  show ?case
    unfolding transport_loop_live [OF live(1)] u
    by (simp add: x(1,3) live(2) nc r delays_waited)
qed auto

lemma refuses_closed:
  assumes "closed s" shows "refuses c exchange sent errs s"
  unfolding refuses_def exchange_over_def
proof (intro allI)
  fix sc ctx ck raw i ra
  let ?n = "nat (Attempts (clRetransmit c))"
  let ?loop = "transport_loop exchange (clRetransmit c) (clSecret c) sc ctx ck raw i ra 0 ?n None s"
  have n: "0 < ?n" using Attempts_pos [of "clRetransmit c"] by simp
  then have u: "filter (\<lambda>j. 0 < j) [0..<0 + ?n] = [1..<?n]"
    by (simp add: upt_conv_Cons filter_id_conv)
  show "\<exists>e evs s'. ?loop = Some (Inl e, evs, s') \<and> sent s' = sent s \<and> ((\<forall>k. tcDone (ck k) = None \<and> tcErr (ck k) = None) \<longrightarrow>
      e \<in> errs \<and> sends evs = replicate ?n raw
      \<and> delays evs = map (\<lambda>k. NextDelay (sc (2 * k)) (clRetransmit c) (int k - 1)) [1..<?n])"
  proof (cases "\<forall>k. tcDone (ck k) = None \<and> tcErr (ck k) = None")
    case True
    from loop_tries [OF True assms, of ?n None "clRetransmit c" "clSecret c" sc ctx raw i ra 0] n
    show ?thesis unfolding u by blast
  next
    case False
    with loop_fails [OF assms, of "clRetransmit c" "clSecret c" sc ctx ck raw i ra 0 ?n None] show ?thesis by blast
  qed
qed

end

definition udp_closed :: "udp_sock \<Rightarrow> bool" where
  "udp_closed t \<longleftrightarrow> uClosed t \<and> uDlErr t = Some net_ErrClosed"

interpretation udp_shut: closed_transport "UDPClient_Exchange server" udp_closed uOut "{ErrConnClosed}"
proof
  fix s raw and ctx :: go_ctx
  assume "udp_closed s"
  then have "UDPClient_Exchange server s ctx raw = Some (Inl ErrConnClosed, s)"
    by (cases "cxDeadline ctx")
      (simp_all add: udp_closed_def UDPClient_Exchange_def UDPClient_applyDeadline_def udp_Write_def read_error_def)
  with \<open>udp_closed s\<close> show "\<exists>e s'. UDPClient_Exchange server s ctx raw = Some (Inl e, s') \<and> e \<in> {ErrConnClosed}
      \<and> udp_closed s' \<and> uOut s' = uOut s" by simp
qed simp

definition shut_error :: gerror where
  "shut_error = raw_error net_ErrClosed"

definition tcp_closed :: "conn \<Rightarrow> bool" where
  "tcp_closed c \<longleftrightarrow> kClosed c \<and> kDlErr c = Some net_ErrClosed \<and> kCloseErr c = net_ErrClosed"

lemma TCPClient_closed:
  "tcp_closed c \<Longrightarrow> TCPClient_Exchange c ctx raw = (Inl (if cxDeadline ctx = None then ErrConnClosed else shut_error), c)"
  by (cases "cxDeadline ctx") (simp_all add: tcp_closed_def TCPClient_Exchange_def closed_write shut_error_def)

interpretation tcp_shut: closed_transport "\<lambda>c ctx raw. Some (TCPClient_Exchange c ctx raw)" tcp_closed kOut
    "{ErrConnClosed, shut_error}"
  by unfold_locales (auto simp: TCPClient_closed shut_error_def raw_error_def)

interpretation tls_shut: closed_transport "\<lambda>c ctx raw. Some (TLSClient_Exchange c ctx raw)" tcp_closed kOut "{ErrConnClosed}"
  by unfold_locales (auto simp: TLSClient_Exchange_def closed_write tcp_closed_def)

definition dtls_closed :: "conn \<Rightarrow> bool" where
  "dtls_closed c \<longleftrightarrow> kClosed c \<and> nePionClosed (kCloseErr c)"

interpretation dtls_shut: closed_transport "\<lambda>c ctx raw. Some (DTLSClient_Exchange c ctx raw)" dtls_closed kOut "{ErrConnClosed}"
  by unfold_locales (auto simp: DTLSClient_Exchange_def closed_write dtls_closed_def isClosed_def)

text \<open>
  C16: After \<open>Close\<close>, whatever transport a client uses, every exchange ends with an error and
  nothing more is sent. The client does not stop at the first refusal: unless its context ends it,
  the exchange makes every attempt of its policy and waits out every delay in between. Over UDP,
  TLS and DTLS the error is \<open>ErrConnClosed\<close>; over TCP a context with a deadline gets the error
  of \<open>SetDeadline\<close> unmapped, so that a single attempt with a deadline never reports
  \<open>ErrConnClosed\<close>.
\<close>

theorem closed_client:
  assumes "kCloseErr tcp = net_ErrClosed" and "nePionClosed (kCloseErr dtls)"
  shows "refuses c (UDPClient_Exchange server) uOut {ErrConnClosed} (snd (Client_Close (udp_transport_Close r) udp))
    \<and> refuses c (\<lambda>c ctx raw. Some (TCPClient_Exchange c ctx raw)) kOut {ErrConnClosed, shut_error}
        (snd (Client_Close (tcp_transport_Close r) tcp))
    \<and> refuses c (\<lambda>c ctx raw. Some (TLSClient_Exchange c ctx raw)) kOut {ErrConnClosed} (snd (Client_Close (TLSClient_Close r) tcp))
    \<and> refuses c (\<lambda>c ctx raw. Some (DTLSClient_Exchange c ctx raw)) kOut {ErrConnClosed} (snd (Client_Close (DTLSClient_Close r) dtls))
    \<and> (cxDeadline ctx \<noteq> None \<longrightarrow>
        fst (TCPClient_Exchange (snd (tcp_transport_Close r tcp)) ctx raw) = Inl shut_error \<and> shut_error \<noteq> ErrConnClosed)"
proof -
  have "udp_closed (snd (Client_Close (udp_transport_Close r) udp))"
    by (simp add: Client_Close_def udp_closed_def udp_transport_Close_def udp_Close_def)
  moreover have t: "tcp_closed (snd (Client_Close (tcp_transport_Close r) tcp))" "tcp_closed (snd (Client_Close (TLSClient_Close r) tcp))"
    using assms(1) by (simp_all add: Client_Close_def tcp_closed_def tcp_transport_Close_def TCPConn_Close_def TLSClient_Close_def TLSConn_Close_def conn_Close_def)
  moreover have "dtls_closed (snd (Client_Close (DTLSClient_Close r) dtls))"
    using assms(2) by (simp add: Client_Close_def dtls_closed_def DTLSClient_Close_def DTLSConn_Close_def pion_Close_def)
  moreover have "shut_error \<noteq> ErrConnClosed" by (simp add: shut_error_def raw_error_def)
  ultimately show ?thesis
    using TCPClient_closed [OF t(1)]
    by (simp add: udp_shut.refuses_closed tcp_shut.refuses_closed tls_shut.refuses_closed dtls_shut.refuses_closed Client_Close_def)
qed

theorem closed_client_witness:
  "let t = \<lparr>uIn = [Inr ([2, 0], UDPAddr [10, 0, 0, 1] 1812 [])], uOut = [], uWr = [], uDlErr = None, uReadDl = None, uWriteDl = None, uClosed = False\<rparr>;
       ck = (\<lambda>k. \<lparr>tcNow = 0, tcDone = None, tcErr = None\<rparr>)
   in \<exists>evs t'. exchange_over (NewClient initial_Default [0x73] []) (UDPClient_Exchange (UDPAddr [10, 0, 0, 1] 1812 []))
        (\<lambda>_ d. d) \<lparr>cxDeadline = None, cxErr = None\<rparr> ck [1] 0 [] (snd (Client_Close (udp_transport_Close None) t))
        = Some (Inl ErrConnClosed, evs, t') \<and> uOut t' = [] \<and> sends evs = [[1], [1], [1]]
      \<and> delays evs = [2 * time_Second, 4 * time_Second]"
proof -
  let ?c = "NewClient initial_Default [0x73] []" and ?server = "UDPAddr [10, 0, 0, 1] 1812 []"
  let ?t = "\<lparr>uIn = [Inr ([2, 0], ?server)], uOut = [], uWr = [], uDlErr = None, uReadDl = None, uWriteDl = None, uClosed = False\<rparr> :: udp_sock"
  let ?tcp = "demo_conn []" and ?dtls = "(demo_conn [])\<lparr>kCloseErr := net_ErrClosed\<lparr>nePionClosed := True\<rparr>\<rparr>"
  have "kCloseErr ?tcp = net_ErrClosed" "nePionClosed (kCloseErr ?dtls)" by (simp_all add: demo_conn_def)
  note all = closed_client [OF this, where c = ?c and server = ?server and r = None and udp = ?t
      and ctx = "\<lparr>cxDeadline = None, cxErr = None\<rparr>" and raw = "[1]"]
  have p: "nat (Attempts (clRetransmit ?c)) = 3" by (simp add: NewClient_def Attempts_def DefaultRetransmitPolicy_def)
  have d: "map (\<lambda>k. NextDelay ((\<lambda>_ d. d) (2 * k)) (clRetransmit ?c) (int k - 1)) [1..<3] = [2 * time_Second, 4 * time_Second]"
  proof -
    have u: "[1..<3] = [1, 2 :: nat]" by code_simp
    show ?thesis unfolding u by (simp add: NewClient_def DefaultRetransmitPolicy_def NextDelay_def time_Second_def Let_def)
  qed
  show ?thesis
    using all [THEN conjunct1, unfolded refuses_def, rule_format, of "\<lambda>_ d. d" "\<lparr>cxDeadline = None, cxErr = None\<rparr>"
        "\<lambda>k. \<lparr>tcNow = 0, tcDone = None, tcErr = None\<rparr>" "[1]" 0 "[]"]
    unfolding p d Let_def by (auto simp: Client_Close_def udp_transport_Close_def udp_Close_def numeral_3_eq_3)
qed

end
