(* ===== verification/Shutdown.thy ===== *)
theory Shutdown
  imports Server_Props Closing
begin

text \<open>
  The life of a UDP server: the goroutine of \<open>Serve\<close>, the goroutines it starts for requests, the
  wait group that counts them, and the one that closes the socket and waits in \<open>Shutdown\<close>. One
  step is one operation on what they share; a request's goroutine, from \<open>Unmarshal\<close> to the reply,
  is one step at the time it ends (theory Server_Props has its steps apart). A goroutine that
  panics ends the process: no step follows.
\<close>

section \<open>Steps\<close>

text \<open>
  Where \<open>Serve\<close> is: before its next \<open>ReadPacket\<close>, between \<open>ReadPacket\<close> and \<open>wg.Add\<close>, or
  returned. Where \<open>Shutdown\<close> is: not called, waiting, or returned (with an error it may be called
  again).
\<close>

type_synonym served = "bytes \<times> net_addr \<times> bytes"

datatype reader = Reading | Got served | Left gerror
datatype closer = NotCalled | WaitsFor | ReturnedWith "unit res"

record life =
  lfServer :: udp_server
  lfReader :: reader
  lfHandlers :: "served list"
  lfWg :: nat
  lfCloser :: closer
  lfLate :: nat    \<comment> \<open>goroutines started after \<open>Shutdown\<close> returned nil\<close>

definition listener_update :: "udp_sock \<Rightarrow> udp_server \<Rightarrow> udp_server" where
  "listener_update t s = s\<lparr>usListener := t\<rparr>"

inductive life_step :: "handler \<Rightarrow> secret_lookup \<Rightarrow> go_ctx \<Rightarrow> go_ctx \<Rightarrow> life \<Rightarrow> life \<Rightarrow> bool"
  for h lookup ctx sctx where
  arrive: "\<not> uClosed (usListener (lfServer s)) \<Longrightarrow>
    life_step h lookup ctx sctx s (s\<lparr>lfServer := listener_update
      ((usListener (lfServer s))\<lparr>uIn := uIn (usListener (lfServer s)) @ [dg]\<rparr>) (lfServer s)\<rparr>)"
| drop: "lfReader s = Reading \<Longrightarrow> UDPTransport_ReadPacket (usListener (lfServer s)) ctx = Some (Inr (raw, src), t) \<Longrightarrow>
    lookup (ipFromAddr src) = None \<Longrightarrow>
    life_step h lookup ctx sctx s (s\<lparr>lfServer := listener_update t (lfServer s)\<rparr>)"
| get: "lfReader s = Reading \<Longrightarrow> UDPTransport_ReadPacket (usListener (lfServer s)) ctx = Some (Inr (raw, src), t) \<Longrightarrow>
    lookup (ipFromAddr src) = Some secret \<Longrightarrow>
    life_step h lookup ctx sctx s (s\<lparr>lfServer := listener_update t (lfServer s), lfReader := Got (raw, src, secret)\<rparr>)"
| leave: "lfReader s = Reading \<Longrightarrow> UDPTransport_ReadPacket (usListener (lfServer s)) ctx = Some (Inl e, t) \<Longrightarrow>
    life_step h lookup ctx sctx s (s\<lparr>lfServer := listener_update t (lfServer s), lfReader := Left (server_mapReadErr ctx e)\<rparr>)"
| start: "lfReader s = Got x \<Longrightarrow>
    life_step h lookup ctx sctx s (s\<lparr>lfReader := Reading, lfWg := Suc (lfWg s), lfHandlers := x # lfHandlers s,
      lfLate := (if lfCloser s = ReturnedWith (Inr ()) then Suc (lfLate s) else lfLate s)\<rparr>)"
| handle: "(raw, src, secret) \<in> set (lfHandlers s) \<Longrightarrow>
    handleOne h (lfServer s) now ctx raw src secret = Done (called, srv) \<Longrightarrow>
    life_step h lookup ctx sctx s (s\<lparr>lfServer := srv, lfHandlers := remove1 (raw, src, secret) (lfHandlers s), lfWg := lfWg s - 1\<rparr>)"
| close: "lfCloser s = NotCalled \<or> lfCloser s = ReturnedWith (Inl e) \<Longrightarrow>
    life_step h lookup ctx sctx s (s\<lparr>lfServer := snd (UDPServer_Close r (lfServer s)), lfCloser := WaitsFor\<rparr>)"
| waited: "lfCloser s = WaitsFor \<Longrightarrow> lfWg s = 0 \<Longrightarrow>
    life_step h lookup ctx sctx s (s\<lparr>lfCloser := ReturnedWith (fst (UDPServer_Shutdown r True sctx (lfServer s)))\<rparr>)"
| gave_up: "lfCloser s = WaitsFor \<Longrightarrow>
    life_step h lookup ctx sctx s (s\<lparr>lfCloser := ReturnedWith (fst (UDPServer_Shutdown r False sctx (lfServer s)))\<rparr>)"

inductive_cases life_stepE: "life_step h lookup ctx sctx s s'"

definition life_init :: "udp_server \<Rightarrow> life" where
  "life_init srv = \<lparr>lfServer = srv, lfReader = Reading, lfHandlers = [], lfWg = 0, lfCloser = NotCalled, lfLate = 0\<rparr>"

abbreviation life_runs :: "handler \<Rightarrow> secret_lookup \<Rightarrow> go_ctx \<Rightarrow> go_ctx \<Rightarrow> life \<Rightarrow> life \<Rightarrow> bool" where
  "life_runs h lookup ctx sctx \<equiv> (life_step h lookup ctx sctx)\<^sup>*\<^sup>*"

section \<open>Handling on a closed socket\<close>

lemma udp_closed_close [simp]: "udp_closed (udp_Close t)"
  by (simp add: udp_closed_def udp_Close_def)

lemma udp_out_close [simp]: "uOut (udp_Close t) = uOut t"
  by (simp add: udp_Close_def)

lemma udp_closedD: "udp_closed t \<Longrightarrow> uClosed t"
  by (simp add: udp_closed_def)

lemma closed_send: "udp_closed t \<Longrightarrow> snd (UDPTransport_SendPacket t data dst) = t"
  by (simp add: udp_closed_def UDPTransport_SendPacket_def udp_Write_def)

lemma closed_recv: "udp_closed t \<Longrightarrow> UDPTransport_ReadPacket t ctx = Some (Inl ErrConnClosed, t)"
  by (simp add: udp_closed_def UDPTransport_ReadPacket_def UDPTransport_applyReadDeadline_def)

lemma closed_dispatch:
  "udp_closed (usListener s) \<Longrightarrow> udp_dispatch h s ctx pkt src secret = Done s' \<Longrightarrow> usListener s' = usListener s"
  by (auto simp: udp_dispatch_def Let_def closed_send unless_panic_iff split: sum.splits option.splits)

lemma closed_handle:
  "udp_closed (usListener s) \<Longrightarrow> handleOne h s now ctx raw src secret = Done (called, s') \<Longrightarrow> usListener s' = usListener s"
  by (auto simp: handleOne_def Let_def closed_send unless_panic_iff map_task_iff
      split: prod.splits sum.splits option.splits bool.splits dest: closed_dispatch [rotated])

text \<open>
  \<open>Serve\<close> after \<open>Close\<close> returns at once, with the error of its context or \<open>ErrConnClosed\<close>, never
  nil; a TCP server's open connections are not touched.
\<close>

lemma closed_serve:
  "UDPServer_Serve lookup (snd (UDPServer_Close r s)) ctx = ([], Some (server_mapReadErr ctx ErrConnClosed))"
  "TCPServer_Serve (snd (TCPServer_Close r ts)) ctx = ([], Some (server_mapReadErr ctx ErrConnClosed))"
  by (simp_all add: UDPServer_Serve_def UDPServer_Close_def UDPTransport_Close_def udp_Close_def TCPServer_Serve_def
      TCPServer_Close_def TCPListener_Close_def TCPListener_Accept_def accept_error_def server_mapReadErr_def split: option.split)

section \<open>Invariant\<close>

definition got :: "reader \<Rightarrow> nat" where
  "got r = (case r of Got x \<Rightarrow> 1 | _ \<Rightarrow> 0)"

lemma got_simps [simp]: "got Reading = 0" "got (Got x) = 1" "got (Left e) = 0"
  by (simp_all add: got_def)

lemma got_le: "got r \<le> 1"
  by (cases r) simp_all

definition life_inv :: "life \<Rightarrow> bool" where
  "life_inv s \<longleftrightarrow> lfWg s = length (lfHandlers s)
    \<and> (lfCloser s \<noteq> NotCalled \<longrightarrow> udp_closed (usListener (lfServer s)))
    \<and> (lfCloser s \<noteq> ReturnedWith (Inr ()) \<longrightarrow> lfLate s = 0)
    \<and> (lfCloser s = ReturnedWith (Inr ()) \<longrightarrow> lfLate s + got (lfReader s) \<le> 1 \<and> length (lfHandlers s) \<le> lfLate s)"

lemma life_step_inv:
  assumes "life_step h lookup ctx sctx s s'" "life_inv s" shows "life_inv s'"
  using assms
proof (cases rule: life_step.cases)
  case (handle raw src secret now called srv)
  with assms(2) closed_handle [OF _ handle(3)] show ?thesis
    by (auto simp: life_inv_def length_remove1)
next
  case (waited r)
  with assms(2) got_le [of "lfReader s"] show ?thesis
    by (auto simp: life_inv_def UDPServer_Shutdown_def UDPTransport_Close_def)
qed (auto simp: life_inv_def listener_update_def closed_recv UDPServer_Close_def UDPServer_Shutdown_def UDPTransport_Close_def dest: udp_closedD)

lemma life_reachable_inv: "life_runs h lookup ctx sctx (life_init srv) s \<Longrightarrow> life_inv s"
proof (induction rule: rtranclp_induct)
  case (step s1 s2)
  then show ?case using life_step_inv by blast
qed (simp add: life_inv_def life_init_def)

text \<open>Once \<open>Shutdown\<close> is called the socket stays closed and nothing is sent.\<close>

lemma life_closed_step:
  assumes "life_step h lookup ctx sctx s s'" "lfCloser s \<noteq> NotCalled" "udp_closed (usListener (lfServer s))"
  shows "lfCloser s' \<noteq> NotCalled \<and> udp_closed (usListener (lfServer s'))
    \<and> uOut (usListener (lfServer s')) = uOut (usListener (lfServer s))"
  using assms
proof (cases rule: life_step.cases)
  case (handle raw src secret now called srv)
  with assms(2,3) closed_handle [OF assms(3) handle(3)] show ?thesis by auto
qed (auto simp: listener_update_def closed_recv UDPServer_Close_def UDPTransport_Close_def udp_out_close dest: udp_closedD)

lemma life_closed_runs:
  assumes "life_runs h lookup ctx sctx s s'" "lfCloser s \<noteq> NotCalled" "udp_closed (usListener (lfServer s))"
  shows "uOut (usListener (lfServer s')) = uOut (usListener (lfServer s))"
proof -
  from assms(1) have "lfCloser s' \<noteq> NotCalled \<and> udp_closed (usListener (lfServer s'))
      \<and> uOut (usListener (lfServer s')) = uOut (usListener (lfServer s))"
  proof (induction rule: rtranclp_induct)
    case (step s1 s2)
    with life_closed_step [OF step.hyps(2)] show ?case by simp
  qed (use assms(2,3) in simp)
  then show ?thesis by simp
qed

text \<open>
  While \<open>Shutdown\<close> waits, it can return as soon as the goroutines have come to their end, which
  without duplicate detection they always can, unless one of them panics.
\<close>

lemma dispatch_nodedup:
  assumes "usDedup srv = None"
  shows "(\<exists>srv'. udp_dispatch h srv ctx pkt src secret = Done srv' \<and> usDedup srv' = None)
    \<or> (\<forall>srv2. usDedup srv2 = None \<longrightarrow> udp_dispatch h srv2 ctx pkt src secret = Crashes)"
  using assms by (auto simp: udp_dispatch_def Let_def unless_panic_def split: sum.split option.split)

lemma handle_nodedup:
  assumes "usDedup srv = None"
  shows "(\<exists>called srv'. handleOne h srv now ctx raw src secret = Done (called, srv') \<and> usDedup srv' = None)
    \<or> (\<forall>srv2 now2. usDedup srv2 = None \<longrightarrow> handleOne h srv2 now2 ctx raw src secret = Crashes)"
proof -
  obtain pkt e where u: "Unmarshal empty_packet raw secret = (pkt, e)" by fastforce
  show ?thesis
  proof (cases e)
    case (Inl err)
    with u assms show ?thesis by (auto simp: handleOne_def unless_panic_def)
  next
    case (Inr x)
    with u assms dispatch_nodedup [OF assms, of h ctx pkt src secret] show ?thesis by (auto simp: handleOne_def)
  qed
qed

lemma handlers_finish:
  assumes "usDedup (lfServer s) = None" and "lfWg s = length (lfHandlers s)"
  shows "(\<exists>s'. life_runs h lookup ctx sctx s s' \<and> lfWg s' = 0 \<and> lfCloser s' = lfCloser s)
    \<or> (\<exists>(raw, src, secret) \<in> set (lfHandlers s). \<forall>now. handleOne h (lfServer s) now ctx raw src secret = Crashes)"
  using assms
proof (induction "lfHandlers s" arbitrary: s)
  case (Cons x xs)
  obtain raw src secret where x: "x = (raw, src, secret)" by (cases x)
  from handle_nodedup [OF Cons.prems(1), of h 0 ctx raw src secret] show ?case
  proof (elim disjE exE conjE)
    fix called srv
    assume r: "handleOne h (lfServer s) 0 ctx raw src secret = Done (called, srv)" "usDedup srv = None"
    let ?s = "s\<lparr>lfServer := srv, lfHandlers := remove1 (raw, src, secret) (lfHandlers s), lfWg := lfWg s - 1\<rparr>"
    have st: "life_step h lookup ctx sctx s ?s"
      using life_step.handle [OF _ r(1)] Cons.hyps(2) [symmetric] x by simp
    have l: "xs = lfHandlers ?s" and "usDedup (lfServer ?s) = None" "lfWg ?s = length (lfHandlers ?s)"
      using Cons.prems(2) Cons.hyps(2) [symmetric] x r(2) by simp_all
    from Cons.hyps(1) [OF this] show ?thesis
    proof (elim disjE exE conjE)
      fix s' assume "life_runs h lookup ctx sctx ?s s'" "lfWg s' = 0" "lfCloser s' = lfCloser ?s"
      then show ?thesis using st by (auto intro: converse_rtranclp_into_rtranclp)
    next
      assume "\<exists>(raw, src, secret) \<in> set (lfHandlers ?s). \<forall>now. handleOne h (lfServer ?s) now ctx raw src secret = Crashes"
      then obtain raw' src' secret' where b: "(raw', src', secret') \<in> set xs"
        "handleOne h srv 0 ctx raw' src' secret' = Crashes" using l by auto
      with handle_nodedup [OF r(2), of h 0 ctx raw' src' secret'] Cons.prems(1)
      have "\<forall>now. handleOne h (lfServer s) now ctx raw' src' secret' = Crashes" by auto
      with b(1) Cons.hyps(2) [symmetric] show ?thesis by force
    qed
  next
    assume "\<forall>srv2 now2. usDedup srv2 = None \<longrightarrow> handleOne h srv2 now2 ctx raw src secret = Crashes"
    with Cons.prems(1) Cons.hyps(2) [symmetric] x show ?thesis by force
  qed
qed auto

lemma shutdown_completes:
  assumes "lfCloser s = WaitsFor" "usDedup (lfServer s) = None" "lfWg s = length (lfHandlers s)"
  shows "(\<exists>s'. life_runs h lookup ctx sctx s s' \<and> lfCloser s' = ReturnedWith (Inr ()))
    \<or> (\<exists>(raw, src, secret) \<in> set (lfHandlers s). \<forall>now. handleOne h (lfServer s) now ctx raw src secret = Crashes)"
  using handlers_finish [OF assms(2,3), of h lookup ctx sctx]
proof (elim disjE exE conjE)
  fix s1 assume s1: "life_runs h lookup ctx sctx s s1" "lfWg s1 = 0" "lfCloser s1 = lfCloser s"
  then have c: "lfCloser s1 = WaitsFor" using assms(1) by simp
  have "life_step h lookup ctx sctx s1 (s1\<lparr>lfCloser := ReturnedWith (Inr ())\<rparr>)"
    using life_step.waited [OF c s1(2), of h lookup ctx sctx None] by (simp add: UDPServer_Shutdown_def UDPTransport_Close_def)
  with s1(1) have "life_runs h lookup ctx sctx s (s1\<lparr>lfCloser := ReturnedWith (Inr ())\<rparr>)" by (rule rtranclp.rtrancl_into_rtrancl)
  then show ?thesis by (intro disjI1 exI conjI) (assumption, simp)
qed simp

text \<open>
  C9: In every run of a server with \<open>Shutdown\<close>: the wait group counts the goroutines that have
  not ended, so it never goes below zero; from the call of \<open>Shutdown\<close> on nothing is sent any
  more, so the replies of the handlers it waits for are lost; it returns nil only at a moment when
  no handler is running (and without duplicate detection that moment can always come, unless a
  request in flight panics, which ends the process), but \<open>Serve\<close> may then still start one, for a
  datagram it had read before, and never a second one.
\<close>

theorem shutdown_outcome:
  assumes "life_runs h lookup ctx sctx (life_init srv) s"
  shows "lfWg s = length (lfHandlers s)
    \<and> (lfCloser s \<noteq> NotCalled \<longrightarrow> (\<forall>s'. life_runs h lookup ctx sctx s s' \<longrightarrow>
        uOut (usListener (lfServer s')) = uOut (usListener (lfServer s))))
    \<and> (\<forall>s'. life_step h lookup ctx sctx s s' \<and> lfCloser s = WaitsFor \<and> lfCloser s' = ReturnedWith (Inr ()) \<longrightarrow>
        lfHandlers s' = [])
    \<and> (lfCloser s = WaitsFor \<and> usDedup (lfServer s) = None \<longrightarrow>
        (\<exists>s'. life_runs h lookup ctx sctx s s' \<and> lfCloser s' = ReturnedWith (Inr ()))
        \<or> (\<exists>(raw, src, secret) \<in> set (lfHandlers s). \<forall>now. handleOne h (lfServer s) now ctx raw src secret = Crashes))
    \<and> (lfCloser s = ReturnedWith (Inr ()) \<longrightarrow> length (lfHandlers s) \<le> 1) \<and> lfLate s \<le> 1"
proof -
  note inv = life_reachable_inv [OF assms, unfolded life_inv_def]
  have ends: "lfHandlers s' = []" if "life_step h lookup ctx sctx s s'" "lfCloser s = WaitsFor" "lfCloser s' = ReturnedWith (Inr ())" for s'
    using that inv by (cases rule: life_step.cases) (auto simp: UDPServer_Shutdown_def UDPTransport_Close_def)
  have late: "lfLate s \<le> 1 \<and> (lfCloser s = ReturnedWith (Inr ()) \<longrightarrow> length (lfHandlers s) \<le> 1)"
    using inv by (cases "lfCloser s = ReturnedWith (Inr ())") auto
  have still: "uOut (usListener (lfServer s')) = uOut (usListener (lfServer s))"
    if "lfCloser s \<noteq> NotCalled" "life_runs h lookup ctx sctx s s'" for s'
    using life_closed_runs [OF that(2,1)] inv that(1) by simp
  have completes: "(\<exists>s'. life_runs h lookup ctx sctx s s' \<and> lfCloser s' = ReturnedWith (Inr ()))
        \<or> (\<exists>(raw, src, secret) \<in> set (lfHandlers s). \<forall>now. handleOne h (lfServer s) now ctx raw src secret = Crashes)"
    if "lfCloser s = WaitsFor \<and> usDedup (lfServer s) = None"
    by (rule shutdown_completes) (use that inv in simp_all)
  have wg: "lfWg s = length (lfHandlers s)" using inv by blast
  show ?thesis
  proof (intro conjI impI allI)
    show "lfLate s \<le> 1" using late by (rule conjunct1)
    show "length (lfHandlers s) \<le> 1" if "lfCloser s = ReturnedWith (Inr ())" using late that by simp
  qed (rule wg still ends completes; simp)+
qed

text \<open>
  A run in which the server returns nil from \<open>Shutdown\<close> and then starts a handler.
\<close>

theorem shutdown_outcome_witness:
  "\<exists>s x. life_runs accept_handler (\<lambda>_. Some [0x73]) \<lparr>cxDeadline = None, cxErr = None\<rparr> \<lparr>cxDeadline = None, cxErr = None\<rparr>
      (life_init demo_server) s \<and> lfCloser s = ReturnedWith (Inr ()) \<and> lfHandlers s = [x] \<and> lfWg s = 1 \<and> lfLate s = 1"
proof -
  let ?ctx = "\<lparr>cxDeadline = None, cxErr = None\<rparr> :: go_ctx"
  let ?step = "life_step accept_handler (\<lambda>_. Some [0x73]) ?ctx ?ctx"
  let ?x = "(demo_request, demo_addr, [0x73]) :: served"
  let ?sock = "\<lparr>uIn = [Inr (demo_request, demo_addr)], uOut = [], uWr = [], uDlErr = None, uReadDl = None, uWriteDl = None, uClosed = False\<rparr>"
  let ?s0 = "life_init demo_server"
  let ?s1 = "?s0\<lparr>lfServer := demo_server\<lparr>usListener := ?sock\<rparr>\<rparr>"
  let ?s2 = "?s1\<lparr>lfServer := demo_server\<lparr>usListener := ?sock\<lparr>uIn := []\<rparr>\<rparr>, lfReader := Got ?x\<rparr>"
  let ?s3 = "?s2\<lparr>lfServer := demo_server\<lparr>usListener := udp_Close (?sock\<lparr>uIn := []\<rparr>)\<rparr>, lfCloser := WaitsFor\<rparr>"
  let ?s4 = "?s3\<lparr>lfCloser := ReturnedWith (Inr ())\<rparr>"
  let ?s5 = "?s4\<lparr>lfReader := Reading, lfWg := 1, lfHandlers := [?x], lfLate := 1\<rparr>"
  have 1: "?step ?s0 ?s1"
    using life_step.arrive [of ?s0 accept_handler "\<lambda>_. Some [0x73]" ?ctx ?ctx "Inr (demo_request, demo_addr)"]
    by (simp add: life_init_def listener_update_def demo_server_def)
  have 2: "?step ?s1 ?s2"
    using life_step.get [of ?s1 ?ctx "demo_request" demo_addr "?sock\<lparr>uIn := []\<rparr>" "\<lambda>_. Some [0x73]" "[0x73]" accept_handler ?ctx]
    by (simp add: life_init_def listener_update_def UDPTransport_ReadPacket_def UDPTransport_applyReadDeadline_def limit_num demo_request_def)
  have 3: "?step ?s2 ?s3"
    using life_step.close [where s = ?s2 and h = accept_handler and lookup = "\<lambda>_. Some [0x73]" and ctx = ?ctx and sctx = ?ctx and r = None]
    by (simp add: life_init_def UDPServer_Close_def UDPTransport_Close_def)
  have 4: "?step ?s3 ?s4"
    using life_step.waited [of ?s3 accept_handler "\<lambda>_. Some [0x73]" ?ctx ?ctx None]
    by (simp add: life_init_def UDPServer_Shutdown_def UDPTransport_Close_def)
  have 5: "?step ?s4 ?s5"
    using life_step.start [of ?s4 ?x accept_handler "\<lambda>_. Some [0x73]" ?ctx ?ctx] by (simp add: life_init_def)
  have "?step\<^sup>*\<^sup>* ?s0 ?s5"
    using 1 2 3 4 5 by (meson converse_rtranclp_into_rtranclp rtranclp.rtrancl_refl)
  moreover from shutdown_outcome [OF this] have "lfWg ?s5 = length (lfHandlers ?s5)" by blast
  ultimately show ?thesis by (intro exI [of _ ?s5] exI [of _ ?x]) simp
qed

end
