(* ===== verification/Client_Concurrent.thy ===== *)
theory Client_Concurrent
  imports Client_Transport
begin

text \<open>
  Many calls at once on one client over one UDP socket: \<open>protocol.Client\<close> with
  \<open>transport.UDPClient\<close>, whose calls share the pool of identifiers, the socket and its
  deadlines. A step is one operation of one call on what they share, the arrival of a datagram,
  or time going on; taking an identifier and building the request are one step. Each call records
  what its attempts met, and is shown to return what the same call returns in the sequential model
  when its attempts meet that.
\<close>

section \<open>Calls in flight\<close>

text \<open>
  Where a call is: before an attempt, between setting the deadlines and writing, in
  \<open>ReadFrom\<close>, or returned. \<open>flReady\<close> is when the delay before the attempt is over, \<open>flXctx\<close> the
  context of the attempt, \<open>flCall\<close> and \<open>flRand\<close> the call with its request and the random octets it
  drew, \<open>flMet\<close> a record of what its attempts met so far.
\<close>

datatype phase = Begin | Armed | Listening | Ended "response res"

record flight =
  flCall :: client_call
  flRand :: "gerror + bytes"
  flId :: byte
  flRaw :: bytes
  flAuth :: bytes
  flCtx :: go_ctx
  flScale :: "nat \<Rightarrow> duration \<Rightarrow> duration"
  flAttempt :: nat
  flMet :: "attempt_env list"
  flErr :: "gerror option"
  flReady :: nat
  flXctx :: go_ctx
  flPhase :: phase

record calls_state =
  csClient :: client
  csSock :: udp_sock
  csNow :: nat
  csCalls :: "flight list"
  csSeen :: "bytes list"    \<comment> \<open>the datagrams from the server that calls have read\<close>

text \<open>What \<open>ctx.Err()\<close> can be at a given time: a caller may cancel, a deadline passes.\<close>

definition ctx_says :: "go_ctx \<Rightarrow> nat \<Rightarrow> gerror option \<Rightarrow> bool" where
  "ctx_says ctx now ce \<longleftrightarrow>
    (let passed = (case cxDeadline ctx of None \<Rightarrow> False | Some d \<Rightarrow> d \<le> now) in
     case ce of None \<Rightarrow> \<not> passed | Some e \<Rightarrow> e = CtxCanceled \<or> e = CtxDeadlineExceeded \<and> passed)"

definition attempt_count :: "client \<Rightarrow> nat" where
  "attempt_count c = nat (Attempts (clRetransmit c))"

text \<open>The context of the attempt a call is about to make.\<close>

definition flight_ctx :: "client \<Rightarrow> nat \<Rightarrow> flight \<Rightarrow> go_ctx" where
  "flight_ctx c now f = attempt_ctx (flCtx f) now
     (per_attempt (clRetransmit c) (flScale f) (flAttempt f) (attempt_count c - Suc (flAttempt f)))"

definition call_result :: "(code \<Rightarrow> bool) \<Rightarrow> packet res \<Rightarrow> response res" where
  "call_result ok r = (case r of Inl e \<Rightarrow> Inl e
     | Inr reply \<Rightarrow> if ok (pCode reply) then Inr (to_response reply) else Inl ErrUnexpectedReply)"

definition next_attempt :: "client \<Rightarrow> nat \<Rightarrow> gerror \<Rightarrow> flight \<Rightarrow> flight" where
  "next_attempt c now err f =
    (if Suc (flAttempt f) < attempt_count c
     then f\<lparr>flAttempt := Suc (flAttempt f), flErr := Some err, flPhase := Begin,
       flReady := now + nat (sint (NextDelay (flScale f (2 * Suc (flAttempt f))) (clRetransmit c) (int (flAttempt f))))\<rparr>
     else f\<lparr>flPhase := Ended (Inl err)\<rparr>)"

text \<open>The end of an exchange with \<open>x\<close>: the call returns, or goes on with its next attempt.\<close>

definition after_exchange :: "client \<Rightarrow> nat \<Rightarrow> gerror option \<Rightarrow> bytes res \<Rightarrow> flight \<Rightarrow> flight" where
  "after_exchange c now ce x f =
    (let f1 = f\<lparr>flMet := flMet f @ [\<lparr>aeCtxDone = None, aeReply = x, aeCtxErr = ce\<rparr>]\<rparr> in
     case verdict (clSecret c) (flId f) (flAuth f) ce x of
       Inl r \<Rightarrow> f1\<lparr>flPhase := Ended (call_result (answers (flCall f)) r)\<rparr>
     | Inr err \<Rightarrow> next_attempt c now err f1)"

text \<open>The end of the context while a call waits to retransmit.\<close>

definition stop_waiting :: "gerror \<Rightarrow> flight \<Rightarrow> flight" where
  "stop_waiting e f = f\<lparr>flMet := flMet f @ [\<lparr>aeCtxDone = Some e, aeReply = Inl e, aeCtxErr = Some e\<rparr>],
     flPhase := Ended (Inl e)\<rparr>"

text \<open>
  A call at its start; \<open>t0\<close> is when it set its default timeout, before it got its identifier.
\<close>

definition new_flight :: "client \<Rightarrow> nat \<Rightarrow> nat \<Rightarrow> client_call \<Rightarrow> gerror + bytes \<Rightarrow> byte \<Rightarrow> bytes \<Rightarrow> bytes \<Rightarrow> go_ctx
    \<Rightarrow> (nat \<Rightarrow> duration \<Rightarrow> duration) \<Rightarrow> flight" where
  "new_flight c t0 now q rnd i raw auth ctx sc =
    \<lparr>flCall = q, flRand = rnd, flId = i, flRaw = raw, flAuth = auth, flCtx = applyDefaultTimeout c t0 ctx, flScale = sc,
     flAttempt = 0, flMet = [], flErr = None, flReady = now, flXctx = applyDefaultTimeout c t0 ctx, flPhase = Begin\<rparr>"

text \<open>A call that ends gives its identifier back.\<close>

definition settle :: "nat \<Rightarrow> flight \<Rightarrow> calls_state \<Rightarrow> calls_state" where
  "settle n f s =
    (let s1 = s\<lparr>csCalls := (csCalls s)[n := f]\<rparr> in
     case flPhase f of Ended r \<Rightarrow> s1\<lparr>csClient := release_id (flId f) (csClient s)\<rparr> | _ \<Rightarrow> s1)"

section \<open>Steps\<close>

text \<open>How an exchange under way ends: its result and the socket afterwards.\<close>

inductive exchange_ends :: "net_addr \<Rightarrow> client \<Rightarrow> nat \<Rightarrow> flight \<Rightarrow> udp_sock \<Rightarrow> bytes res \<Rightarrow> udp_sock \<Rightarrow> bool"
  for server c now f t where
  no_deadline: "flPhase f = Begin \<Longrightarrow> UDPClient_applyDeadline t (flight_ctx c now f) = (Some e, t1) \<Longrightarrow>
    exchange_ends server c now f t (Inl (if isClosed e then ErrConnClosed else raw_error e)) t1"
| no_write: "flPhase f = Armed \<Longrightarrow> udp_Write (flRaw f) server t = (Inl e, t1) \<Longrightarrow>
    exchange_ends server c now f t (Inl (read_error e (flXctx f))) t1"
| short_write: "flPhase f = Armed \<Longrightarrow> udp_Write (flRaw f) server t = (Inr k, t1) \<Longrightarrow> k \<noteq> length (flRaw f) \<Longrightarrow>
    exchange_ends server c now f t (Inl ErrShortBuffer) t1"
| datagram: "flPhase f = Listening \<Longrightarrow> uIn t = Inr (dg, src) # rs \<Longrightarrow> udpAddrEqual src server \<Longrightarrow>
    exchange_ends server c now f t (Inr (take udpReadBufferSize dg)) (t\<lparr>uIn := rs\<rparr>)"
| no_read: "flPhase f = Listening \<Longrightarrow> uIn t = Inl e # rs \<Longrightarrow>
    exchange_ends server c now f t (Inl (read_error e (flXctx f))) (t\<lparr>uIn := rs\<rparr>)"
| timeout: "flPhase f = Listening \<Longrightarrow> uReadDl t = Some dl \<Longrightarrow> dl \<le> now \<Longrightarrow>
    exchange_ends server c now f t (Inl ErrTimeout) t"

inductive calls_step :: "net_addr \<Rightarrow> calls_state \<Rightarrow> calls_state \<Rightarrow> bool" for server where
  tick: "csNow s \<le> now \<Longrightarrow> calls_step server s (s\<lparr>csNow := now\<rparr>)"
| arrive: "\<not> uClosed (csSock s) \<Longrightarrow> calls_step server s (s\<lparr>csSock := (csSock s)\<lparr>uIn := uIn (csSock s) @ [dg]\<rparr>\<rparr>)"
| call: "acquireID (csClient s) False = Some (Inr i, c1) \<Longrightarrow> build_call c1 rnd q i = Inr (raw, auth) \<Longrightarrow>
    t0 \<le> csNow s \<Longrightarrow> calls_step server s (s\<lparr>csClient := c1,
      csCalls := csCalls s @ [new_flight (csClient s) t0 (csNow s) q rnd i raw auth ctx sc]\<rparr>)"
| not_built: "acquireID (csClient s) False = Some (Inr i, c1) \<Longrightarrow> build_call c1 rnd q i = Inl e \<Longrightarrow>
    calls_step server s (s\<lparr>csClient := release_id i c1\<rparr>)"
| wait_done: "n < length (csCalls s) \<Longrightarrow> f = csCalls s ! n \<Longrightarrow> flPhase f = Begin \<Longrightarrow> 0 < flAttempt f \<Longrightarrow>
    ctx_says (flCtx f) (csNow s) (Some e) \<Longrightarrow> calls_step server s (settle n (stop_waiting e f) s)"
| arm: "n < length (csCalls s) \<Longrightarrow> f = csCalls s ! n \<Longrightarrow> flPhase f = Begin \<Longrightarrow> flReady f \<le> csNow s \<Longrightarrow>
    UDPClient_applyDeadline (csSock s) (flight_ctx (csClient s) (csNow s) f) = (None, t) \<Longrightarrow>
    calls_step server s (settle n (f\<lparr>flXctx := flight_ctx (csClient s) (csNow s) f, flPhase := Armed\<rparr>) (s\<lparr>csSock := t\<rparr>))"
| send: "n < length (csCalls s) \<Longrightarrow> f = csCalls s ! n \<Longrightarrow> flPhase f = Armed \<Longrightarrow>
    udp_Write (flRaw f) server (csSock s) = (Inr k, t) \<Longrightarrow> k = length (flRaw f) \<Longrightarrow>
    calls_step server s (settle n (f\<lparr>flPhase := Listening\<rparr>) (s\<lparr>csSock := t\<rparr>))"
| stray: "n < length (csCalls s) \<Longrightarrow> flPhase (csCalls s ! n) = Listening \<Longrightarrow>
    uIn (csSock s) = Inr (dg, src) # rs \<Longrightarrow> \<not> udpAddrEqual src server \<Longrightarrow>
    calls_step server s (s\<lparr>csSock := (csSock s)\<lparr>uIn := rs\<rparr>\<rparr>)"
| exchanged: "n < length (csCalls s) \<Longrightarrow> f = csCalls s ! n \<Longrightarrow> flReady f \<le> csNow s \<Longrightarrow>
    exchange_ends server (csClient s) (csNow s) f (csSock s) x t \<Longrightarrow> ctx_says (flCtx f) (csNow s) ce \<Longrightarrow>
    calls_step server s (settle n (after_exchange (csClient s) (csNow s) ce x f)
      (s\<lparr>csSock := t, csSeen := csSeen s @ (case x of Inl e \<Rightarrow> [] | Inr reply \<Rightarrow> [reply])\<rparr>))"

inductive_cases calls_stepE: "calls_step server s s'"

definition calls_init :: "client \<Rightarrow> udp_sock \<Rightarrow> calls_state" where
  "calls_init c t = \<lparr>csClient = c, csSock = t, csNow = 0, csCalls = [], csSeen = []\<rparr>"

abbreviation calls_runs :: "net_addr \<Rightarrow> calls_state \<Rightarrow> calls_state \<Rightarrow> bool" where
  "calls_runs server \<equiv> (calls_step server)\<^sup>*\<^sup>*"

section \<open>Identifiers\<close>

definition running :: "flight \<Rightarrow> bool" where
  "running f \<longleftrightarrow> (case flPhase f of Ended r \<Rightarrow> False | _ \<Rightarrow> True)"

definition held_ids :: "flight list \<Rightarrow> byte multiset" where
  "held_ids fs = mset (map flId (filter running fs))"

lemma held_append [simp]: "held_ids (fs @ gs) = held_ids fs + held_ids gs"
  by (simp add: held_ids_def)

lemma held_update:
  assumes "n < length fs" "running (fs ! n)" "flId g = flId (fs ! n)"
  shows "held_ids (fs[n := g]) = (if running g then held_ids fs else held_ids fs - {#flId (fs ! n)#})"
    and "flId (fs ! n) \<in># held_ids fs"
proof -
  have fs: "fs = take n fs @ fs ! n # drop (Suc n) fs" using assms(1) by (rule id_take_nth_drop)
  have gs: "fs[n := g] = take n fs @ g # drop (Suc n) fs" using assms(1) by (rule upd_conv_take_nth_drop)
  have h: "held_ids fs = add_mset (flId (fs ! n)) (held_ids (take n fs) + held_ids (drop (Suc n) fs))"
    by (subst fs) (simp add: held_ids_def assms(2))
  show "held_ids (fs[n := g]) = (if running g then held_ids fs else held_ids fs - {#flId (fs ! n)#})"
    unfolding h gs by (simp add: held_ids_def assms(3))
  show "flId (fs ! n) \<in># held_ids fs" unfolding h by simp
qed


lemma running_simps [simp]:
  "flPhase f = Begin \<Longrightarrow> running f" "flPhase f = Armed \<Longrightarrow> running f" "flPhase f = Listening \<Longrightarrow> running f"
  "flPhase f = Ended r \<Longrightarrow> \<not> running f"
  by (simp_all add: running_def)

lemma exchange_ends_running: "exchange_ends server c now f t x t' \<Longrightarrow> running f"
  by (auto simp: running_def elim: exchange_ends.cases)

definition ids_inv :: "calls_state \<Rightarrow> bool" where
  "ids_inv s \<longleftrightarrow> mset (clPool (csClient s)) + held_ids (csCalls s) = mset NewIdentifierPool"

lemma settle_ids:
  assumes inv: "ids_inv s" and n: "n < length (csCalls s)" "running (csCalls s ! n)" "flId g = flId (csCalls s ! n)"
    and s': "csClient s' = csClient s" "csCalls s' = csCalls s"
  shows "ids_inv (settle n g s')"
proof -
  note h = held_update [OF n]
  show ?thesis
  proof (cases "running g")
    case True
    then have "settle n g s' = s'\<lparr>csCalls := (csCalls s)[n := g]\<rparr>"
      by (auto simp: settle_def running_def s'(2) split: phase.splits)
    with True h(1) inv show ?thesis by (simp add: ids_inv_def s'(1))
  next
    case False
    then have "settle n g s' = s'\<lparr>csCalls := (csCalls s)[n := g], csClient := release_id (flId g) (csClient s)\<rparr>"
      by (auto simp: settle_def running_def s' split: phase.splits)
    moreover have "size (mset NewIdentifierPool) \<le> 256" by (simp add: new_pool_facts)
    ultimately show ?thesis
      using False h n(3) ids.put_conserves [OF h(2), of "clPool (csClient s)" "mset NewIdentifierPool"] inv
      by (simp add: ids_inv_def release_id_def)
  qed
qed

lemma after_exchange_keeps [simp]:
  "flId (after_exchange c now ce x f) = flId f" "flRaw (after_exchange c now ce x f) = flRaw f"
  "flAuth (after_exchange c now ce x f) = flAuth f" "flCall (after_exchange c now ce x f) = flCall f"
  "flRand (after_exchange c now ce x f) = flRand f"
  by (simp_all add: after_exchange_def next_attempt_def Let_def split: sum.split)

lemma stop_waiting_keeps [simp]:
  "flId (stop_waiting e f) = flId f" "flRaw (stop_waiting e f) = flRaw f" "flAuth (stop_waiting e f) = flAuth f"
  "flCall (stop_waiting e f) = flCall f" "flRand (stop_waiting e f) = flRand f" "flPhase (stop_waiting e f) = Ended (Inl e)"
  by (simp_all add: stop_waiting_def)

lemma calls_step_ids:
  assumes "calls_step server s s'" "ids_inv s" shows "ids_inv s'"
  using assms(1)
proof (cases rule: calls_step.cases)
  case (call i c1 rnd q raw auth t0 ctx sc)
  then have "clPool (csClient s) = i # clPool c1" by (auto simp: acquireID_cases split: list.splits)
  with assms(2) show ?thesis by (simp add: call(1) ids_inv_def held_ids_def new_flight_def)
next
  case (not_built i c1 rnd q e)
  then have p: "clPool (csClient s) = i # clPool c1" by (auto simp: acquireID_cases split: list.splits)
  then have "length (clPool c1) < 256"
    using arg_cong [OF assms(2) [unfolded ids_inv_def], of size] by (simp add: new_pool_facts)
  with assms(2) p show ?thesis by (simp add: not_built(1) ids_inv_def release_id_def pool_Release_def)
next
  case (exchanged n f x t ce)
  from exchange_ends_running [OF exchanged(5)] show ?thesis
    unfolding exchanged(1) using exchanged(2,3) by (intro settle_ids [OF assms(2)]) simp_all
qed (use assms(2) in \<open>simp add: ids_inv_def; fail | simp, intro settle_ids [OF assms(2)]; simp\<close>)+

section \<open>Each call is a call of the sequential model\<close>

lemma loop_next:
  assumes "env k = \<lparr>aeCtxDone = None, aeReply = x, aeCtxErr = ce\<rparr>"
  shows "verdict secret i ra ce x = Inr err \<Longrightarrow> fst (retransmit_loop p secret sc env raw i ra k (Suc r) l) =
      fst (retransmit_loop p secret sc env raw i ra (Suc k) r (Some err))"
    and "verdict secret i ra ce x = Inl res \<Longrightarrow> fst (retransmit_loop p secret sc env raw i ra k (Suc r) l) = res"
proof -
  have "(if k > 0 then aeCtxDone (env k) else None) = None" by (simp add: assms)
  note v = retransmit_loop_verdict [of p secret sc env raw i ra k r l, unfolded this option.case assms attempt_env.select_convs]
  show "verdict secret i ra ce x = Inr err \<Longrightarrow> fst (retransmit_loop p secret sc env raw i ra k (Suc r) l) =
      fst (retransmit_loop p secret sc env raw i ra (Suc k) r (Some err))"
    and "verdict secret i ra ce x = Inl res \<Longrightarrow> fst (retransmit_loop p secret sc env raw i ra k (Suc r) l) = res"
    unfolding v by (simp_all split: prod.split)
qed

lemma loop_stopped:
  assumes "aeCtxDone (env k) = Some e" "0 < k"
  shows "fst (retransmit_loop p secret sc env raw i ra k (Suc r) l) = Inl e"
  unfolding retransmit_loop_verdict by (simp add: assms)

text \<open>
  \<open>replies_in seen es\<close>: every reply among what attempts met is a datagram that was read. A running
  call is at the attempt the sequential loop is at, with the same error so far, in every
  environment in which the attempts before it meet what they met here.
\<close>

definition replies_in :: "bytes set \<Rightarrow> attempt_env list \<Rightarrow> bool" where
  "replies_in seen es \<longleftrightarrow> (\<forall>e \<in> set es. \<forall>x. aeReply e = Inr x \<longrightarrow> x \<in> seen)"

definition agrees :: "(nat \<Rightarrow> attempt_env) \<Rightarrow> attempt_env list \<Rightarrow> bool" where
  "agrees env es \<longleftrightarrow> (\<forall>j < length es. env j = es ! j)"

definition flight_exchange :: "client \<Rightarrow> flight \<Rightarrow> (nat \<Rightarrow> attempt_env) \<Rightarrow> packet res" where
  "flight_exchange c f env = fst (exchangeWithRetransmit c (flScale f) env (flRaw f) (flId f) (flAuth f))"

definition flight_loop :: "client \<Rightarrow> flight \<Rightarrow> (nat \<Rightarrow> attempt_env) \<Rightarrow> packet res" where
  "flight_loop c f env = fst (retransmit_loop (clRetransmit c) (clSecret c) (flScale f) env (flRaw f) (flId f) (flAuth f)
     (flAttempt f) (attempt_count c - flAttempt f) (flErr f))"

definition in_step :: "client \<Rightarrow> bytes set \<Rightarrow> flight \<Rightarrow> bool" where
  "in_step c seen f \<longleftrightarrow> flAttempt f < attempt_count c \<and> length (flMet f) = flAttempt f \<and> replies_in seen (flMet f)
    \<and> (\<forall>env. agrees env (flMet f) \<longrightarrow> flight_exchange c f env = flight_loop c f env)"

definition follows :: "client \<Rightarrow> bytes set \<Rightarrow> flight \<Rightarrow> bool" where
  "follows c seen f \<longleftrightarrow>
    (case flPhase f of
       Ended r \<Rightarrow> replies_in seen (flMet f)
         \<and> (\<forall>env. agrees env (flMet f) \<longrightarrow> r = call_result (answers (flCall f)) (flight_exchange c f env))
     | _ \<Rightarrow> in_step c seen f)"

lemma follows_running: "running f \<Longrightarrow> follows c seen f \<longleftrightarrow> in_step c seen f"
  by (auto simp: follows_def running_def split: phase.splits)

lemma in_step_pool [simp]: "in_step (c\<lparr>clPool := p\<rparr>) seen f = in_step c seen f"
  by (simp add: in_step_def attempt_count_def flight_exchange_def flight_loop_def exchangeWithRetransmit_def)

lemma follows_pool [simp]: "follows (c\<lparr>clPool := p\<rparr>) seen f = follows c seen f"
  by (simp add: follows_def flight_exchange_def exchangeWithRetransmit_def split: phase.split)

lemma in_step_mono: "in_step c seen f \<Longrightarrow> seen \<subseteq> seen' \<Longrightarrow> in_step c seen' f"
  by (auto simp: in_step_def replies_in_def)

lemma follows_mono: "follows c seen f \<Longrightarrow> seen \<subseteq> seen' \<Longrightarrow> follows c seen' f"
  using in_step_mono by (auto simp: follows_def replies_in_def split: phase.splits)

lemma agrees_snoc: "agrees env (es @ [e]) \<longleftrightarrow> agrees env es \<and> env (length es) = e"
  by (auto simp: agrees_def nth_append less_Suc_eq)

text \<open>One more attempt met: the sequential loop is at this attempt.\<close>

lemma in_step_met:
  assumes "in_step c seen f" "agrees env (flMet f @ [e])"
  shows "env (flAttempt f) = e"
    and "flight_exchange c f env = fst (retransmit_loop (clRetransmit c) (clSecret c) (flScale f) env (flRaw f) (flId f) (flAuth f)
         (flAttempt f) (Suc (attempt_count c - Suc (flAttempt f))) (flErr f))"
proof -
  from assms show "env (flAttempt f) = e" by (simp add: in_step_def agrees_snoc)
  have "attempt_count c - flAttempt f = Suc (attempt_count c - Suc (flAttempt f))"
    using assms(1) by (simp add: in_step_def Suc_diff_Suc)
  with assms show "flight_exchange c f env = fst (retransmit_loop (clRetransmit c) (clSecret c) (flScale f) env (flRaw f)
      (flId f) (flAuth f) (flAttempt f) (Suc (attempt_count c - Suc (flAttempt f))) (flErr f))"
    by (simp add: in_step_def agrees_snoc flight_loop_def)
qed

lemma follows_after:
  assumes f: "in_step c seen f" and seen: "seen \<subseteq> seen'" "\<forall>y. x = Inr y \<longrightarrow> y \<in> seen'"
  shows "follows c seen' (after_exchange c now ce x f)"
proof -
  let ?k = "flAttempt f" and ?e = "\<lparr>aeCtxDone = None, aeReply = x, aeCtxErr = ce\<rparr>"
  have rep: "replies_in seen' (flMet f @ [?e])"
    using f seen by (auto simp: in_step_def replies_in_def)
  note met = in_step_met [OF f, where e = ?e]
  have len: "length (flMet f) = ?k" using f by (simp add: in_step_def)
  show ?thesis
  proof (cases "verdict (clSecret c) (flId f) (flAuth f) ce x")
    case (Inl res)
    have "flight_exchange c f env = res" if "agrees env (flMet f @ [?e])" for env
      using met(2) [OF that] loop_next(2) [of env ?k, OF met(1) [OF that] Inl] by simp
    with rep Inl show ?thesis by (simp add: after_exchange_def follows_def flight_exchange_def)
  next
    case (Inr err)
    have go: "flight_exchange c f env = fst (retransmit_loop (clRetransmit c) (clSecret c) (flScale f) env (flRaw f)
        (flId f) (flAuth f) (Suc ?k) (attempt_count c - Suc ?k) (Some err))" if "agrees env (flMet f @ [?e])" for env
      using met(2) [OF that] loop_next(1) [of env ?k, OF met(1) [OF that] Inr] by simp
    show ?thesis
    proof (cases "Suc ?k < attempt_count c")
      case True
      with Inr rep go len show ?thesis
        by (simp add: after_exchange_def next_attempt_def follows_def in_step_def flight_exchange_def flight_loop_def)
    next
      case False
      with go have "flight_exchange c f env = Inl err" if "agrees env (flMet f @ [?e])" for env using that by simp
      with False Inr rep show ?thesis
        by (simp add: after_exchange_def next_attempt_def follows_def call_result_def flight_exchange_def)
    qed
  qed
qed

lemma follows_stopped:
  assumes f: "in_step c seen f" "0 < flAttempt f"
  shows "follows c seen (stop_waiting e f)"
proof -
  let ?e = "\<lparr>aeCtxDone = Some e, aeReply = Inl e, aeCtxErr = Some e\<rparr>"
  have "flight_exchange c f env = Inl e" if a: "agrees env (flMet f @ [?e])" for env
    using in_step_met(2) [OF f(1) a] loop_stopped [of env "flAttempt f" e] in_step_met(1) [OF f(1) a] f(2) by simp
  moreover have "replies_in seen (flMet f @ [?e])" using f(1) by (auto simp: in_step_def replies_in_def)
  ultimately show ?thesis by (simp add: stop_waiting_def follows_def call_result_def flight_exchange_def)
qed


section \<open>The invariant\<close>

lemma build_call_pool [simp]: "build_call (c\<lparr>clPool := p\<rparr>) rnd q = build_call c rnd q"
  by (cases q) simp_all

text \<open>The flight holds what its call built.\<close>

definition built :: "client \<Rightarrow> flight \<Rightarrow> bool" where
  "built c f \<longleftrightarrow> build_call c (flRand f) (flCall f) (flId f) = Inr (flRaw f, flAuth f)"

lemma built_cong:
  "flId g = flId f \<Longrightarrow> flRaw g = flRaw f \<Longrightarrow> flAuth g = flAuth f \<Longrightarrow> flCall g = flCall f \<Longrightarrow> flRand g = flRand f \<Longrightarrow>
   built c g = built c f"
  by (simp add: built_def)

definition calls_inv :: "client \<Rightarrow> calls_state \<Rightarrow> bool" where
  "calls_inv c s \<longleftrightarrow> (\<exists>p. csClient s = c\<lparr>clPool := p\<rparr>) \<and> ids_inv s
    \<and> (\<forall>f \<in> set (csCalls s). follows c (set (csSeen s)) f \<and> built c f)"

lemma settle_calls:
  "set (csCalls (settle n g s)) \<subseteq> insert g (set (csCalls s))" "csSeen (settle n g s) = csSeen s"
  "csClient (settle n g s) = csClient s \<or> csClient (settle n g s) = release_id (flId g) (csClient s)"
  by (auto simp: settle_def Let_def split: phase.split dest: set_update_subset_insert [THEN subsetD])

lemma calls_inv_settle:
  assumes inv: "calls_inv c s" and n: "n < length (csCalls s)" "running (csCalls s ! n)"
    and g: "flId g = flId (csCalls s ! n)" "flRaw g = flRaw (csCalls s ! n)" "flAuth g = flAuth (csCalls s ! n)"
      "flCall g = flCall (csCalls s ! n)" "flRand g = flRand (csCalls s ! n)"
    and s': "csClient s' = csClient s" "csCalls s' = csCalls s" "set (csSeen s) \<subseteq> set (csSeen s')"
    and f: "follows c (set (csSeen s')) g"
  shows "calls_inv c (settle n g s')"
proof -
  have mem: "csCalls s ! n \<in> set (csCalls s)" using n(1) by simp
  note i = inv [unfolded calls_inv_def]
  from settle_calls(3) [of n g s'] have "\<exists>p. csClient (settle n g s') = c\<lparr>clPool := p\<rparr>"
    using i s'(1) by (auto simp: release_id_def)
  moreover have "ids_inv (settle n g s')" using i n g(1) s'(1,2) by (intro settle_ids) auto
  moreover have "follows c (set (csSeen s')) h \<and> built c h"
    if "h \<in> insert g (set (csCalls s'))" for h
  proof (cases "h = g")
    case True
    then show ?thesis using f i mem built_cong [OF g] by auto
  next
    case False
    then have "h \<in> set (csCalls s)" using that s'(2) by simp
    then show ?thesis using i follows_mono [OF _ s'(3)] by blast
  qed
  ultimately show ?thesis
    unfolding calls_inv_def settle_calls(2) using settle_calls(1) [of n g s'] by blast
qed

lemma after_exchange_pool [simp]: "after_exchange (c\<lparr>clPool := p\<rparr>) = after_exchange c"
  by (intro ext) (simp add: after_exchange_def next_attempt_def attempt_count_def Let_def split: sum.split)

lemma calls_inv_in_step:
  "calls_inv c s \<Longrightarrow> n < length (csCalls s) \<Longrightarrow> running (csCalls s ! n) \<Longrightarrow> in_step c (set (csSeen s)) (csCalls s ! n)"
  by (simp add: calls_inv_def follows_running [symmetric])

lemma calls_step_inv:
  assumes "calls_step server s s'" "calls_inv c s" shows "calls_inv c s'"
  using assms(1)
proof (cases rule: calls_step.cases)
  case (call i c1 rnd q raw auth t0 ctx sc)
  from assms(2) obtain p where p: "csClient s = c\<lparr>clPool := p\<rparr>" by (auto simp: calls_inv_def)
  with call(2) have c1: "c1 = c\<lparr>clPool := clPool c1\<rparr>" by (auto simp: acquireID_cases split: list.splits)
  let ?f = "new_flight (csClient s) t0 (csNow s) q rnd i raw auth ctx sc"
  have "0 < attempt_count c" using Attempts_pos [of "clRetransmit c"] by (simp add: attempt_count_def)
  then have "follows c (set (csSeen s)) ?f"
    by (simp add: new_flight_def follows_def in_step_def replies_in_def flight_exchange_def flight_loop_def
        exchangeWithRetransmit_def attempt_count_def)
  moreover have "build_call c rnd q i = Inr (raw, auth)" using call(3) c1 build_call_pool by metis
  then have "built c ?f" by (simp add: built_def new_flight_def)
  moreover have "ids_inv s'" using calls_step_ids [OF assms(1)] assms(2) by (simp add: calls_inv_def)
  ultimately show ?thesis using assms(2) c1 unfolding calls_inv_def call(1) by auto
next
  case (not_built i c1 rnd q e)
  from assms(2) obtain p where p: "csClient s = c\<lparr>clPool := p\<rparr>" by (auto simp: calls_inv_def)
  with not_built(2) have "\<exists>q. release_id i c1 = c\<lparr>clPool := q\<rparr>"
    by (auto simp: acquireID_cases release_id_def split: list.splits)
  moreover have "ids_inv s'" using calls_step_ids [OF assms(1)] assms(2) by (simp add: calls_inv_def)
  ultimately show ?thesis using assms(2) by (simp add: calls_inv_def not_built(1))
next
  case (wait_done n f e)
  have r: "running (csCalls s ! n)" using wait_done by simp
  show ?thesis unfolding wait_done(1)
    using follows_stopped [OF calls_inv_in_step [OF assms(2) wait_done(2) r]] wait_done(3,5)
    by (intro calls_inv_settle [OF assms(2) wait_done(2) r]) simp_all
next
  case (arm n f t)
  have r: "running (csCalls s ! n)" using arm by simp
  show ?thesis unfolding arm(1)
    using calls_inv_in_step [OF assms(2) arm(2) r] arm(3)
    by (intro calls_inv_settle [OF assms(2) arm(2) r]) (simp_all add: follows_running in_step_def flight_exchange_def flight_loop_def)
next
  case (send n f k t)
  have r: "running (csCalls s ! n)" using send by simp
  show ?thesis unfolding send(1)
    using calls_inv_in_step [OF assms(2) send(2) r] send(3)
    by (intro calls_inv_settle [OF assms(2) send(2) r]) (simp_all add: follows_running in_step_def flight_exchange_def flight_loop_def)
next
  case (exchanged n f x t ce)
  have r: "running (csCalls s ! n)" using exchange_ends_running [OF exchanged(5)] exchanged(3) by simp
  from assms(2) obtain p where p: "csClient s = c\<lparr>clPool := p\<rparr>" by (auto simp: calls_inv_def)
  let ?seen = "set (csSeen s @ (case x of Inl e \<Rightarrow> [] | Inr reply \<Rightarrow> [reply]))"
  have "follows c ?seen (after_exchange c (csNow s) ce x (csCalls s ! n))"
    by (rule follows_after [OF calls_inv_in_step [OF assms(2) exchanged(2) r]]) auto
  then show ?thesis unfolding exchanged(1) exchanged(3) p after_exchange_pool
    by (intro calls_inv_settle [OF assms(2) exchanged(2) r]) simp_all
qed (use assms calls_step_ids [OF assms(1)] in \<open>simp add: calls_inv_def\<close>)+

lemma calls_reachable_inv:
  assumes "clPool c = NewIdentifierPool" "calls_runs server (calls_init c t) s" shows "calls_inv c s"
  using assms(2)
proof (induction rule: rtranclp_induct)
  case base
  have "csClient (calls_init c t) = c\<lparr>clPool := clPool c\<rparr>" by (simp add: calls_init_def)
  moreover have "ids_inv (calls_init c t)" by (simp add: assms(1) ids_inv_def calls_init_def held_ids_def)
  ultimately show ?case unfolding calls_inv_def by (simp add: calls_init_def) (metis client.surjective client.update_convs(2))
next
  case (step s s')
  then show ?case using calls_step_inv by blast
qed


section \<open>What holds of concurrent calls\<close>

text \<open>A call in the sequential model with the identifier and the random octets given.\<close>

lemma sequential_call:
  assumes "build_call c rnd q i = Inr (raw, auth)" and "ceRand cenv = rnd" "\<not> ceCanceled cenv"
  shows "\<exists>evs. make_call (c\<lparr>clPool := [i]\<rparr>) cenv ctx q = Some (call_result (answers q) (fst (exchangeWithRetransmit c
      (ceScale cenv) (ceAttempt cenv (applyDefaultTimeout (c\<lparr>clPool := [i]\<rparr>) (ceNow cenv) ctx)) raw i auth)), evs, c\<lparr>clPool := [i]\<rparr>)"
proof -
  let ?env = "ceAttempt cenv (applyDefaultTimeout (c\<lparr>clPool := [i]\<rparr>) (ceNow cenv) ctx)"
  obtain r evs where x: "exchangeWithRetransmit c (ceScale cenv) ?env raw i auth = (r, evs)" by fastforce
  have "exchangeWithRetransmit (c\<lparr>clPool := []\<rparr>) (ceScale cenv) ?env raw i auth = (r, evs)"
    using x by (simp add: exchangeWithRetransmit_def)
  with assms x show ?thesis
    by (simp add: make_call_run run_call_def acquireID_cases call_result_def release_id_def pool_Release_def)
qed


lemma distinct_filter_nth:
  "distinct (map g (filter P xs)) \<Longrightarrow> n < length xs \<Longrightarrow> m < length xs \<Longrightarrow> n \<noteq> m \<Longrightarrow> P (xs ! n) \<Longrightarrow> P (xs ! m) \<Longrightarrow>
   g (xs ! n) \<noteq> g (xs ! m)"
proof (induction xs arbitrary: n m)
  case (Cons x xs)
  then show ?case by (cases n; cases m) (auto split: if_splits simp: image_iff)
qed simp

lemma running_ids_differ:
  assumes "ids_inv s" "n < length (csCalls s)" "m < length (csCalls s)" "n \<noteq> m"
    and "running (csCalls s ! n)" "running (csCalls s ! m)"
  shows "flId (csCalls s ! n) \<noteq> flId (csCalls s ! m)"
proof -
  let ?ids = "map flId (filter running (csCalls s))"
  have "mset (clPool (csClient s) @ ?ids) = mset NewIdentifierPool"
    using assms(1) by (simp add: ids_inv_def held_ids_def)
  then have "distinct (clPool (csClient s) @ ?ids)"
    using new_pool_facts(1) by (metis distinct_count_atmost_1 mset_eq_setD)
  with assms(2-) show ?thesis by (intro distinct_filter_nth [where P = running]) auto
qed

text \<open>
  C5: However the calls of one UDP client interleave, whatever arrives and whatever fails: the
  identifiers of the running calls and the free ones are always the 256 of the pool, so a new
  call blocks only when all are taken, no two running calls share one, and no datagram verifies
  for two of them. And each call that has returned returned what the same call, with the same
  request, random octets and identifier, returns on its own, in every environment in which its
  attempts meet what they met here, one after the other; what they met as replies are datagrams read
  from the server. So all that is proved of a single call holds of each of many.
\<close>

theorem concurrent_calls:
  assumes "clPool c = NewIdentifierPool" and "calls_runs server (calls_init c t) s"
  shows "mset (clPool (csClient s)) + held_ids (csCalls s) = mset NewIdentifierPool
    \<and> (acquireID (csClient s) False = None \<longleftrightarrow> size (held_ids (csCalls s)) = 256)
    \<and> (\<forall>n m x. n < length (csCalls s) \<and> m < length (csCalls s) \<and> n \<noteq> m
        \<and> running (csCalls s ! n) \<and> running (csCalls s ! m) \<longrightarrow>
        flId (csCalls s ! n) \<noteq> flId (csCalls s ! m)
        \<and> (isl (VerifyResponse x (flId (csCalls s ! n)) (flAuth (csCalls s ! n)) (clSecret c))
          \<or> isl (VerifyResponse x (flId (csCalls s ! m)) (flAuth (csCalls s ! m)) (clSecret c))))
    \<and> (\<forall>f r cenv ctx. f \<in> set (csCalls s) \<and> flPhase f = Ended r
        \<and> \<not> ceCanceled cenv \<and> ceRand cenv = flRand f \<and> ceScale cenv = flScale f
        \<and> (\<forall>cx. \<forall>k < length (flMet f). ceAttempt cenv cx k = flMet f ! k) \<longrightarrow>
        (\<exists>evs. make_call (c\<lparr>clPool := [flId f]\<rparr>) cenv ctx (flCall f) = Some (r, evs, c\<lparr>clPool := [flId f]\<rparr>)))
    \<and> (\<forall>f e x. f \<in> set (csCalls s) \<and> e \<in> set (flMet f) \<and> aeReply e = Inr x \<longrightarrow> x \<in> set (csSeen s))"
proof (intro conjI allI impI; (elim conjE)?)
  note inv = calls_reachable_inv [OF assms]
  then have ids: "ids_inv s" by (simp add: calls_inv_def)
  then show "mset (clPool (csClient s)) + held_ids (csCalls s) = mset NewIdentifierPool" by (simp add: ids_inv_def)
  have "size (mset (clPool (csClient s))) + size (held_ids (csCalls s)) = 256"
    using arg_cong [OF ids [unfolded ids_inv_def], of size] new_pool_facts(3) by simp
  then show "acquireID (csClient s) False = None \<longleftrightarrow> size (held_ids (csCalls s)) = 256"
    by (cases "clPool (csClient s)") (auto simp: acquireID_cases)
  fix n m x
  assume d: "n < length (csCalls s)" "m < length (csCalls s)" "n \<noteq> m" "running (csCalls s ! n)" "running (csCalls s ! m)"
  from running_ids_differ [OF ids d] show ne: "flId (csCalls s ! n) \<noteq> flId (csCalls s ! m)" .
  show "isl (VerifyResponse x (flId (csCalls s ! n)) (flAuth (csCalls s ! n)) (clSecret c))
      \<or> isl (VerifyResponse x (flId (csCalls s ! m)) (flAuth (csCalls s ! m)) (clSecret c))"
    using other_identifier ne by metis
next
  fix f r ctx and cenv :: call_env
  assume f: "f \<in> set (csCalls s)" "flPhase f = Ended r"
    and env: "\<not> ceCanceled cenv" "ceRand cenv = flRand f" "ceScale cenv = flScale f"
      "\<forall>cx. \<forall>k < length (flMet f). ceAttempt cenv cx k = flMet f ! k"
  from calls_reachable_inv [OF assms] f(1) have i: "follows c (set (csSeen s)) f" "built c f"
    by (simp_all add: calls_inv_def)
  have "agrees (ceAttempt cenv cx) (flMet f)" for cx using env(4) by (simp add: agrees_def)
  with i(1) f(2) have "r = call_result (answers (flCall f)) (flight_exchange c f (ceAttempt cenv cx))" for cx
    by (simp add: follows_def)
  with sequential_call [OF i(2) [unfolded built_def] env(2,1), of ctx] env(3)
  show "\<exists>evs. make_call (c\<lparr>clPool := [flId f]\<rparr>) cenv ctx (flCall f) = Some (r, evs, c\<lparr>clPool := [flId f]\<rparr>)"
    by (simp add: flight_exchange_def)
next
  fix f e x
  assume f: "f \<in> set (csCalls s)" "e \<in> set (flMet f)" "aeReply e = Inr x"
  from calls_reachable_inv [OF assms] f(1) have "follows c (set (csSeen s)) f" by (simp add: calls_inv_def)
  then have "replies_in (set (csSeen s)) (flMet f)" by (simp add: follows_def in_step_def split: phase.splits)
  with f(2,3) show "x \<in> set (csSeen s)" by (auto simp: replies_in_def)
qed

section \<open>Deadlines\<close>

text \<open>
  C7: The deadlines of concurrent calls are those of one socket, and the last one to be set
  holds for all. When a call starts its attempt while another is waiting for its reply and nothing
  has come in, the waiting call loses its own deadline: from then on it times out when the
  deadline of the other call's attempt passes, and only then; if that attempt has none, never.
\<close>

theorem deadlines_shared:
  assumes "n < length (csCalls s)" "m < length (csCalls s)" "n \<noteq> m"
    and "flPhase (csCalls s ! n) = Listening" "flPhase (csCalls s ! m) = Begin" "flReady (csCalls s ! m) \<le> csNow s"
    and "uDlErr (csSock s) = None" "uIn (csSock s) = []"
    and d: "d = cxDeadline (flight_ctx (csClient s) (csNow s) (csCalls s ! m))"
  shows "\<exists>s'. calls_step server s s' \<and> csCalls s' ! n = csCalls s ! n \<and> flPhase (csCalls s' ! m) = Armed
    \<and> (\<forall>now x t. exchange_ends server (csClient s') now (csCalls s' ! n) (csSock s') x t \<longleftrightarrow>
        (\<exists>dl. d = Some dl \<and> dl \<le> now \<and> x = Inl ErrTimeout \<and> t = csSock s'))"
proof -
  let ?ctx = "flight_ctx (csClient s) (csNow s) (csCalls s ! m)"
  let ?f = "(csCalls s ! m)\<lparr>flXctx := ?ctx, flPhase := Armed\<rparr>"
  let ?s = "settle m ?f (s\<lparr>csSock := (csSock s)\<lparr>uReadDl := d, uWriteDl := d\<rparr>\<rparr>)"
  have "UDPClient_applyDeadline (csSock s) ?ctx = (None, (csSock s)\<lparr>uReadDl := d, uWriteDl := d\<rparr>)"
    using assms(7) by (cases d) (simp_all add: UDPClient_applyDeadline_def d)
  from calls_step.arm [OF assms(2) refl assms(5,6) this] have st: "calls_step server s ?s" .
  have s': "csCalls ?s = (csCalls s)[m := ?f]" "csSock ?s = (csSock s)\<lparr>uReadDl := d, uWriteDl := d\<rparr>" "csClient ?s = csClient s"
    by (simp_all add: settle_def)
  have n: "csCalls ?s ! n = csCalls s ! n" using assms(3) by (simp add: s')
  have "exchange_ends server (csClient ?s) now (csCalls s ! n) (csSock ?s) x t \<longleftrightarrow>
      (\<exists>dl. d = Some dl \<and> dl \<le> now \<and> x = Inl ErrTimeout \<and> t = csSock ?s)" for now x t
    using assms(4,8) by (subst exchange_ends.simps) (auto simp: s')
  with st n assms(2) show ?thesis by (intro exI [of _ ?s]) (simp add: s')
qed


section \<open>A run with two calls\<close>

definition one_attempt :: client where
  "one_attempt = NewClient initial_Default [0x73] [WithRetransmitPolicy \<lparr>rpMaxAttempts = 1, rpInitial = 0, rpMax = 0, rpJittered = False\<rparr>]"

definition idle_sock :: udp_sock where
  "idle_sock = \<lparr>uIn = [], uOut = [], uWr = [], uDlErr = None, uReadDl = None, uWriteDl = None, uClosed = False\<rparr>"

lemma access_request_built:
  "\<exists>raw. build_call (one_attempt\<lparr>clPool := p\<rparr>) (Inr (replicate 16 7)) (AccessCall NewAccessRequest) i = Inr (raw, replicate 16 7)"
proof -
  let ?p = "access_packet NewAccessRequest (replicate 16 7) i"
  have p: "?p = \<lparr>pCode = AccessRequest, pIdentifier = i, pAuthenticator = replicate 16 7, pAttributes = []\<rparr>"
    by (simp add: access_packet_def NewAccessRequest_def with_ma_def AuthPAP_def AuthEAP_def)
  have "\<exists>raw. Marshal ?p [0x73] = Inr raw" unfolding p
    by (rule Marshal_total) (simp_all add: wf_packet_def ma_sized_def sendable_def isValidCode_def marshal_len_seal
        maxLengthForCode_def limit_num code_num IsAccounting_def ma_count_def)
  then show ?thesis
    by (auto simp: build_access_def NewAccessRequest_def NewAccessRequestAuthenticator_def one_attempt_def NewClient_def
        WithRetransmitPolicy_def)
qed

lemma one_attempt_timeout [simp]: "applyDefaultTimeout (one_attempt\<lparr>clPool := p\<rparr>) t ctx = ctx"
  "applyDefaultTimeout one_attempt t ctx = ctx"
  by (simp_all add: applyDefaultTimeout_def one_attempt_def NewClient_def WithRetransmitPolicy_def)

lemma two_calls:
  "\<exists>s. calls_runs server (calls_init one_attempt idle_sock) s \<and> length (csCalls s) = 2
    \<and> flPhase (csCalls s ! 0) = Listening \<and> uReadDl (csSock s) = Some 5
    \<and> flPhase (csCalls s ! 1) = Begin \<and> flReady (csCalls s ! 1) \<le> csNow s
    \<and> uDlErr (csSock s) = None \<and> uIn (csSock s) = [] \<and> cxDeadline (flight_ctx (csClient s) (csNow s) (csCalls s ! 1)) = None"
proof -
  let ?q = "AccessCall NewAccessRequest" and ?a = "replicate 16 7 :: bytes" and ?no = "\<lparr>cxDeadline = None, cxErr = None\<rparr> :: go_ctx"
  let ?five = "\<lparr>cxDeadline = Some 5, cxErr = None\<rparr> :: go_ctx" and ?sc = "\<lambda>_ d. d :: duration"
  have "[0..<256] = 0 # 1 # [2..<256 :: nat]" by code_simp
  then obtain pool where pool: "clPool one_attempt = 0 # 1 # pool"
    by (simp only: one_attempt_def NewClient_def WithRetransmitPolicy_def NewIdentifierPool_def fold_simps id_apply
        client.simps list.map semiring_1_class.of_nat_0 of_nat_1 o_apply)
  let ?c1 = "one_attempt\<lparr>clPool := 1 # pool\<rparr>" and ?c2 = "one_attempt\<lparr>clPool := pool\<rparr>"
  obtain raw0 raw1 where raw: "build_call ?c1 (Inr ?a) ?q 0 = Inr (raw0, ?a)" "build_call ?c2 (Inr ?a) ?q 1 = Inr (raw1, ?a)"
    using access_request_built by blast
  define f0 where "f0 = new_flight one_attempt 0 0 ?q (Inr ?a) 0 raw0 ?a ?five ?sc"
  define f1 where "f1 = new_flight ?c1 0 0 ?q (Inr ?a) 1 raw1 ?a ?no ?sc"
  have f: "flPhase f0 = Begin" "flReady f0 = 0" "flRaw f0 = raw0" "flXctx f0 = ?five" "flAttempt f0 = 0" "flCtx f0 = ?five"
    "flPhase f1 = Begin" "flReady f1 = 0" "flAttempt f1 = 0" "flCtx f1 = ?no" by (simp_all add: f0_def f1_def new_flight_def)
  have x: "flAttempt f = 0 \<Longrightarrow> flight_ctx (one_attempt\<lparr>clPool := p\<rparr>) now f = flCtx f" for p now f
    by (simp add: flight_ctx_def attempt_ctx_def per_attempt_def attempt_count_def one_attempt_def NewClient_def
        WithRetransmitPolicy_def Attempts_def)
  let ?t = "idle_sock\<lparr>uReadDl := Some 5, uWriteDl := Some 5\<rparr>"
  let ?s0 = "calls_init one_attempt idle_sock"
  let ?s1 = "\<lparr>csClient = ?c1, csSock = idle_sock, csNow = 0, csCalls = [f0], csSeen = []\<rparr>"
  let ?s2 = "\<lparr>csClient = ?c1, csSock = ?t, csNow = 0, csCalls = [f0\<lparr>flXctx := ?five, flPhase := Armed\<rparr>], csSeen = []\<rparr>"
  let ?s3 = "\<lparr>csClient = ?c1, csSock = ?t\<lparr>uOut := [(raw0, server)]\<rparr>, csNow = 0,
    csCalls = [f0\<lparr>flXctx := ?five, flPhase := Listening\<rparr>], csSeen = []\<rparr>"
  let ?s4 = "?s3\<lparr>csClient := ?c2, csCalls := [f0\<lparr>flXctx := ?five, flPhase := Listening\<rparr>, f1]\<rparr>"
  have 1: "calls_step server ?s0 ?s1"
    using calls_step.call [of ?s0 0 ?c1 "Inr ?a" ?q raw0 ?a 0 server ?five ?sc] raw(1)
    by (simp add: calls_init_def acquireID_cases pool f0_def)
  have 2: "calls_step server ?s1 ?s2"
    using calls_step.arm [of 0 ?s1 f0 ?t server]
    by (simp add: f x settle_def UDPClient_applyDeadline_def idle_sock_def)
  let ?armed = "f0\<lparr>flXctx := ?five, flPhase := Armed\<rparr>" and ?t' = "?t\<lparr>uOut := [(raw0, server)]\<rparr>"
  have w: "udp_Write (flRaw ?armed) server (csSock ?s2) = (Inr (length raw0), ?t')"
    by (simp add: udp_Write_def idle_sock_def f(3))
  have l: "0 < length (csCalls ?s2)" "?armed = csCalls ?s2 ! 0" "flPhase ?armed = Armed" by simp_all
  have "length raw0 = length (flRaw ?armed)" by (simp add: f(3))
  from calls_step.send [OF l w this] have 3: "calls_step server ?s2 ?s3" by (simp add: settle_def)
  have 4: "calls_step server ?s3 ?s4"
    using calls_step.call [of ?s3 1 ?c2 "Inr ?a" ?q raw1 ?a 0 server ?no ?sc] raw(2) by (simp add: acquireID_cases f1_def)
  note run = rtranclp.rtrancl_into_rtrancl [OF rtranclp.rtrancl_into_rtrancl [OF rtranclp.rtrancl_into_rtrancl [OF
    r_into_rtranclp [of "calls_step server", OF 1] 2] 3] 4]
  show ?thesis by (intro exI [of _ ?s4] conjI run) (simp_all add: f x idle_sock_def)
qed

theorem concurrent_calls_witness:
  "\<exists>s. calls_runs (UDPAddr [10, 0, 0, 1] 1812 []) (calls_init one_attempt idle_sock) s
    \<and> length (csCalls s) = 2 \<and> running (csCalls s ! 0) \<and> running (csCalls s ! 1) \<and> flId (csCalls s ! 0) \<noteq> flId (csCalls s ! 1)"
proof -
  obtain s where s: "calls_runs (UDPAddr [10, 0, 0, 1] 1812 []) (calls_init one_attempt idle_sock) s" "length (csCalls s) = 2"
    "flPhase (csCalls s ! 0) = Listening" "flPhase (csCalls s ! 1) = Begin" using two_calls by blast
  have "clPool one_attempt = NewIdentifierPool" by (simp add: one_attempt_def NewClient_def WithRetransmitPolicy_def)
  from concurrent_calls [OF this s(1), THEN conjunct2, THEN conjunct2, THEN conjunct1, rule_format, of 0 1] s show ?thesis by auto
qed

theorem deadlines_shared_witness:
  "\<exists>s s'. calls_runs (UDPAddr [10, 0, 0, 1] 1812 []) (calls_init one_attempt idle_sock) s
    \<and> calls_step (UDPAddr [10, 0, 0, 1] 1812 []) s s' \<and> uReadDl (csSock s) = Some 5 \<and> flPhase (csCalls s' ! 0) = Listening
    \<and> (\<forall>now x t. \<not> exchange_ends (UDPAddr [10, 0, 0, 1] 1812 []) (csClient s') now (csCalls s' ! 0) (csSock s') x t)"
proof -
  obtain s where s: "calls_runs (UDPAddr [10, 0, 0, 1] 1812 []) (calls_init one_attempt idle_sock) s" "length (csCalls s) = 2"
    "flPhase (csCalls s ! 0) = Listening" "uReadDl (csSock s) = Some 5" "flPhase (csCalls s ! 1) = Begin"
    "flReady (csCalls s ! 1) \<le> csNow s" "uDlErr (csSock s) = None" "uIn (csSock s) = []"
    "cxDeadline (flight_ctx (csClient s) (csNow s) (csCalls s ! 1)) = None" using two_calls by blast
  have "0 < length (csCalls s)" "1 < length (csCalls s)" "(0 :: nat) \<noteq> 1" using s(2) by simp_all
  from deadlines_shared [OF this s(3,5-8) s(9) [symmetric], of "UDPAddr [10, 0, 0, 1] 1812 []"] obtain s' where
    "calls_step (UDPAddr [10, 0, 0, 1] 1812 []) s s'" "csCalls s' ! 0 = csCalls s ! 0"
    "\<forall>now x t. \<not> exchange_ends (UDPAddr [10, 0, 0, 1] 1812 []) (csClient s') now (csCalls s' ! 0) (csSock s') x t" by auto
  with s(1,3,4) show ?thesis by (intro exI [of _ s] exI [of _ s']) simp
qed

end
