(* ===== verification/Extended.thy ===== *)
theory Extended
  imports Attribute
begin

text \<open>
  \<open>packet/extended.go\<close>: the extended attributes of RFC 6929, the single-attribute codec
  (types 241, 243, 244 with a 3-octet header, type 242 with a fourth octet that carries the
  More flag), the splitting of a long value into fragments and the loop that puts it together.
\<close>

definition extendedTypeIsLong :: "byte \<Rightarrow> bool" where
  "extendedTypeIsLong t \<longleftrightarrow> t = AttrExtendedType2"

definition isExtendedType :: "byte \<Rightarrow> bool" where
  "isExtendedType t \<longleftrightarrow>
     t \<in> set [AttrExtendedType1, AttrExtendedType2, AttrExtendedType3, AttrExtendedType4]"

record extended_attribute =
  eType :: byte
  eExtendedType :: byte
  eValue :: bytes

definition ext_header_len :: "byte \<Rightarrow> nat" where
  "ext_header_len t = (if extendedTypeIsLong t then 4 else 3)"

definition MarshalExtended :: "extended_attribute \<Rightarrow> bytes res" where
  "MarshalExtended e =
    (if \<not> isExtendedType (eType e) then Inl ErrInvalidAttribute
     else let maxVal = if extendedTypeIsLong (eType e) then 251 else AttrValueMaxLength in
       if length (eValue e) > maxVal then Inl ErrAttributeTooLong
       else Inr ([eType e, word_of_nat (ext_header_len (eType e) + length (eValue e)), eExtendedType e]
                 @ (if extendedTypeIsLong (eType e) then [0] else []) @ eValue e))"

definition UnmarshalExtended :: "bytes \<Rightarrow> (extended_attribute \<times> bytes) res" where
  "UnmarshalExtended data =
    (if length data < 2 then Inl ErrShortBuffer
     else let t = data ! 0 in
       if \<not> isExtendedType t then Inl ErrInvalidAttribute
       else let n = unat (data ! 1) in
         if n < 3 then Inl ErrInvalidAttribute
         else if extendedTypeIsLong t \<and> n < 4 then Inl ErrInvalidAttribute
         else if n > length data then Inl ErrInvalidLength
         else Inr (\<lparr>eType = t, eExtendedType = data ! 2, eValue = slice (ext_header_len t) n data\<rparr>,
                   drop n data))"

definition ExtendedMore :: "bytes \<Rightarrow> bool" where
  "ExtendedMore raw \<longleftrightarrow>
    (if length raw < 4 then False
     else if \<not> extendedTypeIsLong (raw ! 0) then False
     else (raw ! 3) AND 0x80 \<noteq> 0)"

text \<open>The loop of \<open>MarshalExtendedFragments\<close>, from offset \<open>off\<close> with the output so far.\<close>

function fragment_loop :: "extended_attribute \<Rightarrow> nat \<Rightarrow> bytes \<Rightarrow> bytes" where
  "fragment_loop e off out =
    (if off < length (eValue e) then
       let stop = min (off + 251) (length (eValue e));
           chunk = slice off stop (eValue e);
           more = if stop < length (eValue e) then 0x80 else 0;
           frag = [eType e, word_of_nat (4 + length chunk), eExtendedType e, more] @ chunk
       in fragment_loop e stop (out @ frag)
     else out)"
  by pat_completeness auto
termination by (relation "measure (\<lambda>(e, off, out). length (eValue e) - off)") auto

declare fragment_loop.simps [simp del]

definition MarshalExtendedFragments :: "extended_attribute \<Rightarrow> bytes res" where
  "MarshalExtendedFragments e =
    (if \<not> isExtendedType (eType e) then Inl ErrInvalidAttribute
     else if \<not> extendedTypeIsLong (eType e) then MarshalExtended e
     else if length (eValue e) = 0 then MarshalExtended e
     else Inr (fragment_loop e 0 []))"

lemma UnmarshalExtended_consumes:
  "UnmarshalExtended data = Inr (e, rest) \<Longrightarrow> length rest < length data"
  by (auto simp: UnmarshalExtended_def Let_def split: if_splits)

text \<open>
  The loop of \<open>UnmarshalExtendedReassembled\<close>: \<open>current\<close> starts at the fragment decoded
  last, \<open>remain\<close> is what follows it.
\<close>

function reassemble_loop :: "byte \<Rightarrow> byte \<Rightarrow> bytes \<Rightarrow> bytes \<Rightarrow> bytes \<Rightarrow> (bytes \<times> bytes) res" where
  "reassemble_loop t extType current remain v =
    (if ExtendedMore current then
       if length remain = 0 then Inl ErrInvalidAttribute
       else case UnmarshalExtended remain of Inl e \<Rightarrow> Inl e
         | Inr (nxt, nextRemain) \<Rightarrow>
             if eType nxt \<noteq> t \<or> eExtendedType nxt \<noteq> extType then Inl ErrInvalidAttribute
             else reassemble_loop t extType remain nextRemain (v @ eValue nxt)
     else Inr (v, remain))"
  by pat_completeness auto
termination
  by (relation "measure (\<lambda>(t, x, current, remain, v). length remain)")
     (auto dest: UnmarshalExtended_consumes)

declare reassemble_loop.simps [simp del]

definition UnmarshalExtendedReassembled :: "bytes \<Rightarrow> (extended_attribute \<times> bytes) res" where
  "UnmarshalExtendedReassembled data =
    (case UnmarshalExtended data of Inl e \<Rightarrow> Inl e
     | Inr (first, remain) \<Rightarrow>
         if \<not> extendedTypeIsLong (eType first) then Inr (first, remain)
         else case reassemble_loop (eType first) (eExtendedType first) data remain (eValue first) of
             Inl e \<Rightarrow> Inl e
           | Inr (v, rest) \<Rightarrow> Inr (first\<lparr>eValue := v\<rparr>, rest))"

section \<open>One attribute\<close>

lemma long_is_ext: "extendedTypeIsLong t \<Longrightarrow> isExtendedType t"
  by (simp add: extendedTypeIsLong_def isExtendedType_def)

definition ext_wire :: "byte \<Rightarrow> byte \<Rightarrow> bytes \<Rightarrow> bytes \<Rightarrow> bytes" where
  "ext_wire t x flags v = [t, word_of_nat (3 + length flags + length v), x] @ flags @ v"

lemma Unmarshal_ext_shape:
  assumes "isExtendedType t" "length flags = (if extendedTypeIsLong t then 1 else 0)"
    and "unat l = 3 + length flags + length v"
  shows "UnmarshalExtended (t # l # x # flags @ v @ rest) =
    Inr (\<lparr>eType = t, eExtendedType = x, eValue = v\<rparr>, rest)"
  using assms
  by (simp add: UnmarshalExtended_def Let_def ext_header_len_def slice_def numeral_3_eq_3 numeral_eq_Suc
      split: if_splits)

lemma Unmarshal_ext_wire:
  assumes "isExtendedType t" "length flags = (if extendedTypeIsLong t then 1 else 0)"
    and "3 + length flags + length v < 256"
  shows "UnmarshalExtended (ext_wire t x flags v @ rest) =
    Inr (\<lparr>eType = t, eExtendedType = x, eValue = v\<rparr>, rest)"
  using Unmarshal_ext_shape [OF assms(1,2) unat_of_nat8 [OF assms(3)]] by (simp add: ext_wire_def)

lemma MarshalExtended_eq:
  "MarshalExtended e =
    (if \<not> isExtendedType (eType e) then Inl ErrInvalidAttribute
     else if length (eValue e) > (if extendedTypeIsLong (eType e) then 251 else 253) then Inl ErrAttributeTooLong
     else Inr (ext_wire (eType e) (eExtendedType e) (if extendedTypeIsLong (eType e) then [0] else []) (eValue e)))"
  by (simp add: MarshalExtended_def ext_wire_def ext_header_len_def limit_num Let_def)

text \<open>
  C37: A single extended attribute of at most 251 octets (type 242) or 252 octets (types 241,
  243, 244) decodes to itself from its encoding, whatever follows. At 253 octets, which
  \<open>MarshalExtended\<close> still accepts for the short format, header and value are 256 octets, the
  Length octet wraps to 0 and the encoding does not decode.
\<close>

theorem extended_codec:
  "case MarshalExtended e of
     Inl err \<Rightarrow> (err = ErrInvalidAttribute \<and> \<not> isExtendedType (eType e))
       \<or> (err = ErrAttributeTooLong \<and> length (eValue e) > (if extendedTypeIsLong (eType e) then 251 else 253))
   | Inr w \<Rightarrow> UnmarshalExtended (w @ rest) =
       (if length (eValue e) = 253 then Inl ErrInvalidAttribute else Inr (e, rest))"
proof (cases "isExtendedType (eType e) \<and> length (eValue e) \<le> (if extendedTypeIsLong (eType e) then 251 else 253)")
  case False
  then show ?thesis by (auto simp: MarshalExtended_eq)
next
  case True
  let ?f = "if extendedTypeIsLong (eType e) then [0] else [] :: bytes"
  have m: "MarshalExtended e = Inr (ext_wire (eType e) (eExtendedType e) ?f (eValue e))"
    using True by (simp add: MarshalExtended_eq)
  show ?thesis
  proof (cases "length (eValue e) = 253")
    case n: True
    with True have short: "\<not> extendedTypeIsLong (eType e)" by (auto split: if_splits)
    have "UnmarshalExtended (ext_wire (eType e) (eExtendedType e) [] (eValue e) @ rest) = Inl ErrInvalidAttribute"
      using True n by (simp add: ext_wire_def UnmarshalExtended_def Let_def)
    with m n short show ?thesis by simp
  next
    case n: False
    have "UnmarshalExtended (ext_wire (eType e) (eExtendedType e) ?f (eValue e) @ rest) = Inr (e, rest)"
      using True n by (subst Unmarshal_ext_wire) (auto split: if_splits)
    with m n show ?thesis by simp
  qed
qed

section \<open>Fragments\<close>

text \<open>The fragments of a value, by recursion on what is left of it.\<close>

function frags :: "byte \<Rightarrow> byte \<Rightarrow> bytes \<Rightarrow> bytes" where
  "frags t x v =
    (if v = [] then []
     else ext_wire t x [if length v > 251 then 0x80 else 0] (take 251 v) @ frags t x (drop 251 v))"
  by pat_completeness auto
termination by (relation "measure (\<lambda>(t, x, v). length v)") auto

declare frags.simps [simp del]

lemma frags_Nil [simp]: "frags t x [] = []"
  by (simp add: frags.simps)

lemma fragment_loop_frags:
  "fragment_loop e off out = out @ frags (eType e) (eExtendedType e) (drop off (eValue e))"
proof (induction e off out rule: fragment_loop.induct)
  case (1 e off out)
  show ?case
  proof (cases "off < length (eValue e)")
    case True
    let ?v = "drop off (eValue e)" and ?stop = "min (off + 251) (length (eValue e))"
    have s: "slice off ?stop (eValue e) = take 251 ?v"
        by (simp add: slice_def min_def)
    have more: "?stop < length (eValue e) \<longleftrightarrow> length ?v > 251" by auto
    have rest: "drop ?stop (eValue e) = drop 251 ?v" by (simp add: min_def add.commute)
    note step = "1.IH" [OF True refl refl refl refl, unfolded s more rest]
    have IH: "fragment_loop e off out = (out @ [eType e, word_of_nat (4 + length (take 251 ?v)),
        eExtendedType e, if length ?v > 251 then 0x80 else 0] @ take 251 ?v)
        @ frags (eType e) (eExtendedType e) (drop 251 ?v)"
      by (subst fragment_loop.simps) (simp only: True if_True Let_def s more rest step)
    show ?thesis
      unfolding IH using True by (subst (2) frags.simps) (simp add: ext_wire_def)
  qed (subst fragment_loop.simps, simp)
qed

lemma ExtendedMore_wire:
  "extendedTypeIsLong t \<Longrightarrow> ExtendedMore (ext_wire t x [b] v @ rest) \<longleftrightarrow> b AND 0x80 \<noteq> 0"
  by (simp add: ExtendedMore_def ext_wire_def)

lemma Unmarshal_frags:
  assumes "extendedTypeIsLong t" "v \<noteq> []"
  shows "UnmarshalExtended (frags t x v @ rest) =
      Inr (\<lparr>eType = t, eExtendedType = x, eValue = take 251 v\<rparr>, frags t x (drop 251 v) @ rest)"
    and "ExtendedMore (frags t x v @ rest) \<longleftrightarrow> length v > 251"
proof -
  show "UnmarshalExtended (frags t x v @ rest) =
      Inr (\<lparr>eType = t, eExtendedType = x, eValue = take 251 v\<rparr>, frags t x (drop 251 v) @ rest)"
    using assms Unmarshal_ext_wire [OF long_is_ext [OF assms(1)]]
    by (subst frags.simps) simp
  show "ExtendedMore (frags t x v @ rest) \<longleftrightarrow> length v > 251"
    using assms by (subst frags.simps) (simp add: ExtendedMore_wire)
qed

lemma reassemble_frags:
  assumes "extendedTypeIsLong t" "v \<noteq> []"
  shows "reassemble_loop t x (frags t x v @ rest) (frags t x (drop 251 v) @ rest) acc =
    Inr (acc @ drop 251 v, rest)"
  using assms(2)
proof (induction "length v" arbitrary: v acc rule: less_induct)
  case less
  show ?case
  proof (cases "length v > 251")
    case False
    then show ?thesis
      using less.prems by (subst reassemble_loop.simps) (simp add: Unmarshal_frags(2) [OF assms(1)])
  next
    case True
    then have ne: "drop 251 v \<noteq> []" and len: "length (drop 251 v) < length v" by auto
    have fne: "frags t x (drop 251 v) \<noteq> []" using ne by (subst frags.simps) (simp add: ext_wire_def)
    from less.hyps [OF len ne] True ne fne less.prems show ?thesis
      by (subst reassemble_loop.simps)
         (simp add: Unmarshal_frags [OF assms(1)] del: drop_drop)
  qed
qed

text \<open>
  C34: A value of any length written by \<open>MarshalExtendedFragments\<close> (up to 252 octets for
  the short format, which does not fragment) is put together by
  \<open>UnmarshalExtendedReassembled\<close> to the same attribute, and what follows the fragments is
  left over.
\<close>

theorem extended_fragments_roundtrip:
  assumes "isExtendedType (eType e)"
    and "\<not> extendedTypeIsLong (eType e) \<longrightarrow> length (eValue e) \<le> 252"
  shows "\<exists>w. MarshalExtendedFragments e = Inr w
    \<and> UnmarshalExtendedReassembled (w @ rest) = Inr (e, rest)"
proof (cases "extendedTypeIsLong (eType e) \<and> eValue e \<noteq> []")
  case True
  then have long: "extendedTypeIsLong (eType e)" and ne: "eValue e \<noteq> []" by auto
  let ?w = "frags (eType e) (eExtendedType e) (eValue e)"
  have "MarshalExtendedFragments e = Inr ?w"
    using assms(1) True by (simp add: MarshalExtendedFragments_def fragment_loop_frags)
  moreover have "UnmarshalExtendedReassembled (?w @ rest) = Inr (e, rest)"
    using long by (simp add: UnmarshalExtendedReassembled_def Unmarshal_frags(1) [OF long ne]
        reassemble_frags [OF long ne])
  ultimately show ?thesis by blast
next
  case False
  let ?f = "if extendedTypeIsLong (eType e) then [0] else [] :: bytes"
  let ?w = "ext_wire (eType e) (eExtendedType e) ?f (eValue e)"
  have len: "length (eValue e) \<le> (if extendedTypeIsLong (eType e) then 0 else 252)"
    using False assms(2) by auto
  then have "MarshalExtendedFragments e = Inr ?w"
    using assms(1) False by (auto simp: MarshalExtendedFragments_def MarshalExtended_eq)
  moreover have u: "UnmarshalExtended (?w @ rest) = Inr (e, rest)"
    using assms(1) len by (subst Unmarshal_ext_wire) (auto split: if_splits)
  then have "UnmarshalExtendedReassembled (?w @ rest) = Inr (e, rest)"
    by (cases "extendedTypeIsLong (eType e)")
       (simp_all add: UnmarshalExtendedReassembled_def ExtendedMore_wire reassemble_loop.simps
          [of _ _ "ext_wire (eType e) (eExtendedType e) [0] (eValue e) @ rest"])
  ultimately show ?thesis by blast
qed

theorem extended_fragments_roundtrip_witness:
  "\<exists>w. MarshalExtendedFragments \<lparr>eType = 242, eExtendedType = 5, eValue = replicate 600 1\<rparr> = Inr w
    \<and> UnmarshalExtendedReassembled (w @ [9]) =
        Inr (\<lparr>eType = 242, eExtendedType = 5, eValue = replicate 600 1\<rparr>, [9])"
  by (rule extended_fragments_roundtrip)
     (simp_all add: isExtendedType_def extendedTypeIsLong_def attr_num)

end
