(* ===== verification/GoText.thy ===== *)
theory GoText
  imports NetIP
begin

text \<open>
  What the sources use of Go's text packages, on strings as sequences of octets: UTF-8 as
  \<open>range\<close>, \<open>[]rune(s)\<close> and \<open>string(r)\<close> read and write it (an octet that starts no
  valid sequence is U+FFFD, one octet wide), \<open>strings.Fields\<close>, \<open>strings.CutPrefix\<close>,
  \<open>strings.Cut\<close>, \<open>bufio.ScanLines\<close>, \<open>strconv.ParseUint\<close> and \<open>strconv.Atoi\<close>
  with their base prefixes, underscores and ranges.
\<close>

section \<open>UTF-8\<close>

abbreviation ord :: "char \<Rightarrow> nat" where
  "ord c \<equiv> of_char c"

definition utf8_cont :: "nat \<Rightarrow> bool" where
  "utf8_cont b \<longleftrightarrow> 128 \<le> b \<and> b \<le> 191"

definition RuneError :: nat where "RuneError = 65533"

text \<open>The rune at the front of a non-empty octet sequence, and its width.\<close>

fun DecodeRune :: "nat list \<Rightarrow> nat \<times> nat" where
  "DecodeRune [] = (RuneError, 1)"
| "DecodeRune (a # r) =
    (if a < 128 then (a, 1)
     else if 194 \<le> a \<and> a \<le> 223 then
       (case r of b # _ \<Rightarrow> if utf8_cont b then ((a - 192) * 64 + (b - 128), 2) else (RuneError, 1)
        | _ \<Rightarrow> (RuneError, 1))
     else if 224 \<le> a \<and> a \<le> 239 then
       (case r of b # c # _ \<Rightarrow>
          if utf8_cont b \<and> utf8_cont c \<and> (a = 224 \<longrightarrow> 160 \<le> b) \<and> (a = 237 \<longrightarrow> b \<le> 159)
          then ((a - 224) * 4096 + (b - 128) * 64 + (c - 128), 3) else (RuneError, 1)
        | _ \<Rightarrow> (RuneError, 1))
     else if 240 \<le> a \<and> a \<le> 244 then
       (case r of b # c # d # _ \<Rightarrow>
          if utf8_cont b \<and> utf8_cont c \<and> utf8_cont d \<and> (a = 240 \<longrightarrow> 144 \<le> b) \<and> (a = 244 \<longrightarrow> b \<le> 143)
          then ((a - 240) * 262144 + (b - 128) * 4096 + (c - 128) * 64 + (d - 128), 4)
          else (RuneError, 1)
        | _ \<Rightarrow> (RuneError, 1))
     else (RuneError, 1))"

lemma DecodeRune_width: "1 \<le> snd (DecodeRune s)"
  by (cases s) (auto split: list.split)

definition rune_at :: "string \<Rightarrow> nat \<times> nat" where
  "rune_at s = DecodeRune (map ord s)"

lemma rune_at_width [simp]: "0 < snd (rune_at s)"
  using DecodeRune_width [of "map ord s"] by (simp add: rune_at_def)

lemma rune_drop_shorter: "(r, w) = rune_at s \<Longrightarrow> s \<noteq> [] \<Longrightarrow> length (drop w s) < length s"
  using rune_at_width [of s] by (cases "rune_at s") simp

lemma rune_at_ascii: "ord c < 128 \<Longrightarrow> rune_at (c # s) = (ord c, 1)"
  by (simp add: rune_at_def)

text \<open>\<open>[]rune(s)\<close>\<close>

function runes :: "string \<Rightarrow> nat list" where
  "runes s = (if s = [] then [] else fst (rune_at s) # runes (drop (snd (rune_at s)) s))"
  by pat_completeness auto
termination by (relation "measure length") auto

declare runes.simps [simp del]

lemma runes_Nil [simp]: "runes [] = []"
  by (simp add: runes.simps)

lemma runes_ascii_Cons: "ord c < 128 \<Longrightarrow> runes (c # s) = ord c # runes s"
  by (subst runes.simps) (simp add: rune_at_ascii)

lemma runes_ascii: "\<forall>c \<in> set s. ord c < 128 \<Longrightarrow> runes s = map ord s"
  by (induction s) (auto simp: runes_ascii_Cons)

text \<open>\<open>string(r)\<close>: a value that is no Unicode scalar is written as U+FFFD.\<close>

definition EncodeRune :: "nat \<Rightarrow> nat list" where
  "EncodeRune n =
    (let r = (if (55296 \<le> n \<and> n \<le> 57343) \<or> 1114111 < n then RuneError else n) in
     if r < 128 then [r]
     else if r < 2048 then [192 + r div 64, 128 + r mod 64]
     else if r < 65536 then [224 + r div 4096, 128 + r div 64 mod 64, 128 + r mod 64]
     else [240 + r div 262144, 128 + r div 4096 mod 64, 128 + r div 64 mod 64, 128 + r mod 64])"

definition string_of_runes :: "nat list \<Rightarrow> string" where
  "string_of_runes rs = map char_of (concat (map EncodeRune rs))"

lemma string_of_runes_ascii: "\<forall>c \<in> set s. ord c < 128 \<Longrightarrow> string_of_runes (map ord s) = s"
  by (induction s) (auto simp: string_of_runes_def EncodeRune_def RuneError_def)

section \<open>Conversions\<close>

text \<open>\<open>[]byte(s)\<close> and \<open>string(b)\<close>\<close>

definition string_bytes :: "string \<Rightarrow> bytes" where
  "string_bytes s = map (\<lambda>c. word_of_nat (ord c)) s"

definition bytes_string :: "bytes \<Rightarrow> string" where
  "bytes_string b = map (\<lambda>x. char_of (unat x)) b"

lemma bytes_string_inverse: "bytes_string (string_bytes s) = s"
proof (induction s)
  case (Cons c s)
  have "unat (word_of_nat (ord c) :: byte) = ord c" by (rule unat_of_nat8) simp
  with Cons show ?case by (simp add: bytes_string_def string_bytes_def)
qed (simp add: bytes_string_def string_bytes_def)

section \<open>Lines and fields\<close>

text \<open>\<open>unicode.IsSpace\<close>\<close>

definition IsSpace :: "nat \<Rightarrow> bool" where
  "IsSpace r \<longleftrightarrow> (9 \<le> r \<and> r \<le> 13) \<or> r = 32 \<or> r = 133 \<or> r = 160 \<or> r = 5760 \<or>
     (8192 \<le> r \<and> r \<le> 8202) \<or> r = 8232 \<or> r = 8233 \<or> r = 8239 \<or> r = 8287 \<or> r = 12288"

text \<open>\<open>strings.Fields\<close>; \<open>cur\<close> is the field being read.\<close>

definition flush_field :: "string \<Rightarrow> string list" where
  "flush_field cur = (if cur = [] then [] else [cur])"

function fields_loop :: "string \<Rightarrow> string \<Rightarrow> string list" where
  "fields_loop s cur =
    (if s = [] then flush_field cur
     else let (r, w) = rune_at s in
       if IsSpace r then flush_field cur @ fields_loop (drop w s) []
       else fields_loop (drop w s) (cur @ take w s))"
  by pat_completeness auto
termination by (relation "measure (\<lambda>(s, _). length s)") (use rune_drop_shorter in auto)

declare fields_loop.simps [simp del]

definition Fields :: "string \<Rightarrow> string list" where
  "Fields s = fields_loop s []"

text \<open>A printable ASCII word, as it is read back unchanged.\<close>

definition plain_word :: "string \<Rightarrow> bool" where
  "plain_word w \<longleftrightarrow> w \<noteq> [] \<and> (\<forall>c \<in> set w. 33 \<le> ord c \<and> ord c \<le> 126 \<and> c \<noteq> CHR ''#'')"

lemma fields_loop_Nil: "fields_loop [] cur = flush_field cur"
  by (simp add: fields_loop.simps)

lemma fields_loop_space: "fields_loop (CHR '' '' # s) cur = flush_field cur @ fields_loop s []"
  by (subst fields_loop.simps) (simp add: rune_at_ascii IsSpace_def)

lemma fields_loop_visible:
  "33 \<le> ord c \<Longrightarrow> ord c \<le> 126 \<Longrightarrow> fields_loop (c # s) cur = fields_loop s (cur @ [c])"
  by (subst fields_loop.simps) (simp add: rune_at_ascii IsSpace_def)

lemma fields_loop_word:
  "\<forall>c \<in> set w. 33 \<le> ord c \<and> ord c \<le> 126 \<Longrightarrow> fields_loop (w @ s) cur = fields_loop s (cur @ w)"
  by (induction w arbitrary: cur) (simp_all add: fields_loop_visible)

lemma Fields_join: "\<forall>w \<in> set ws. plain_word w \<Longrightarrow> Fields (join_with '' '' ws) = ws"
proof (induction ws rule: induct_list012)
  case (2 w)
  then have w: "\<forall>c \<in> set w. 33 \<le> ord c \<and> ord c \<le> 126" "w \<noteq> []" by (auto simp: plain_word_def)
  show ?case using fields_loop_word [OF w(1), of "[]" "[]"] w(2)
    by (simp add: Fields_def fields_loop_Nil flush_field_def)
next
  case (3 w v ws)
  then have w: "\<forall>c \<in> set w. 33 \<le> ord c \<and> ord c \<le> 126" "w \<noteq> []" by (auto simp: plain_word_def)
  have "Fields (join_with '' '' (v # ws)) = v # ws" using 3 by simp
  then show ?case using fields_loop_word [OF w(1), of "CHR '' '' # join_with '' '' (v # ws)" "[]"] w(2)
    by (simp add: Fields_def fields_loop_space flush_field_def)
qed (simp add: Fields_def fields_loop_Nil flush_field_def)

text \<open>
  \<open>bufio.ScanLines\<close>: lines end at a line feed, one carriage return before it is dropped,
  and the octets after the last line feed are a line when there are any.
\<close>

definition drop_cr :: "string \<Rightarrow> string" where
  "drop_cr l = (if l \<noteq> [] \<and> last l = CHR 0x0D then butlast l else l)"

definition raw_lines :: "string \<Rightarrow> string list" where
  "raw_lines s = (let ls = split_on (CHR 0x0A) s in if last ls = [] then butlast ls else ls)"

lemma raw_lines_unlines:
  "\<forall>l \<in> set ls. CHR 0x0A \<notin> set l \<Longrightarrow> raw_lines (concat (map (\<lambda>l. l @ [CHR 0x0A]) ls)) = ls"
proof -
  assume "\<forall>l \<in> set ls. CHR 0x0A \<notin> set l"
  then have "split_on (CHR 0x0A) (concat (map (\<lambda>l. l @ [CHR 0x0A]) ls)) = ls @ [[]]"
    by (induction ls) (auto simp: split_on_append)
  then show ?thesis by (simp add: raw_lines_def)
qed

section \<open>Cutting\<close>

text \<open>\<open>strings.CutPrefix\<close> and \<open>strings.Cut\<close> at one octet.\<close>

definition CutPrefix :: "string \<Rightarrow> string \<Rightarrow> string option" where
  "CutPrefix s p = (if take (length p) s = p then Some (drop (length p) s) else None)"

fun Cut_at :: "char \<Rightarrow> string \<Rightarrow> (string \<times> string) option" where
  "Cut_at c [] = None"
| "Cut_at c (x # xs) = (if x = c then Some ([], xs)
     else (case Cut_at c xs of None \<Rightarrow> None | Some (a, b) \<Rightarrow> Some (x # a, b)))"

lemma CutPrefix_append [simp]: "CutPrefix (p @ s) p = Some s"
  by (simp add: CutPrefix_def)

section \<open>Numbers\<close>

definition lower_ord :: "nat \<Rightarrow> nat" where
  "lower_ord n = n OR 32"

text \<open>The digit loop; a digit that is not below the base is a syntax error.\<close>

definition digit_of :: "char \<Rightarrow> nat option" where
  "digit_of c = (if 48 \<le> ord c \<and> ord c \<le> 57 then Some (ord c - 48)
     else if 97 \<le> lower_ord (ord c) \<and> lower_ord (ord c) \<le> 122 then Some (lower_ord (ord c) - 87)
     else None)"

fun digits_value :: "nat \<Rightarrow> bool \<Rightarrow> string \<Rightarrow> nat \<Rightarrow> nat option" where
  "digits_value base us [] n = Some n"
| "digits_value base us (c # cs) n =
    (if c = CHR ''_'' \<and> us then digits_value base us cs n
     else case digit_of c of None \<Rightarrow> None
       | Some d \<Rightarrow> if d \<ge> base then None else digits_value base us cs (n * base + d))"

text \<open>\<open>underscoreOK\<close>: what came last is the start, a digit, an underscore, or another octet.\<close>

datatype num_last = NumStart | NumDigit | NumUnderscore | NumOther

fun underscore_scan :: "bool \<Rightarrow> num_last \<Rightarrow> string \<Rightarrow> bool" where
  "underscore_scan hex i [] = (i \<noteq> NumUnderscore)"
| "underscore_scan hex i (c # cs) =
    (if (48 \<le> ord c \<and> ord c \<le> 57) \<or>
        (hex \<and> 97 \<le> lower_ord (ord c) \<and> lower_ord (ord c) \<le> 102) then underscore_scan hex NumDigit cs
     else if c = CHR ''_'' then i = NumDigit \<and> underscore_scan hex NumUnderscore cs
     else i \<noteq> NumUnderscore \<and> underscore_scan hex NumOther cs)"

definition underscoreOK :: "string \<Rightarrow> bool" where
  "underscoreOK s0 =
    (let s = (if s0 \<noteq> [] \<and> (hd s0 = CHR ''-'' \<or> hd s0 = CHR ''+'') then tl s0 else s0) in
     if length s \<ge> 2 \<and> hd s = CHR ''0'' \<and> lower_ord (ord (s ! 1)) \<in> set [98, 111, 120]
     then underscore_scan (lower_ord (ord (s ! 1)) = 120) NumDigit (drop 2 s)
     else underscore_scan False NumStart s)"

text \<open>\<open>strconv.ParseUint(s, 0, bits)\<close> and \<open>strconv.ParseUint(s, 10, bits)\<close>; \<open>None\<close> is an error.\<close>

definition num_base :: "string \<Rightarrow> nat \<times> string" where
  "num_base s =
    (if hd s \<noteq> CHR ''0'' then (10, s)
     else if length s \<ge> 3 \<and> lower_ord (ord (s ! 1)) = 98 then (2, drop 2 s)
     else if length s \<ge> 3 \<and> lower_ord (ord (s ! 1)) = 111 then (8, drop 2 s)
     else if length s \<ge> 3 \<and> lower_ord (ord (s ! 1)) = 120 then (16, drop 2 s)
     else (8, tl s))"

definition ParseUint0 :: "string \<Rightarrow> nat \<Rightarrow> nat option" where
  "ParseUint0 s bits =
    (if s = [] then None
     else case digits_value (fst (num_base s)) True (snd (num_base s)) 0 of None \<Rightarrow> None
       | Some n \<Rightarrow> if 2 ^ bits \<le> int n then None
           else if CHR ''_'' \<in> set s \<and> \<not> underscoreOK s then None else Some n)"

definition ParseUint10 :: "string \<Rightarrow> nat \<Rightarrow> nat option" where
  "ParseUint10 s bits =
    (if s = [] then None
     else case digits_value 10 False s 0 of None \<Rightarrow> None
       | Some n \<Rightarrow> if 2 ^ bits \<le> int n then None else Some n)"

definition Atoi :: "string \<Rightarrow> int option" where
  "Atoi s =
    (let neg = (s \<noteq> [] \<and> hd s = CHR ''-'');
         ds = (if s \<noteq> [] \<and> (hd s = CHR ''-'' \<or> hd s = CHR ''+'') then tl s else s) in
     case ParseUint10 ds 64 of None \<Rightarrow> None
     | Some n \<Rightarrow> if \<not> neg \<and> 2 ^ 63 \<le> int n then None
         else if neg \<and> 2 ^ 63 < int n then None
         else Some (if neg then - int n else int n))"

lemma ParseUint_vectors:
  "ParseUint0 ''255'' 16 = Some 255" "ParseUint0 ''0xfF'' 16 = Some 255" "ParseUint0 ''017'' 16 = Some 15"
  "ParseUint0 ''0'' 16 = Some 0" "ParseUint0 ''08'' 16 = None" "ParseUint0 ''1_0'' 16 = Some 10"
  "ParseUint0 ''1__0'' 16 = None" "ParseUint0 ''241.1'' 16 = None" "ParseUint0 ''0x'' 16 = None"
  "Atoi ''-7'' = Some (- 7)" "Atoi ''+'' = None"
  by (code_simp, code_simp, code_simp, code_simp, code_simp, code_simp, code_simp, code_simp,
      code_simp, code_simp, code_simp)

lemma digit_of_digit_char: "n < 10 \<Longrightarrow> digit_of (digit_char n) = Some n"
  by (simp add: digit_of_def of_digit_char)

lemma digits_value_append:
  "digits_value base us (xs @ ys) n =
     (case digits_value base us xs n of None \<Rightarrow> None | Some m \<Rightarrow> digits_value base us ys m)"
  by (induction base us xs n rule: digits_value.induct) (auto split: option.split)

lemma digit_char_not_underscore: "n < 10 \<Longrightarrow> digit_char n \<noteq> CHR ''_''"
proof
  assume n: "n < 10" and "digit_char n = CHR ''_''"
  then have "ord (digit_char n) = ord (CHR ''_'')" by simp
  then show False using n by (simp add: of_digit_char)
qed

lemma digits_value_dec: "digits_value 10 us (dec_digits n) 0 = Some n"
proof (induction n rule: dec_digits.induct)
  case (1 n)
  show ?case
  proof (cases "n < 10")
    case True
    then show ?thesis
      by (subst dec_digits.simps) (simp add: digit_of_digit_char digit_char_not_underscore)
  next
    case False
    with 1 have "digits_value 10 us (dec_digits (n div 10)) 0 = Some (n div 10)" by simp
    with False show ?thesis
      by (subst dec_digits.simps)
         (simp add: digits_value_append digit_of_digit_char digit_char_not_underscore)
  qed
qed

lemma underscore_no_digit: "CHR ''_'' \<notin> set (dec_digits n)"
  using dec_digits_facts(1) [of n] by (auto simp: list_all_iff is_digit_def)

lemma ParseUint0_dec: "int n < 2 ^ bits \<Longrightarrow> ParseUint0 (dec_digits n) bits = Some n"
proof -
  assume n: "int n < 2 ^ bits"
  have "fst (num_base (dec_digits n)) = 10 \<and> snd (num_base (dec_digits n)) = dec_digits n \<or> n = 0"
    using dec_digits_facts(4) [of n] by (auto simp: num_base_def)
  moreover have "ParseUint0 (dec_digits 0) bits = Some 0"
  proof -
    have "dec_digits 0 = ''0''" by code_simp
    moreover have "CHR ''_'' \<notin> set ''0''" by simp
    ultimately show ?thesis by (simp add: ParseUint0_def num_base_def)
  qed
  ultimately show ?thesis using n dec_digits_facts(3) [of n]
    by (auto simp: ParseUint0_def digits_value_dec underscore_no_digit)
qed

lemma ParseUint0_word:
  assumes "LENGTH('a) \<le> bits"
  shows "ParseUint0 (dec_digits (unat (w :: 'a::len word))) bits = Some (unat w)"
proof (rule ParseUint0_dec)
  have "uint w < 2 ^ LENGTH('a)" by (rule unsigned_less)
  also have "(2 :: int) ^ LENGTH('a) \<le> 2 ^ bits" using assms by (rule power_increasing) simp
  finally show "int (unat w) < 2 ^ bits" by simp
qed

lemma ParseUint10_dec: "int n < 2 ^ bits \<Longrightarrow> ParseUint10 (dec_digits n) bits = Some n"
  using dec_digits_facts(3) [of n] by (simp add: ParseUint10_def digits_value_dec)

lemma Atoi_itoa:
  assumes "- (2 ^ 63) \<le> i" "i < 2 ^ 63" shows "Atoi (itoa i) = Some i"
proof (cases "i < 0")
  case True
  have "int (nat (- i)) < 2 ^ 64" using assms True by simp
  from ParseUint10_dec [OF this] True assms show ?thesis by (simp add: Atoi_def itoa_def Let_def)
next
  case False
  define ds where "ds = dec_digits (nat i)"
  have "list_all is_digit ds" "ds \<noteq> []" unfolding ds_def by (rule dec_digits_facts)+
  then have "is_digit (hd ds)" by (cases ds) auto
  then have h: "hd ds \<noteq> CHR ''-''" "hd ds \<noteq> CHR ''+''" by (auto simp: is_digit_def)
  have "int (nat i) < 2 ^ 64" using assms False by simp
  from ParseUint10_dec [OF this] False h assms show ?thesis
    by (simp add: Atoi_def itoa_def Let_def flip: ds_def)
qed

end
