(* ===== verification/DictParser.thy ===== *)
theory DictParser
  imports GoText
begin

text \<open>
  \<open>dictionary/parser/parser.go\<close>: the reader of FreeRADIUS dictionary files. A line is cut
  into fields and dispatched on its directive; \<open>$INCLUDE\<close> reads another file, with the
  absolute paths on the include stack in \<open>visited\<close>. The file system is an association list
  from absolute paths (lists of components, as \<open>filepath.Clean\<close> leaves them) to contents; the
  working directory is a parameter. The recursion over included files is a
  \<open>partial_function\<close>: \<open>None\<close> would be an include chain that never ends, and the theorem at
  the end excludes it. The second theorem prints a dictionary and reads it back.
\<close>

section \<open>Entries\<close>

record dict_attr =
  daName :: string
  daType :: byte
  daValueType :: string
  daEncrypt :: int
  daHasTag :: bool
  daVendor :: string

record dict_val =
  dvAttributeName :: string
  dvName :: string
  dvNumber :: "64 word"

record dict_vendor =
  dnName :: string
  dnID :: "32 word"

record dict_file =
  dfAttributes :: "dict_attr list"
  dfValues :: "dict_val list"
  dfVendors :: "dict_vendor list"

type_synonym abspath = "string list"

text \<open>The errors, by the format string that builds them.\<close>

datatype parse_error =
    CircularInclude abspath
  | OpenFailed abspath
  | GetwdFailed string
  | ErrTooLong
  | FieldCount nat string nat
  | BadNumber nat string string
  | OutOfByteRange nat string nat
  | BadEncrypt nat string string
  | IncludeNoBase nat
  | IncludeFailed nat string parse_error

text \<open>The parser: the entries so far and the vendor of the surrounding block.\<close>

record parser =
  psDict :: dict_file
  psVendor :: string

definition empty_file :: dict_file where
  "empty_file = \<lparr>dfAttributes = [], dfValues = [], dfVendors = []\<rparr>"

definition append_file :: "dict_file \<Rightarrow> dict_file \<Rightarrow> dict_file" where
  "append_file d sub = \<lparr>dfAttributes = dfAttributes d @ dfAttributes sub,
     dfValues = dfValues d @ dfValues sub, dfVendors = dfVendors d @ dfVendors sub\<rparr>"

section \<open>Comments and value types\<close>

text \<open>The place of the first comment mark: outside quotes, at the start or after a blank or a tab.\<close>

fun comment_at :: "bool \<Rightarrow> bool \<Rightarrow> nat \<Rightarrow> nat list \<Rightarrow> nat option" where
  "comment_at inQuote start i [] = None"
| "comment_at inQuote start i (c # cs) =
    (if c = 34 then comment_at (\<not> inQuote) False (i + 1) cs
     else if inQuote then comment_at inQuote (c = 32 \<or> c = 9) (i + 1) cs
     else if c = 35 \<and> start then Some i
     else comment_at inQuote (c = 32 \<or> c = 9) (i + 1) cs)"

definition stripComment :: "string \<Rightarrow> string" where
  "stripComment raw =
    (if CHR ''#'' \<notin> set raw then raw
     else let r = runes raw in
       case comment_at False True 0 r of Some i \<Rightarrow> string_of_runes (take i r) | None \<Rightarrow> raw)"

definition normalizeValueType :: "string \<Rightarrow> string" where
  "normalizeValueType token =
    (if token \<in> set [''string'', ''text''] then ''string''
     else if token = ''integer'' then ''integer''
     else if token \<in> set [''ipaddr'', ''ipv4addr''] then ''ipaddr''
     else if token = ''ipv6addr'' then ''ipv6addr''
     else if token \<in> set [''octets'', ''octet'', ''abinary''] then ''octets''
     else if token = ''vsa'' then ''vsa''
     else if token = ''extended'' then ''extended''
     else ''raw'')"

section \<open>Directives\<close>

definition parseAttrNumber :: "nat \<Rightarrow> string \<Rightarrow> parse_error + byte" where
  "parseAttrNumber lineNo s =
    (case ParseUint0 s 16 of None \<Rightarrow> Inl (BadNumber lineNo ''ATTRIBUTE'' s)
     | Some n \<Rightarrow> if n > 255 then Inl (OutOfByteRange lineNo ''ATTRIBUTE'' n) else Inr (word_of_nat n))"

definition applyAttrFlag :: "nat \<Rightarrow> dict_attr \<Rightarrow> string \<Rightarrow> parse_error + dict_attr" where
  "applyAttrFlag lineNo attr flag =
    (if flag = ''has_tag'' then Inr (attr\<lparr>daHasTag := True\<rparr>)
     else case CutPrefix flag ''encrypt='' of
         Some rest \<Rightarrow> (case Atoi rest of None \<Rightarrow> Inl (BadEncrypt lineNo ''ATTRIBUTE'' flag)
           | Some v \<Rightarrow> Inr (attr\<lparr>daEncrypt := v\<rparr>))
       | None \<Rightarrow> Inr attr)"

fun apply_flags :: "nat \<Rightarrow> dict_attr \<Rightarrow> string list \<Rightarrow> parse_error + dict_attr" where
  "apply_flags lineNo attr [] = Inr attr"
| "apply_flags lineNo attr (flag # flags) =
    (case applyAttrFlag lineNo attr flag of Inl e \<Rightarrow> Inl e
     | Inr attr' \<Rightarrow> apply_flags lineNo attr' flags)"

definition handleAttribute :: "string list \<Rightarrow> nat \<Rightarrow> parser \<Rightarrow> parse_error + parser" where
  "handleAttribute args lineNo p =
    (if length args < 3 then Inl (FieldCount lineNo ''ATTRIBUTE'' (length args))
     else case parseAttrNumber lineNo (args ! 1) of Inl e \<Rightarrow> Inl e
       | Inr typeNum \<Rightarrow>
         (case apply_flags lineNo
             \<lparr>daName = args ! 0, daType = typeNum, daValueType = normalizeValueType (args ! 2),
              daEncrypt = 0, daHasTag = False, daVendor = psVendor p\<rparr> (drop 3 args) of
            Inl e \<Rightarrow> Inl e
          | Inr attr \<Rightarrow>
              Inr (p\<lparr>psDict := (psDict p)\<lparr>dfAttributes := dfAttributes (psDict p) @ [attr]\<rparr>\<rparr>)))"

definition handleValue :: "string list \<Rightarrow> nat \<Rightarrow> parser \<Rightarrow> parse_error + parser" where
  "handleValue args lineNo p =
    (if length args \<noteq> 3 then Inl (FieldCount lineNo ''VALUE'' (length args))
     else case ParseUint0 (args ! 2) 64 of None \<Rightarrow> Inl (BadNumber lineNo ''VALUE'' (args ! 2))
       | Some n \<Rightarrow> Inr (p\<lparr>psDict := (psDict p)\<lparr>dfValues := dfValues (psDict p) @
           [\<lparr>dvAttributeName = args ! 0, dvName = args ! 1, dvNumber = word_of_nat n\<rparr>]\<rparr>\<rparr>))"

definition handleVendor :: "string list \<Rightarrow> nat \<Rightarrow> parser \<Rightarrow> parse_error + parser" where
  "handleVendor args lineNo p =
    (if length args < 2 then Inl (FieldCount lineNo ''VENDOR'' (length args))
     else case ParseUint0 (args ! 1) 32 of None \<Rightarrow> Inl (BadNumber lineNo ''VENDOR'' (args ! 1))
       | Some n \<Rightarrow> Inr (p\<lparr>psDict := (psDict p)\<lparr>dfVendors := dfVendors (psDict p) @
           [\<lparr>dnName = args ! 0, dnID = word_of_nat n\<rparr>]\<rparr>\<rparr>))"

definition handleBeginVendor :: "string list \<Rightarrow> nat \<Rightarrow> parser \<Rightarrow> parse_error + parser" where
  "handleBeginVendor args lineNo p =
    (if length args \<noteq> 1 then Inl (FieldCount lineNo ''BEGIN-VENDOR'' (length args))
     else Inr (p\<lparr>psVendor := args ! 0\<rparr>))"

section \<open>Paths\<close>

text \<open>
  \<open>filepath.Clean\<close> on a rooted path: empty and \<open>.\<close> components vanish, \<open>..\<close> takes the
  component before it along. A path that does not start at the root is joined to \<open>dir\<close>.
\<close>

definition clean_step :: "abspath \<Rightarrow> string \<Rightarrow> abspath" where
  "clean_step acc c = (if c = [] \<or> c = ''.'' then acc else if c = ''..'' then butlast acc else acc @ [c])"

definition resolve_path :: "abspath \<Rightarrow> string \<Rightarrow> abspath" where
  "resolve_path dir path =
    foldl clean_step (if path \<noteq> [] \<and> hd path = CHR ''/'' then [] else dir) (split_on (CHR ''/'') path)"

definition path_Dir :: "abspath \<Rightarrow> abspath" where
  "path_Dir path = butlast path"

section \<open>Lines and files\<close>

type_synonym parse_result = "(parse_error + dict_file) option"

definition handleInclude ::
  "(abspath \<Rightarrow> parse_result) \<Rightarrow> abspath option \<Rightarrow> string list \<Rightarrow> nat \<Rightarrow> parser
   \<Rightarrow> (parse_error + parser) option" where
  "handleInclude inc baseDir args lineNo p =
    (if length args \<noteq> 1 then Some (Inl (FieldCount lineNo ''$INCLUDE'' (length args)))
     else case baseDir of None \<Rightarrow> Some (Inl (IncludeNoBase lineNo))
       | Some dir \<Rightarrow> (case inc (resolve_path dir (args ! 0)) of None \<Rightarrow> None
           | Some (Inl e) \<Rightarrow> Some (Inl (IncludeFailed lineNo (args ! 0) e))
           | Some (Inr sub) \<Rightarrow> Some (Inr (p\<lparr>psDict := append_file (psDict p) sub\<rparr>))))"

definition parser_line ::
  "(abspath \<Rightarrow> parse_result) \<Rightarrow> abspath option \<Rightarrow> string \<Rightarrow> nat \<Rightarrow> parser
   \<Rightarrow> (parse_error + parser) option" where
  "parser_line inc baseDir raw lineNo p =
    (case Fields (stripComment raw) of [] \<Rightarrow> Some (Inr p)
     | directive # args \<Rightarrow>
         if directive = ''$INCLUDE'' then handleInclude inc baseDir args lineNo p
         else if directive = ''ATTRIBUTE'' then Some (handleAttribute args lineNo p)
         else if directive = ''VALUE'' then Some (handleValue args lineNo p)
         else if directive = ''VENDOR'' then Some (handleVendor args lineNo p)
         else if directive = ''BEGIN-VENDOR'' then Some (handleBeginVendor args lineNo p)
         else if directive = ''END-VENDOR'' then Some (Inr (p\<lparr>psVendor := []\<rparr>))
         else Some (Inr p))"

text \<open>The scanner loop; a line of 1 MiB or more does not fit its buffer.\<close>

definition maxLine :: int where "maxLine = 1024 * 1024"

fun parse_loop ::
  "(abspath \<Rightarrow> parse_result) \<Rightarrow> abspath option \<Rightarrow> string list \<Rightarrow> nat \<Rightarrow> parser \<Rightarrow> parse_result" where
  "parse_loop inc baseDir [] lineNo p = Some (Inr (psDict p))"
| "parse_loop inc baseDir (raw # rest) lineNo p =
    (if maxLine \<le> int (length raw) then Some (Inl ErrTooLong)
     else case parser_line inc baseDir (drop_cr raw) (lineNo + 1) p of None \<Rightarrow> None
       | Some (Inl e) \<Rightarrow> Some (Inl e)
       | Some (Inr p') \<Rightarrow> parse_loop inc baseDir rest (lineNo + 1) p')"

definition parse_reader :: "(abspath \<Rightarrow> parse_result) \<Rightarrow> abspath option \<Rightarrow> string \<Rightarrow> parse_result" where
  "parse_reader inc baseDir content =
     parse_loop inc baseDir (raw_lines content) 0 \<lparr>psDict = empty_file, psVendor = []\<rparr>"

type_synonym files = "(abspath \<times> string) list"

lemma handleInclude_bind:
  "handleInclude inc base args n p =
    (if length args \<noteq> 1 then Some (Inl (FieldCount n ''$INCLUDE'' (length args)))
     else case base of None \<Rightarrow> Some (Inl (IncludeNoBase n))
       | Some dir \<Rightarrow> Option.bind (inc (resolve_path dir (args ! 0)))
           (\<lambda>r. Some (case r of Inl e \<Rightarrow> Inl (IncludeFailed n (args ! 0) e)
                  | Inr sub \<Rightarrow> Inr (p\<lparr>psDict := append_file (psDict p) sub\<rparr>))))"
  by (auto simp: handleInclude_def Option.bind_def split: option.split sum.split)

lemma handleInclude_mono [partial_function_mono]:
  assumes "\<And>a. mono_option (\<lambda>f. F f a)"
  shows "mono_option (\<lambda>f. handleInclude (F f) base args n p)"
  unfolding handleInclude_bind
  by (cases base) (auto intro!: partial_function_mono assms)

lemma parser_line_mono [partial_function_mono]:
  assumes "\<And>a. mono_option (\<lambda>f. F f a)"
  shows "mono_option (\<lambda>f. parser_line (F f) base raw n p)"
  unfolding parser_line_def
  by (cases "Fields (stripComment raw)") (auto intro!: partial_function_mono assms)

lemma parse_loop_bind:
  "parse_loop inc base (raw # rest) n p =
    (if maxLine \<le> int (length raw) then Some (Inl ErrTooLong)
     else Option.bind (parser_line inc base (drop_cr raw) (n + 1) p)
       (\<lambda>r. case r of Inl e \<Rightarrow> Some (Inl e) | Inr p' \<Rightarrow> parse_loop inc base rest (n + 1) p'))"
  by (simp add: Option.bind_def split: option.split sum.split)

lemma parse_loop_mono [partial_function_mono]:
  assumes F: "\<And>a. mono_option (\<lambda>f. F f a)"
  shows "mono_option (\<lambda>f. parse_loop (F f) base ls n p)"
proof (induction ls arbitrary: n p)
  case Nil
  show ?case by (simp add: partial_function_mono)
next
  case (Cons raw rest)
  have "mono_option (\<lambda>f. case r of Inl e \<Rightarrow> Some (Inl e)
      | Inr p' \<Rightarrow> parse_loop (F f) base rest (n + 1) p')" for r :: "parse_error + parser"
    using Cons.IH by (cases r) (auto intro!: partial_function_mono)
  then show ?case unfolding parse_loop_bind by (intro partial_function_mono parser_line_mono F)
qed

lemma parse_reader_mono [partial_function_mono]:
  "(\<And>a. mono_option (\<lambda>f. F f a)) \<Longrightarrow> mono_option (\<lambda>f. parse_reader (F f) base content)"
  unfolding parse_reader_def by (rule parse_loop_mono)

text \<open>\<open>parseFile\<close>: the path is on the stack only while its content is read.\<close>

partial_function (option) parseFile :: "files \<Rightarrow> abspath list \<Rightarrow> abspath \<Rightarrow> parse_result" where
  "parseFile fs visited path =
    (if path \<in> set visited then Some (Inl (CircularInclude path))
     else case map_of fs path of None \<Rightarrow> Some (Inl (OpenFailed path))
       | Some content \<Rightarrow>
           parse_reader (\<lambda>inc. parseFile fs (path # visited) inc) (Some (path_Dir path)) content)"

definition parser_Parse :: "string \<Rightarrow> parse_result" where
  "parser_Parse content = parse_reader (\<lambda>path. None) None content"

definition ParseFile :: "files \<Rightarrow> abspath option \<Rightarrow> string \<Rightarrow> parse_result" where
  "ParseFile fs cwd path =
    (if path \<noteq> [] \<and> hd path = CHR ''/'' then parseFile fs [] (resolve_path [] path)
     else case cwd of None \<Rightarrow> Some (Inl (GetwdFailed path))
       | Some dir \<Rightarrow> parseFile fs [] (resolve_path dir path))"

fun parse_files_loop :: "files \<Rightarrow> abspath option \<Rightarrow> string list \<Rightarrow> dict_file \<Rightarrow> parse_result" where
  "parse_files_loop fs cwd [] merged = Some (Inr merged)"
| "parse_files_loop fs cwd (path # paths) merged =
    (case ParseFile fs cwd path of None \<Rightarrow> None
     | Some (Inl e) \<Rightarrow> Some (Inl e)
     | Some (Inr d) \<Rightarrow> parse_files_loop fs cwd paths (append_file merged d))"

definition ParseFiles :: "files \<Rightarrow> abspath option \<Rightarrow> string list \<Rightarrow> parse_result" where
  "ParseFiles fs cwd paths = parse_files_loop fs cwd paths empty_file"

section \<open>Include chains end\<close>

lemma parse_loop_returns: "(\<And>a. inc a \<noteq> None) \<Longrightarrow> parse_loop inc base ls n p \<noteq> None"
proof (induction ls arbitrary: n p)
  case (Cons raw rest)
  have n: "inc a = None \<longleftrightarrow> False" for a using Cons.prems [of a] by simp
  have "parser_line inc base l m q \<noteq> None" for l m q
    by (auto simp: parser_line_def handleInclude_def n split: list.split option.splits sum.splits)
  then obtain r where "parser_line inc base (drop_cr raw) (n + 1) p = Some r" by blast
  with Cons show ?case by (cases r) auto
qed simp

text \<open>Every include adds a file to the stack, and only finitely many exist.\<close>

lemma parseFile_induct:
  assumes step: "\<And>visited path. (\<And>a. path \<notin> set visited \<Longrightarrow> path \<in> dom (map_of fs) \<Longrightarrow>
      P (path # visited) a) \<Longrightarrow> P visited path"
  shows "P visited path"
proof (induction "card (dom (map_of fs) - set visited)" arbitrary: visited path rule: less_induct)
  case (less visited path)
  have smaller: "card (dom (map_of fs) - set (path # visited)) < card (dom (map_of fs) - set visited)"
    if "path \<notin> set visited" "path \<in> dom (map_of fs)"
  proof -
    have "dom (map_of fs) - set (path # visited) \<subset> dom (map_of fs) - set visited" using that by auto
    then show ?thesis by (intro psubset_card_mono finite_Diff finite_dom_map_of)
  qed
  show ?case by (rule step) (rule less [OF smaller])
qed

lemma parseFile_returns: "parseFile fs visited path \<noteq> None"
proof (induction visited path rule: parseFile_induct [where fs = fs])
  case (1 visited path)
  have "parse_reader (\<lambda>inc. parseFile fs (path # visited) inc) base content \<noteq> None"
    if "path \<notin> set visited" "path \<in> dom (map_of fs)" for base content
    unfolding parse_reader_def by (rule parse_loop_returns) (rule 1 [OF that])
  then show ?case by (subst parseFile.simps) (simp add: domIff del: not_None_eq split: option.split)
qed

lemma ParseFiles_returns: "ParseFiles fs cwd paths \<noteq> None"
proof -
  have f: "ParseFile fs cwd p \<noteq> None" for p
    by (auto simp: ParseFile_def parseFile_returns split: option.split simp del: not_None_eq)
  have "parse_files_loop fs cwd paths m \<noteq> None" for m
    by (induction paths arbitrary: m) (use f in \<open>auto split: option.split sum.split\<close>)
  then show ?thesis by (simp add: ParseFiles_def del: not_None_eq)
qed

text \<open>
  C22: Reading dictionary files returns: whatever the files contain and however their
  \<open>$INCLUDE\<close> lines refer to each other, every file of the list is read or an error is
  reported, and a path that is already on the include stack is reported as circular.
\<close>

theorem parse_files_return:
  "(\<exists>r. ParseFiles fs cwd paths = Some r)
   \<and> parseFile fs (stack @ path # visited) path = Some (Inl (CircularInclude path))"
proof
  show "\<exists>r. ParseFiles fs cwd paths = Some r" using ParseFiles_returns by blast
  show "parseFile fs (stack @ path # visited) path = Some (Inl (CircularInclude path))"
    by (subst parseFile.simps) simp
qed

section \<open>What a parsed file contains\<close>

text \<open>Every attribute has a name, and a value type that \<open>normalizeValueType\<close> produces.\<close>

definition value_type_names :: "string list" where
  "value_type_names = [''string'', ''integer'', ''ipaddr'', ''ipv6addr'', ''octets'', ''vsa'',
     ''extended'', ''raw'']"

definition file_ok :: "dict_file \<Rightarrow> bool" where
  "file_ok f \<longleftrightarrow> list_all (\<lambda>a. daName a \<noteq> [] \<and> daValueType a \<in> set value_type_names) (dfAttributes f)"

lemma if_mem: "x \<in> S \<Longrightarrow> y \<in> S \<Longrightarrow> (if c then x else y) \<in> S"
  by simp

lemma normalizeValueType_range: "normalizeValueType v \<in> set value_type_names"
  unfolding normalizeValueType_def by (intro if_mem) (simp_all add: value_type_names_def)

lemma Fields_nonempty: "w \<in> set (Fields s) \<Longrightarrow> w \<noteq> []"
proof -
  have "w \<in> set (fields_loop s cur) \<Longrightarrow> w \<noteq> []" for cur
  proof (induction s cur rule: fields_loop.induct)
    case (1 s cur)
    show ?case
    proof (cases "s = []")
      case False
      obtain r k where rk: "rune_at s = (r, k)" by force
      with 1 False show ?thesis
        by (subst (asm) (3) fields_loop.simps) (auto simp: flush_field_def split: if_splits)
    qed (use 1 in \<open>simp add: fields_loop_Nil flush_field_def split: if_splits\<close>)
  qed
  then show "w \<in> set (Fields s) \<Longrightarrow> w \<noteq> []" by (simp add: Fields_def)
qed

lemma apply_flags_keep:
  "apply_flags n a fs = Inr b \<Longrightarrow> daName b = daName a \<and> daValueType b = daValueType a"
  by (induction n a fs rule: apply_flags.induct)
     (auto simp: applyAttrFlag_def split: if_splits option.splits sum.splits)

lemma handleAttribute_ok:
  assumes "handleAttribute args n p = Inr q" "\<forall>w \<in> set args. w \<noteq> []" "file_ok (psDict p)"
  shows "file_ok (psDict q)"
proof -
  from assms(1) obtain a t where q: "q = p\<lparr>psDict := (psDict p)\<lparr>dfAttributes := dfAttributes (psDict p) @ [a]\<rparr>\<rparr>"
    and l: "3 \<le> length args"
    and "apply_flags n \<lparr>daName = args ! 0, daType = t, daValueType = normalizeValueType (args ! 2),
          daEncrypt = 0, daHasTag = False, daVendor = psVendor p\<rparr> (drop 3 args) = Inr a"
    by (auto simp: handleAttribute_def split: if_splits sum.splits)
  from apply_flags_keep [OF this(3)] have "daName a = args ! 0" "daValueType a = normalizeValueType (args ! 2)"
    by simp_all
  moreover have "args ! 0 \<in> set args" by (rule nth_mem) (use l in linarith)
  ultimately show ?thesis using assms(2,3) by (simp add: q file_ok_def normalizeValueType_range)
qed

lemma parser_line_ok:
  assumes inc: "\<And>a f. inc a = Some (Inr f) \<Longrightarrow> file_ok f"
    and "parser_line inc base raw n p = Some (Inr q)" "file_ok (psDict p)"
  shows "file_ok (psDict q)"
proof (cases "Fields (stripComment raw)")
  case (Cons d args)
  then have "\<forall>w \<in> set args. w \<noteq> []" using Fields_nonempty [of _ "stripComment raw"] by auto
  with handleAttribute_ok [of args n p q] Cons assms(2,3) show ?thesis
    by (auto simp: parser_line_def handleInclude_def handleValue_def handleVendor_def
        handleBeginVendor_def file_ok_def append_file_def dest: inc split: if_splits option.splits sum.splits)
qed (use assms in \<open>simp add: parser_line_def\<close>)

lemma parse_loop_ok:
  assumes inc: "\<And>a f. inc a = Some (Inr f) \<Longrightarrow> file_ok f"
  shows "parse_loop inc base ls n p = Some (Inr f) \<Longrightarrow> file_ok (psDict p) \<Longrightarrow> file_ok f"
proof (induction ls arbitrary: n p)
  case (Cons raw rest)
  then show ?case using parser_line_ok [where inc = inc and base = base and raw = "drop_cr raw" and n = "n + 1" and p = p, OF inc]
    by (auto split: if_splits option.splits sum.splits)
qed simp

lemma empty_file_ok: "file_ok empty_file"
  by (simp add: file_ok_def empty_file_def)

lemma parseFile_ok: "parseFile fs visited path = Some (Inr f) \<Longrightarrow> file_ok f"
proof (induction visited path arbitrary: f rule: parseFile_induct [where fs = fs])
  case (1 visited path)
  from 1(2) obtain content where c: "path \<notin> set visited" "map_of fs path = Some content"
    and r: "parse_reader (\<lambda>inc. parseFile fs (path # visited) inc) (Some (path_Dir path)) content
      = Some (Inr f)"
    by (subst (asm) parseFile.simps) (auto split: if_splits option.splits)
  from r show ?case unfolding parse_reader_def
    by (rule parse_loop_ok [rotated]) (use 1(1) c in \<open>auto simp: empty_file_ok\<close>)
qed

lemma file_ok_append: "file_ok d \<Longrightarrow> file_ok e \<Longrightarrow> file_ok (append_file d e)"
  by (simp add: file_ok_def append_file_def)

lemma ParseFiles_ok:
  assumes "ParseFiles fs cwd paths = Some (Inr f)" shows "file_ok f"
proof -
  have one: "ParseFile fs cwd p = Some (Inr g) \<Longrightarrow> file_ok g" for p g
    by (auto simp: ParseFile_def dest: parseFile_ok split: if_splits option.splits)
  have "parse_files_loop fs cwd paths m = Some (Inr f) \<Longrightarrow> file_ok m \<Longrightarrow> file_ok f" for m
    by (induction paths arbitrary: m)
       (auto dest: one intro: file_ok_append split: option.splits sum.splits)
  with assms show ?thesis by (simp add: ParseFiles_def file_ok_def empty_file_def)
qed

section \<open>A dictionary is read back from its printed form\<close>

definition print_flags :: "dict_attr \<Rightarrow> string list" where
  "print_flags a = (if daEncrypt a = 0 then [] else [''encrypt='' @ itoa (daEncrypt a)]) @
     (if daHasTag a then [''has_tag''] else [])"

definition attr_words :: "dict_attr \<Rightarrow> string list" where
  "attr_words a =
     [''ATTRIBUTE'', daName a, dec_digits (unat (daType a)), daValueType a] @ print_flags a"

definition print_attr :: "dict_attr \<Rightarrow> string list list" where
  "print_attr a =
    (if daVendor a = [] then [attr_words a]
     else [[''BEGIN-VENDOR'', daVendor a], attr_words a, [''END-VENDOR'']])"

definition print_words :: "dict_file \<Rightarrow> string list list" where
  "print_words d = concat (map print_attr (dfAttributes d)) @
     map (\<lambda>v. [''VALUE'', dvAttributeName v, dvName v, dec_digits (unat (dvNumber v))]) (dfValues d) @
     map (\<lambda>v. [''VENDOR'', dnName v, dec_digits (unat (dnID v))]) (dfVendors d)"

definition print_dict :: "dict_file \<Rightarrow> string" where
  "print_dict d = concat (map (\<lambda>ws. join_with '' '' ws @ [CHR 0x0A]) (print_words d))"

text \<open>
  What the format can carry: names that are printable words, value types as
  \<open>normalizeValueType\<close> leaves them, an \<open>encrypt\<close> flag that fits an \<open>int\<close>, and lines the
  scanner's buffer holds.
\<close>

definition printable_attr :: "dict_attr \<Rightarrow> bool" where
  "printable_attr a \<longleftrightarrow> plain_word (daName a) \<and> normalizeValueType (daValueType a) = daValueType a \<and>
     - (2 ^ 63) \<le> daEncrypt a \<and> daEncrypt a < 2 ^ 63 \<and> (daVendor a = [] \<or> plain_word (daVendor a))"

definition printable_dict :: "dict_file \<Rightarrow> bool" where
  "printable_dict d \<longleftrightarrow> list_all printable_attr (dfAttributes d) \<and>
     list_all (\<lambda>v. plain_word (dvAttributeName v) \<and> plain_word (dvName v)) (dfValues d) \<and>
     list_all (\<lambda>v. plain_word (dnName v)) (dfVendors d) \<and>
     list_all (\<lambda>ws. int (length (join_with '' '' ws)) < maxLine) (print_words d)"

lemma plain_word_char: "plain_word w \<Longrightarrow> c \<in> set w \<Longrightarrow> 33 \<le> ord c \<and> ord c \<le> 126 \<and> c \<noteq> CHR ''#''"
  by (simp add: plain_word_def)

lemma join_chars:
  "\<forall>w \<in> set ws. plain_word w \<Longrightarrow> c \<in> set (join_with '' '' ws) \<Longrightarrow> 32 \<le> ord c \<and> ord c \<le> 126 \<and> c \<noteq> CHR ''#''"
  by (induction ws rule: induct_list012) (auto dest: plain_word_char)

lemma parsed_words:
  assumes "\<forall>w \<in> set ws. plain_word w"
  shows "Fields (stripComment (drop_cr (join_with '' '' ws))) = ws"
proof -
  let ?l = "join_with '' '' ws"
  have "CHR 0x0D \<notin> set ?l" using join_chars [OF assms, of "CHR 0x0D"] by auto
  then have "drop_cr ?l = ?l" by (auto simp: drop_cr_def) (metis last_in_set)
  moreover have "stripComment ?l = ?l" using join_chars [OF assms] by (auto simp: stripComment_def)
  ultimately show ?thesis using assms by (simp add: Fields_join)
qed

lemma no_newline: "\<forall>w \<in> set ws. plain_word w \<Longrightarrow> CHR 0x0A \<notin> set (join_with '' '' ws)"
  using join_chars [of ws "CHR 0x0A"] by auto

lemma dec_digits_plain: "plain_word (dec_digits n)"
  using dec_digits_facts(1,3) [of n]
  by (auto simp: plain_word_def list_all_iff is_digit_def)

lemma flag_plain: "plain_word (''encrypt='' @ itoa i)"
  using dec_digits_plain [of "nat i"] dec_digits_plain [of "nat (- i)"]
  by (auto simp: itoa_def plain_word_def)

lemma value_type_plain: "normalizeValueType v = v \<Longrightarrow> plain_word v"
proof -
  have "list_all plain_word value_type_names" by code_simp
  then have "plain_word (normalizeValueType v)" using normalizeValueType_range [of v]
    by (simp add: list_all_iff)
  then show "normalizeValueType v = v \<Longrightarrow> plain_word v" by simp
qed

lemma attr_words_plain: "printable_attr a \<Longrightarrow> \<forall>w \<in> set (attr_words a). plain_word w"
  using flag_plain [of "daEncrypt a"]
  by (auto simp: attr_words_def print_flags_def printable_attr_def value_type_plain dec_digits_plain)
     (auto simp: plain_word_def)

text \<open>One printed line is one step of the loop.\<close>

definition words_step :: "string list \<Rightarrow> nat \<Rightarrow> parser \<Rightarrow> (parse_error + parser) option" where
  "words_step ws n p =
    (case ws of [] \<Rightarrow> Some (Inr p) | directive # args \<Rightarrow>
       if directive = ''ATTRIBUTE'' then Some (handleAttribute args n p)
       else if directive = ''VALUE'' then Some (handleValue args n p)
       else if directive = ''VENDOR'' then Some (handleVendor args n p)
       else if directive = ''BEGIN-VENDOR'' then Some (handleBeginVendor args n p)
       else if directive = ''END-VENDOR'' then Some (Inr (p\<lparr>psVendor := []\<rparr>)) else None)"

lemma parse_loop_words:
  assumes "\<forall>w \<in> set ws. plain_word w" "int (length (join_with '' '' ws)) < maxLine"
    and "words_step ws (n + 1) p = Some (Inr p')"
  shows "parse_loop inc base (join_with '' '' ws # rest) n p = parse_loop inc base rest (n + 1) p'"
proof -
  have "parser_line inc base (drop_cr (join_with '' '' ws)) (n + 1) p = Some (Inr p')"
  proof (cases ws)
    case (Cons d args)
    with assms(3) show ?thesis unfolding parser_line_def parsed_words [OF assms(1)]
      by (auto simp: words_step_def split: if_splits)
  qed (use assms(3) parsed_words [OF assms(1)] in \<open>simp add: parser_line_def words_step_def\<close>)
  with assms(2) show ?thesis by simp
qed

lemma apply_print_flags:
  "- (2 ^ 63) \<le> daEncrypt a \<Longrightarrow> daEncrypt a < 2 ^ 63 \<Longrightarrow>
   apply_flags n (a\<lparr>daEncrypt := 0, daHasTag := False\<rparr>) (print_flags a) = Inr a"
proof -
  assume "- (2 ^ 63) \<le> daEncrypt a" "daEncrypt a < 2 ^ 63"
  then have "applyAttrFlag n b (''encrypt='' @ itoa (daEncrypt a)) = Inr (b\<lparr>daEncrypt := daEncrypt a\<rparr>)" for b
    using CutPrefix_append [of "''encrypt=''" "itoa (daEncrypt a)"]
    by (simp add: applyAttrFlag_def Atoi_itoa)
  moreover have "applyAttrFlag n b ''has_tag'' = Inr (b\<lparr>daHasTag := True\<rparr>)" for b
    by (simp add: applyAttrFlag_def)
  ultimately show ?thesis by (cases a) (simp add: print_flags_def)
qed

definition add_attr :: "parser \<Rightarrow> dict_attr \<Rightarrow> parser" where
  "add_attr p a = p\<lparr>psDict := (psDict p)\<lparr>dfAttributes := dfAttributes (psDict p) @ [a]\<rparr>\<rparr>"

lemma attr_line_step:
  assumes "printable_attr a" "psVendor p = daVendor a"
  shows "words_step (attr_words a) n p = Some (Inr (add_attr p a))"
proof -
  have "\<not> 255 < unat (daType a)" using unat_byte_less [of "daType a"] by linarith
  then have "parseAttrNumber n (dec_digits (unat (daType a))) = Inr (daType a)"
    by (simp add: parseAttrNumber_def ParseUint0_word)
  moreover have "apply_flags n \<lparr>daName = daName a, daType = daType a, daValueType = daValueType a,
      daEncrypt = 0, daHasTag = False, daVendor = daVendor a\<rparr> (print_flags a) = Inr a"
    using apply_print_flags [of a n] assms by (cases a) (simp add: printable_attr_def)
  ultimately show ?thesis using assms
    by (simp add: words_step_def attr_words_def handleAttribute_def printable_attr_def add_attr_def)
qed


text \<open>The loop over the printed lines of a list of entries, each list in turn.\<close>

abbreviation text_of :: "string list list \<Rightarrow> string list" where
  "text_of \<equiv> map (join_with '' '')"

definition words_fit :: "string list list \<Rightarrow> bool" where
  "words_fit wss \<longleftrightarrow> list_all (\<lambda>ws. (\<forall>w \<in> set ws. plain_word w) \<and> int (length (join_with '' '' ws)) < maxLine) wss"

fun words_run :: "string list list \<Rightarrow> nat \<Rightarrow> parser \<Rightarrow> (parse_error + parser) option" where
  "words_run [] n p = Some (Inr p)"
| "words_run (ws # wss) n p = (case words_step ws (n + 1) p of
     Some (Inr p') \<Rightarrow> words_run wss (n + 1) p' | r \<Rightarrow> r)"

lemma parse_loop_run:
  "words_fit wss \<Longrightarrow> words_run wss n p = Some (Inr p') \<Longrightarrow>
   parse_loop inc base (text_of wss) n p = Some (Inr (psDict p'))"
proof (induction wss arbitrary: n p)
  case (Cons ws wss)
  then obtain q where q: "words_step ws (n + 1) p = Some (Inr q)" "words_run wss (n + 1) q = Some (Inr p')"
    by (auto split: option.splits sum.splits)
  from Cons.prems(1) have w: "\<forall>w \<in> set ws. plain_word w" "int (length (join_with '' '' ws)) < maxLine"
    "words_fit wss" by (simp_all add: words_fit_def)
  from parse_loop_words [OF w(1,2) q(1)] Cons.IH [OF w(3) q(2)] show ?case by simp
qed simp

lemma words_run_append:
  "words_run xs n p = Some (Inr q) \<Longrightarrow> words_run (xs @ ys) n p = words_run ys (n + length xs) q"
  by (induction xs arbitrary: n p) (auto split: option.splits sum.splits)

lemma words_run_attr:
  "printable_attr a \<Longrightarrow> psVendor p = [] \<Longrightarrow> words_run (print_attr a) n p = Some (Inr (add_attr p a))"
proof -
  assume a: "printable_attr a" and p: "psVendor p = []"
  show ?thesis
  proof (cases "daVendor a = []")
    case True
    with attr_line_step [OF a, of p] p show ?thesis by (simp add: print_attr_def)
  next
    case False
    with attr_line_step [OF a, of "p\<lparr>psVendor := daVendor a\<rparr>"] p show ?thesis
      by (cases p) (simp add: print_attr_def words_step_def handleBeginVendor_def add_attr_def)
  qed
qed

lemma words_run_attrs:
  "list_all printable_attr as \<Longrightarrow> psVendor p = [] \<Longrightarrow>
   words_run (concat (map print_attr as)) n p
     = Some (Inr (p\<lparr>psDict := (psDict p)\<lparr>dfAttributes := dfAttributes (psDict p) @ as\<rparr>\<rparr>))"
proof (induction as arbitrary: n p)
  case (Cons a as)
  then show ?case
    using words_run_append [OF words_run_attr [of a p n], of "concat (map print_attr as)"]
      Cons.IH [of "add_attr p a" "n + length (print_attr a)"]
    by (simp add: add_attr_def)
qed simp

lemma words_run_values:
  "words_run (map (\<lambda>v. [''VALUE'', dvAttributeName v, dvName v, dec_digits (unat (dvNumber v))]) vs) n p
     = Some (Inr (p\<lparr>psDict := (psDict p)\<lparr>dfValues := dfValues (psDict p) @ vs\<rparr>\<rparr>))"
  by (induction vs arbitrary: n p) (simp_all add: words_step_def handleValue_def ParseUint0_word)

lemma words_run_vendors:
  "words_run (map (\<lambda>v. [''VENDOR'', dnName v, dec_digits (unat (dnID v))]) vs) n p
     = Some (Inr (p\<lparr>psDict := (psDict p)\<lparr>dfVendors := dfVendors (psDict p) @ vs\<rparr>\<rparr>))"
  by (induction vs arbitrary: n p) (simp_all add: words_step_def handleVendor_def ParseUint0_word)

lemma directives_plain:
  "plain_word ''BEGIN-VENDOR''" "plain_word ''END-VENDOR''" "plain_word ''VALUE''" "plain_word ''VENDOR''"
  by code_simp+

lemma print_attr_plain:
  assumes "printable_attr a" "ws \<in> set (print_attr a)" "w \<in> set ws"
  shows "plain_word w"
proof (cases "ws = attr_words a")
  case True
  with attr_words_plain [OF assms(1)] assms(3) show ?thesis by simp
next
  case False
  with assms(2) have "daVendor a \<noteq> []" "w \<in> set [''BEGIN-VENDOR'', daVendor a, ''END-VENDOR'']"
    using assms(3) by (auto simp: print_attr_def split: if_splits)
  with assms(1) directives_plain show ?thesis by (auto simp: printable_attr_def)
qed

lemma print_words_fit:
  assumes d: "printable_dict d" shows "words_fit (print_words d)"
proof -
  have "plain_word w" if "ws \<in> set (print_words d)" "w \<in> set ws" for ws w
  proof -
    from that(1) consider a where "a \<in> set (dfAttributes d)" "ws \<in> set (print_attr a)"
      | v where "v \<in> set (dfValues d)"
          "ws = [''VALUE'', dvAttributeName v, dvName v, dec_digits (unat (dvNumber v))]"
      | v where "v \<in> set (dfVendors d)" "ws = [''VENDOR'', dnName v, dec_digits (unat (dnID v))]"
      unfolding print_words_def by auto
    then show ?thesis
      using d that(2) print_attr_plain directives_plain dec_digits_plain
      unfolding printable_dict_def list_all_iff by cases fastforce+
  qed
  with d show ?thesis by (simp add: words_fit_def printable_dict_def list_all_iff)
qed

lemma parse_reader_print:
  assumes "printable_dict d"
  shows "parse_reader inc base (print_dict d) = Some (Inr d)"
proof -
  let ?p = "\<lparr>psDict = empty_file, psVendor = []\<rparr>"
  have fit: "words_fit (print_words d)" using assms by (rule print_words_fit)
  then have "\<forall>l \<in> set (text_of (print_words d)). CHR 0x0A \<notin> set l"
    by (auto simp: words_fit_def list_all_iff no_newline)
  from raw_lines_unlines [OF this] have "raw_lines (print_dict d) = text_of (print_words d)"
    by (simp add: print_dict_def comp_def)
  moreover have "words_run (print_words d) 0 ?p = Some (Inr \<lparr>psDict = d, psVendor = []\<rparr>)"
    using assms unfolding print_words_def printable_dict_def
    by (subst words_run_append [OF words_run_attrs])
       (simp_all add: words_run_append [OF words_run_values] words_run_vendors empty_file_def)
  ultimately show ?thesis using parse_loop_run [OF fit] by (simp add: parse_reader_def)
qed

text \<open>
  C32: A dictionary written out as ATTRIBUTE, VALUE and VENDOR lines, with the vendor's
  attributes inside BEGIN-VENDOR blocks, is parsed back to the same entries in the same order,
  from a reader as well as from a file.
\<close>

theorem parse_print_dict:
  assumes "printable_dict d"
  shows "parser_Parse (print_dict d) = Some (Inr d)
    \<and> (path \<notin> set visited \<and> map_of fs path = Some (print_dict d)
        \<longrightarrow> parseFile fs visited path = Some (Inr d))"
  using parse_reader_print [OF assms] by (simp add: parser_Parse_def parseFile.simps)

definition sample_dict :: dict_file where
  "sample_dict = \<lparr>dfAttributes =
      [\<lparr>daName = ''User-Password'', daType = 2, daValueType = ''string'', daEncrypt = 1,
        daHasTag = False, daVendor = []\<rparr>,
       \<lparr>daName = ''Cisco-AVPair'', daType = 1, daValueType = ''string'', daEncrypt = 0,
        daHasTag = True, daVendor = ''Cisco''\<rparr>],
     dfValues = [\<lparr>dvAttributeName = ''Service-Type'', dvName = ''Login-User'', dvNumber = 1\<rparr>],
     dfVendors = [\<lparr>dnName = ''Cisco'', dnID = 9\<rparr>]\<rparr>"

lemma printable_sample: "printable_dict sample_dict"
  by code_simp

theorem parse_print_dict_witness:
  "parser_Parse (print_dict sample_dict) = Some (Inr sample_dict)
   \<and> parseFile [([''d''], print_dict sample_dict)] [] [''d''] = Some (Inr sample_dict)"
  using parse_print_dict [OF printable_sample, of "[''d'']" "[]" "[([''d''], print_dict sample_dict)]"]
  by simp

end
