(* ===== verification/Dictionary.thy ===== *)
theory Dictionary
  imports DictParser Errors Types "HOL-Library.Mapping" "HOL-Library.AList_Mapping"
begin

text \<open>
  \<open>dictionary/dictionary.go\<close>, \<open>register.go\<close> and the tables \<open>rfc*.go\<close>: attribute
  definitions indexed by type number and by name. The two Go maps hold pointers to one shared
  entry that no method changes after it is stored, so entries are values here. The mutex makes
  each method one step. The interface \<open>keyed_registry\<close> says what such a double index promises;
  its lemmas give the state of a dictionary after any list of registrations, and the model's
  dictionary is an instance.
\<close>

section \<open>Value types\<close>

datatype value_type = TypeString | TypeInteger | TypeIPAddr | TypeIPv6Addr | TypeOctets | TypeVSA
  | TypeExtended | TypeRaw

lemma UNIV_value_type: "UNIV = {TypeString, TypeInteger, TypeIPAddr, TypeIPv6Addr, TypeOctets,
    TypeVSA, TypeExtended, TypeRaw}"
  using value_type.exhaust by blast

instantiation value_type :: enum
begin
definition "enum_value_type = [TypeString, TypeInteger, TypeIPAddr, TypeIPv6Addr, TypeOctets,
  TypeVSA, TypeExtended, TypeRaw]"
definition "enum_all_value_type P \<longleftrightarrow> list_all P (enum_class.enum :: value_type list)"
definition "enum_ex_value_type P \<longleftrightarrow> list_ex P (enum_class.enum :: value_type list)"
instance
  by standard (simp_all add: enum_value_type_def enum_all_value_type_def enum_ex_value_type_def
      UNIV_value_type)
end

fun ValueType_String :: "value_type \<Rightarrow> string" where
  "ValueType_String TypeString = ''string''"
| "ValueType_String TypeInteger = ''integer''"
| "ValueType_String TypeIPAddr = ''ipaddr''"
| "ValueType_String TypeIPv6Addr = ''ipv6addr''"
| "ValueType_String TypeOctets = ''octets''"
| "ValueType_String TypeVSA = ''vsa''"
| "ValueType_String TypeExtended = ''extended''"
| "ValueType_String TypeRaw = ''raw''"

section \<open>Dictionaries\<close>

record attribute_def =
  adType :: byte
  adName :: string
  adValueType :: value_type
  adEncrypt :: int
  adHasTag :: bool

definition attr_def :: "byte \<Rightarrow> string \<Rightarrow> value_type \<Rightarrow> int \<Rightarrow> bool \<Rightarrow> attribute_def" where
  "attr_def t n v e g = \<lparr>adType = t, adName = n, adValueType = v, adEncrypt = e, adHasTag = g\<rparr>"

record dictionary =
  byType :: "(byte, attribute_def) mapping"
  byName :: "(string, attribute_def) mapping"

definition NewDictionary :: dictionary where
  "NewDictionary = \<lparr>byType = Mapping.empty, byName = Mapping.empty\<rparr>"

text \<open>\<open>Dictionary.Register\<close>, first the part under the lock.\<close>

definition dict_store :: "dictionary \<Rightarrow> attribute_def \<Rightarrow> dictionary" where
  "dict_store d def =
    (let names = (case Mapping.lookup (byType d) (adType def) of
           Some existing \<Rightarrow> if adName existing \<noteq> adName def
             then Mapping.delete (adName existing) (byName d) else byName d
         | None \<Rightarrow> byName d);
         types = (case Mapping.lookup names (adName def) of
           Some existing \<Rightarrow> if adType existing \<noteq> adType def
             then Mapping.delete (adType existing) (byType d) else byType d
         | None \<Rightarrow> byType d)
     in \<lparr>byType = Mapping.update (adType def) def types, byName = Mapping.update (adName def) def names\<rparr>)"

definition dict_Register :: "dictionary \<Rightarrow> attribute_def \<Rightarrow> dictionary res" where
  "dict_Register d def =
    (if adName def = [] then Inl ErrInvalidAttribute else Inr (dict_store d def))"

definition dict_Lookup :: "dictionary \<Rightarrow> byte \<Rightarrow> attribute_def option" where
  "dict_Lookup d t = Mapping.lookup (byType d) t"

definition dict_LookupName :: "dictionary \<Rightarrow> string \<Rightarrow> attribute_def option" where
  "dict_LookupName d name = Mapping.lookup (byName d) name"

definition dict_Size :: "dictionary \<Rightarrow> nat" where
  "dict_Size d = Mapping.size (byType d)"

definition ResetForTest :: "dictionary \<Rightarrow> dictionary" where
  "ResetForTest d = d\<lparr>byType := Mapping.empty, byName := Mapping.empty\<rparr>"

section \<open>The standard attributes\<close>

definition rfc2865_defs :: "attribute_def list" where
  "rfc2865_defs =
    [attr_def 1 ''User-Name'' TypeString 0 False,
     attr_def 2 ''User-Password'' TypeString 1 False,
     attr_def 3 ''CHAP-Password'' TypeOctets 0 False,
     attr_def 4 ''NAS-IP-Address'' TypeIPAddr 0 False,
     attr_def 5 ''NAS-Port'' TypeInteger 0 False,
     attr_def 6 ''Service-Type'' TypeInteger 0 False,
     attr_def 7 ''Framed-Protocol'' TypeInteger 0 False,
     attr_def 8 ''Framed-IP-Address'' TypeIPAddr 0 False,
     attr_def 9 ''Framed-IP-Netmask'' TypeIPAddr 0 False,
     attr_def 10 ''Framed-Routing'' TypeInteger 0 False,
     attr_def 11 ''Filter-Id'' TypeString 0 False,
     attr_def 12 ''Framed-MTU'' TypeInteger 0 False,
     attr_def 13 ''Framed-Compression'' TypeInteger 0 False,
     attr_def 14 ''Login-IP-Host'' TypeIPAddr 0 False,
     attr_def 15 ''Login-Service'' TypeInteger 0 False,
     attr_def 16 ''Login-TCP-Port'' TypeInteger 0 False,
     attr_def 18 ''Reply-Message'' TypeString 0 False,
     attr_def 19 ''Callback-Number'' TypeString 0 False,
     attr_def 20 ''Callback-Id'' TypeString 0 False,
     attr_def 22 ''Framed-Route'' TypeString 0 False,
     attr_def 23 ''Framed-IPX-Network'' TypeInteger 0 False,
     attr_def 24 ''State'' TypeOctets 0 False,
     attr_def 25 ''Class'' TypeOctets 0 False,
     attr_def 26 ''Vendor-Specific'' TypeVSA 0 False,
     attr_def 27 ''Session-Timeout'' TypeInteger 0 False,
     attr_def 28 ''Idle-Timeout'' TypeInteger 0 False,
     attr_def 29 ''Termination-Action'' TypeInteger 0 False,
     attr_def 30 ''Called-Station-Id'' TypeString 0 False,
     attr_def 31 ''Calling-Station-Id'' TypeString 0 False,
     attr_def 32 ''NAS-Identifier'' TypeString 0 False,
     attr_def 33 ''Proxy-State'' TypeOctets 0 False,
     attr_def 34 ''Login-LAT-Service'' TypeString 0 False,
     attr_def 35 ''Login-LAT-Node'' TypeString 0 False,
     attr_def 36 ''Login-LAT-Group'' TypeString 0 False,
     attr_def 37 ''Framed-AppleTalk-Link'' TypeInteger 0 False,
     attr_def 38 ''Framed-AppleTalk-Network'' TypeInteger 0 False,
     attr_def 39 ''Framed-AppleTalk-Zone'' TypeString 0 False,
     attr_def 60 ''CHAP-Challenge'' TypeOctets 0 False,
     attr_def 61 ''NAS-Port-Type'' TypeInteger 0 False,
     attr_def 62 ''Port-Limit'' TypeInteger 0 False,
     attr_def 63 ''Login-LAT-Port'' TypeString 0 False]"

definition rfc2866_defs :: "attribute_def list" where
  "rfc2866_defs =
    [attr_def 40 ''Acct-Status-Type'' TypeInteger 0 False,
     attr_def 41 ''Acct-Delay-Time'' TypeInteger 0 False,
     attr_def 42 ''Acct-Input-Octets'' TypeInteger 0 False,
     attr_def 43 ''Acct-Output-Octets'' TypeInteger 0 False,
     attr_def 44 ''Acct-Session-Id'' TypeString 0 False,
     attr_def 45 ''Acct-Authentic'' TypeInteger 0 False,
     attr_def 46 ''Acct-Session-Time'' TypeInteger 0 False,
     attr_def 47 ''Acct-Input-Packets'' TypeInteger 0 False,
     attr_def 48 ''Acct-Output-Packets'' TypeInteger 0 False,
     attr_def 49 ''Acct-Terminate-Cause'' TypeInteger 0 False,
     attr_def 50 ''Acct-Multi-Session-Id'' TypeString 0 False,
     attr_def 51 ''Acct-Link-Count'' TypeInteger 0 False]"

definition rfc2868_defs :: "attribute_def list" where
  "rfc2868_defs =
    [attr_def AttrTunnelType ''Tunnel-Type'' TypeInteger 0 True,
     attr_def AttrTunnelMediumType ''Tunnel-Medium-Type'' TypeInteger 0 True,
     attr_def AttrTunnelClientEndpoint ''Tunnel-Client-Endpoint'' TypeString 0 True,
     attr_def AttrTunnelServerEndpoint ''Tunnel-Server-Endpoint'' TypeString 0 True,
     attr_def AttrTunnelPassword ''Tunnel-Password'' TypeString 1 True,
     attr_def AttrTunnelPrivateGroupID ''Tunnel-Private-Group-Id'' TypeString 0 True,
     attr_def AttrTunnelAssignmentID ''Tunnel-Assignment-Id'' TypeString 0 True,
     attr_def AttrTunnelPreference ''Tunnel-Preference'' TypeInteger 0 True,
     attr_def AttrTunnelClientAuthID ''Tunnel-Client-Auth-Id'' TypeString 0 True,
     attr_def AttrTunnelServerAuthID ''Tunnel-Server-Auth-Id'' TypeString 0 True]"

definition rfc2869_defs :: "attribute_def list" where
  "rfc2869_defs =
    [attr_def AttrARAPPassword ''ARAP-Password'' TypeOctets 0 False,
     attr_def AttrARAPFeatures ''ARAP-Features'' TypeOctets 0 False,
     attr_def AttrARAPZoneAccess ''ARAP-Zone-Access'' TypeInteger 0 False,
     attr_def AttrARAPSecurity ''ARAP-Security'' TypeInteger 0 False,
     attr_def AttrARAPSecurityData ''ARAP-Security-Data'' TypeOctets 0 False,
     attr_def AttrPasswordRetry ''Password-Retry'' TypeInteger 0 False,
     attr_def AttrPrompt ''Prompt'' TypeInteger 0 False,
     attr_def AttrConnectInfo ''Connect-Info'' TypeString 0 False,
     attr_def AttrConfigurationToken ''Configuration-Token'' TypeString 0 False,
     attr_def AttrEAPMessage ''EAP-Message'' TypeOctets 0 False,
     attr_def AttrMessageAuthenticator ''Message-Authenticator'' TypeOctets 0 False,
     attr_def AttrAcctInterimInterval ''Acct-Interim-Interval'' TypeInteger 0 False,
     attr_def AttrNASPortID ''NAS-Port-Id'' TypeString 0 False,
     attr_def AttrFramedPool ''Framed-Pool'' TypeString 0 False]"

definition rfc3162_defs :: "attribute_def list" where
  "rfc3162_defs =
    [attr_def AttrNASIPv6Address ''NAS-IPv6-Address'' TypeIPv6Addr 0 False,
     attr_def AttrFramedInterfaceID ''Framed-Interface-Id'' TypeOctets 0 False,
     attr_def AttrFramedIPv6Prefix ''Framed-IPv6-Prefix'' TypeOctets 0 False,
     attr_def AttrLoginIPv6Host ''Login-IPv6-Host'' TypeIPv6Addr 0 False,
     attr_def AttrFramedIPv6Route ''Framed-IPv6-Route'' TypeString 0 False,
     attr_def AttrFramedIPv6Pool ''Framed-IPv6-Pool'' TypeString 0 False]"

definition rfc5176_defs :: "attribute_def list" where
  "rfc5176_defs =
    [attr_def AttrErrorCause ''Error-Cause'' TypeInteger 0 False]"

definition rfc6929_defs :: "attribute_def list" where
  "rfc6929_defs =
    [attr_def AttrExtendedType1 ''Extended-Type-1'' TypeExtended 0 False,
     attr_def AttrExtendedType2 ''Extended-Type-2'' TypeExtended 0 False,
     attr_def AttrExtendedType3 ''Extended-Type-3'' TypeExtended 0 False,
     attr_def AttrExtendedType4 ''Extended-Type-4'' TypeExtended 0 False]"

text \<open>The loop of every \<open>registerRFC*\<close>: an error is a panic.\<close>

fun register_loop :: "dictionary \<Rightarrow> attribute_def list \<Rightarrow> dictionary res" where
  "register_loop d [] = Inr d"
| "register_loop d (def # defs) =
    (case dict_Register d def of Inl e \<Rightarrow> Inl GoPanic | Inr d' \<Rightarrow> register_loop d' defs)"

definition registerRFC2865 :: "dictionary \<Rightarrow> dictionary res" where
  "registerRFC2865 d = register_loop d rfc2865_defs"

definition registerRFC2866 :: "dictionary \<Rightarrow> dictionary res" where
  "registerRFC2866 d = register_loop d rfc2866_defs"

definition registerRFC2868 :: "dictionary \<Rightarrow> dictionary res" where
  "registerRFC2868 d = register_loop d rfc2868_defs"

definition registerRFC2869 :: "dictionary \<Rightarrow> dictionary res" where
  "registerRFC2869 d = register_loop d rfc2869_defs"

definition registerRFC3162 :: "dictionary \<Rightarrow> dictionary res" where
  "registerRFC3162 d = register_loop d rfc3162_defs"

definition registerRFC5176 :: "dictionary \<Rightarrow> dictionary res" where
  "registerRFC5176 d = register_loop d rfc5176_defs"

definition registerRFC6929 :: "dictionary \<Rightarrow> dictionary res" where
  "registerRFC6929 d = register_loop d rfc6929_defs"

definition and_then :: "'a res \<Rightarrow> ('a \<Rightarrow> 'b res) \<Rightarrow> 'b res" where
  "and_then r f = (case r of Inl e \<Rightarrow> Inl e | Inr x \<Rightarrow> f x)"

definition registerStandardAttributes :: "dictionary \<Rightarrow> dictionary res" where
  "registerStandardAttributes d =
     and_then (registerRFC2865 d) (\<lambda>d. and_then (registerRFC2866 d) (\<lambda>d.
     and_then (registerRFC2868 d) (\<lambda>d. and_then (registerRFC2869 d) (\<lambda>d.
     and_then (registerRFC3162 d) (\<lambda>d. and_then (registerRFC5176 d) registerRFC6929)))))"

text \<open>\<open>defaultDict\<close> after the package's \<open>init\<close>.\<close>

definition defaultDict :: "dictionary res" where
  "defaultDict = registerStandardAttributes NewDictionary"

section \<open>Loading a parsed dictionary\<close>

definition mapValueType :: "string \<Rightarrow> value_type res" where
  "mapValueType s =
    (if s = ''string'' then Inr TypeString
     else if s = ''integer'' then Inr TypeInteger
     else if s = ''ipaddr'' then Inr TypeIPAddr
     else if s = ''ipv6addr'' then Inr TypeIPv6Addr
     else if s = ''octets'' then Inr TypeOctets
     else if s = ''vsa'' then Inr TypeVSA
     else if s = ''extended'' then Inr TypeExtended
     else if s = ''raw'' then Inr TypeRaw
     else if s = [] then Inr TypeRaw
     else Inl (ErrOther (''unknown value type '' @ s)))"

text \<open>The entries registered before the one that fails stay.\<close>

fun register_dict_loop :: "dictionary \<Rightarrow> dict_attr list \<Rightarrow> dictionary \<times> unit res" where
  "register_dict_loop d [] = (d, Inr ())"
| "register_dict_loop d (attr # attrs) =
    (case mapValueType (daValueType attr) of Inl e \<Rightarrow> (d, Inl e)
     | Inr vt \<Rightarrow>
       (case dict_Register d (attr_def (daType attr) (daName attr) vt (daEncrypt attr) (daHasTag attr)) of
          Inl e \<Rightarrow> (d, Inl e)
        | Inr d' \<Rightarrow> register_dict_loop d' attrs))"

text \<open>The package-level \<open>Register\<close> works on the default dictionary, here its argument.\<close>

definition Register :: "dictionary \<Rightarrow> attribute_def \<Rightarrow> dictionary res" where
  "Register dflt x = dict_Register dflt x"

definition RegisterFromDict :: "dictionary \<Rightarrow> dict_file option \<Rightarrow> dictionary \<times> unit res" where
  "RegisterFromDict d p =
    (case p of None \<Rightarrow> (d, Inr ()) | Some f \<Rightarrow> register_dict_loop d (dfAttributes f))"

end
