(* ===== verification/Dictionary_Props.thy ===== *)
theory Dictionary_Props
  imports Dictionary
begin

text \<open>
  What the attribute dictionary promises. Its abstract state is the set of entries; type numbers
  and names are both keys of that set. The interface \<open>keyed_registry\<close> states the laws, the
  interpretation \<open>dict\<close> proves them of the two maps \<open>Register\<close> keeps in step, and the
  properties (registration, the standard attributes, loading parsed files) rest on its facts.
\<close>

section \<open>Two indexes over one set of entries\<close>

locale keyed_registry =
  fixes inv :: "'d \<Rightarrow> bool"
    and empty :: "'d"
    and store :: "'d \<Rightarrow> 'e \<Rightarrow> 'd"
    and at_key :: "'d \<Rightarrow> 'k \<Rightarrow> 'e option"
    and at_name :: "'d \<Rightarrow> 'n \<Rightarrow> 'e option"
    and key :: "'e \<Rightarrow> 'k"
    and nm :: "'e \<Rightarrow> 'n"
  assumes inv_empty: "inv empty"
    and at_key_empty: "at_key empty k = None"
    and inv_store: "inv d \<Longrightarrow> inv (store d e)"
    and key_agree: "inv d \<Longrightarrow> at_key d k = Some e \<Longrightarrow> key e = k \<and> at_name d (nm e) = Some e"
    and name_agree: "inv d \<Longrightarrow> at_name d n = Some e \<Longrightarrow> nm e = n \<and> at_key d (key e) = Some e"
    and key_store: "inv d \<Longrightarrow> at_key (store d e) k =
      (if k = key e then Some e
       else case at_key d k of None \<Rightarrow> None | Some x \<Rightarrow> if nm x = nm e then None else Some x)"
begin

definition entries :: "'d \<Rightarrow> 'e set" where
  "entries d = {e. at_key d (key e) = Some e}"

lemma at_key_iff: "inv d \<Longrightarrow> at_key d k = Some e \<longleftrightarrow> e \<in> entries d \<and> key e = k"
  by (auto simp: entries_def dest: key_agree)

lemma at_name_iff: "inv d \<Longrightarrow> at_name d n = Some e \<longleftrightarrow> e \<in> entries d \<and> nm e = n"
  by (auto simp: entries_def dest: key_agree name_agree)

lemma entries_inj:
  assumes "inv d" shows "inj_on key (entries d)" "inj_on nm (entries d)"
proof -
  show "inj_on key (entries d)" by (rule inj_onI) (simp add: entries_def)
  show "inj_on nm (entries d)"
  proof (rule inj_onI)
    fix x y assume "x \<in> entries d" "y \<in> entries d" "nm x = nm y"
    then have "at_name d (nm x) = Some x" "at_name d (nm x) = Some y"
      using assms by (simp_all add: at_name_iff)
    then show "x = y" by simp
  qed
qed

lemma entries_empty: "entries empty = {}"
  by (simp add: entries_def at_key_empty)

lemma entries_store:
  assumes "inv d"
  shows "entries (store d e) = insert e {x \<in> entries d. key x \<noteq> key e \<and> nm x \<noteq> nm e}"
proof (rule set_eqI)
  fix x
  show "x \<in> entries (store d e) \<longleftrightarrow> x \<in> insert e {x \<in> entries d. key x \<noteq> key e \<and> nm x \<noteq> nm e}"
  proof (cases "key x = key e")
    case True
    with assms show ?thesis by (auto simp: entries_def key_store)
  next
    case False
    with assms show ?thesis by (cases "at_key d (key x)") (auto simp: entries_def key_store)
  qed
qed

lemma inv_stores: "inv d \<Longrightarrow> inv (foldl store d es)"
  by (induction es arbitrary: d) (simp_all add: inv_store)

lemma entries_stores:
  "inv d \<Longrightarrow> distinct (map key es) \<Longrightarrow> distinct (map nm es) \<Longrightarrow>
   \<forall>x \<in> entries d. key x \<notin> key ` set es \<and> nm x \<notin> nm ` set es \<Longrightarrow>
   entries (foldl store d es) = entries d \<union> set es"
proof (induction es arbitrary: d)
  case (Cons e es)
  have "entries (store d e) = insert e (entries d)" using Cons.prems by (auto simp: entries_store)
  with Cons show ?case by (auto simp: inv_store)
qed simp

text \<open>An entry is there after a list of stores unless a later one has its key or its name.\<close>

definition clear_of :: "'e \<Rightarrow> 'e list \<Rightarrow> bool" where
  "clear_of e es \<longleftrightarrow> (\<forall>x \<in> set es. key x \<noteq> key e \<and> nm x \<noteq> nm e)"

lemma entries_foldl:
  assumes "inv d"
  shows "e \<in> entries (foldl store d es) \<longleftrightarrow>
    (\<exists>pre post. es = pre @ e # post \<and> clear_of e post) \<or> (e \<in> entries d \<and> clear_of e es)"
proof (induction es rule: rev_induct)
  case Nil
  then show ?case by (simp add: clear_of_def)
next
  case (snoc y es)
  have "entries (foldl store d (es @ [y])) = insert y {x \<in> entries (foldl store d es). key x \<noteq> key y \<and> nm x \<noteq> nm y}"
    using entries_store [OF inv_stores [OF assms]] by simp
  moreover have "(\<exists>pre post. es @ [y] = pre @ e # post \<and> clear_of e post) \<longleftrightarrow>
      e = y \<or> (\<exists>pre post. es = pre @ e # post \<and> clear_of e post) \<and> key y \<noteq> key e \<and> nm y \<noteq> nm e" (is "?l \<longleftrightarrow> ?r")
  proof
    assume ?l
    then obtain pre post where p: "es @ [y] = pre @ e # post" "clear_of e post" by blast
    then show ?r by (cases post rule: rev_cases) (auto simp: clear_of_def)
  next
    assume ?r
    then show ?l
    proof
      assume "e = y"
      then have "es @ [y] = es @ e # [] \<and> clear_of e []" by (simp add: clear_of_def)
      then show ?l by blast
    next
      assume "(\<exists>pre post. es = pre @ e # post \<and> clear_of e post) \<and> key y \<noteq> key e \<and> nm y \<noteq> nm e"
      then obtain pre post where "es = pre @ e # post" "clear_of e post" "key y \<noteq> key e" "nm y \<noteq> nm e" by blast
      then have "es @ [y] = pre @ e # (post @ [y]) \<and> clear_of e (post @ [y])" by (simp add: clear_of_def)
      then show ?l by blast
    qed
  qed
  ultimately show ?case using snoc.IH by (auto simp: clear_of_def)
qed

lemma lookup_foldl:
  assumes "inv d"
  shows "at_key (foldl store d es) k = Some e \<longleftrightarrow>
      (key e = k \<and> (\<exists>pre post. es = pre @ e # post \<and> clear_of e post)) \<or> (at_key d k = Some e \<and> clear_of e es)"
    and "at_name (foldl store d es) n = Some e \<longleftrightarrow>
      (nm e = n \<and> (\<exists>pre post. es = pre @ e # post \<and> clear_of e post)) \<or> (at_name d n = Some e \<and> clear_of e es)"
  using at_key_iff [OF inv_stores [OF assms]] at_name_iff [OF inv_stores [OF assms]] at_key_iff [OF assms]
    at_name_iff [OF assms] entries_foldl [OF assms] by auto

end

section \<open>The dictionary is such a registry\<close>

definition dict_inv :: "dictionary \<Rightarrow> bool" where
  "dict_inv d \<longleftrightarrow>
    (\<forall>t e. dict_Lookup d t = Some e \<longrightarrow> adType e = t \<and> dict_LookupName d (adName e) = Some e) \<and>
    (\<forall>n e. dict_LookupName d n = Some e \<longrightarrow> adName e = n \<and> dict_Lookup d (adType e) = Some e)"

lemma lookup_delete': "Mapping.lookup (Mapping.delete k m) k' = (if k = k' then None else Mapping.lookup m k')"
  by simp

lemma stored_name:
  "n \<noteq> adName e \<Longrightarrow> dict_LookupName (dict_store d e) n =
    (case dict_Lookup d (adType e) of None \<Rightarrow> dict_LookupName d n
     | Some x \<Rightarrow> if adName x = n then None else dict_LookupName d n)"
  by (cases "dict_Lookup d (adType e)")
     (auto simp: dict_store_def dict_Lookup_def dict_LookupName_def Let_def lookup_update' lookup_delete')

lemma stored_key:
  "t \<noteq> adType e \<Longrightarrow> dict_Lookup (dict_store d e) t =
    (case dict_LookupName d (adName e) of None \<Rightarrow> dict_Lookup d t
     | Some x \<Rightarrow> if adType x = t then None else dict_Lookup d t)"
proof -
  assume t: "t \<noteq> adType e"
  let ?names = "case Mapping.lookup (byType d) (adType e) of
      Some x \<Rightarrow> if adName x \<noteq> adName e then Mapping.delete (adName x) (byName d) else byName d
    | None \<Rightarrow> byName d"
  have "Mapping.lookup ?names (adName e) = dict_LookupName d (adName e)"
    by (simp add: dict_LookupName_def lookup_delete' split: option.split)
  then show ?thesis using t
    by (cases "dict_LookupName d (adName e)")
       (auto simp: dict_store_def dict_Lookup_def Let_def lookup_update' lookup_delete')
qed

lemma stored_self:
  "dict_Lookup (dict_store d e) (adType e) = Some e" "dict_LookupName (dict_store d e) (adName e) = Some e"
  by (simp_all add: dict_store_def dict_Lookup_def dict_LookupName_def Let_def)

lemma dict_invD:
  assumes "dict_inv d"
  shows "dict_Lookup d t = Some e \<Longrightarrow> adType e = t \<and> dict_LookupName d (adName e) = Some e"
    and "dict_LookupName d n = Some e \<Longrightarrow> adName e = n \<and> dict_Lookup d (adType e) = Some e"
  using assms by (auto simp: dict_inv_def)

lemma lookup_store:
  assumes "dict_inv d"
  shows "dict_Lookup (dict_store d e) t = (if t = adType e then Some e
     else case dict_Lookup d t of None \<Rightarrow> None | Some x \<Rightarrow> if adName x = adName e then None else Some x)"
proof (cases "t = adType e")
  case False
  show ?thesis
  proof (cases "dict_Lookup d t")
    case None
    with False show ?thesis by (simp add: stored_key split: option.split)
  next
    case (Some x)
    then have x: "adType x = t" "dict_LookupName d (adName x) = Some x" using dict_invD(1) [OF assms] by auto
    show ?thesis
    proof (cases "dict_LookupName d (adName e)")
      case None
      with x False Some show ?thesis by (auto simp: stored_key)
    next
      case (Some y)
      then have "adName y = adName e" "dict_Lookup d (adType y) = Some y" using dict_invD(2) [OF assms] by auto
      with x \<open>dict_Lookup d t = Some x\<close> Some have "adType y = t \<longleftrightarrow> adName x = adName e"
        by (metis option.inject)
      with False show ?thesis unfolding stored_key [OF False] Some \<open>dict_Lookup d t = Some x\<close> by simp
    qed
  qed
qed (simp add: stored_self)

lemma lookup_name_store:
  assumes "dict_inv d"
  shows "dict_LookupName (dict_store d e) n = (if n = adName e then Some e
     else case dict_LookupName d n of None \<Rightarrow> None | Some x \<Rightarrow> if adType x = adType e then None else Some x)"
proof (cases "n = adName e")
  case False
  show ?thesis
  proof (cases "dict_LookupName d n")
    case None
    with False show ?thesis by (simp add: stored_name split: option.split)
  next
    case (Some x)
    then have x: "adName x = n" "dict_Lookup d (adType x) = Some x" using dict_invD(2) [OF assms] by auto
    show ?thesis
    proof (cases "dict_Lookup d (adType e)")
      case None
      with x False Some show ?thesis by (auto simp: stored_name)
    next
      case (Some y)
      then have "adType y = adType e" "dict_LookupName d (adName y) = Some y" using dict_invD(1) [OF assms] by auto
      with x \<open>dict_LookupName d n = Some x\<close> Some have "adName y = n \<longleftrightarrow> adType x = adType e"
        by (metis option.inject)
      with False show ?thesis unfolding stored_name [OF False] Some \<open>dict_LookupName d n = Some x\<close> by simp
    qed
  qed
qed (simp add: stored_self)

lemma dict_inv_store:
  assumes d: "dict_inv d" shows "dict_inv (dict_store d e)"
  unfolding dict_inv_def
proof (intro conjI allI impI)
  fix t x assume x: "dict_Lookup (dict_store d e) t = Some x"
  have "adType x = t \<and> dict_LookupName (dict_store d e) (adName x) = Some x"
  proof (cases "t = adType e")
    case True
    with x show ?thesis by (simp add: stored_self)
  next
    case False
    with x have "dict_Lookup d t = Some x" "adName x \<noteq> adName e"
      by (auto simp: lookup_store [OF d] split: option.splits if_splits)
    with dict_invD(1) [OF d] False show ?thesis by (simp add: lookup_name_store [OF d])
  qed
  then show "adType x = t" "dict_LookupName (dict_store d e) (adName x) = Some x" by auto
next
  fix n x assume x: "dict_LookupName (dict_store d e) n = Some x"
  have "adName x = n \<and> dict_Lookup (dict_store d e) (adType x) = Some x"
  proof (cases "n = adName e")
    case True
    with x show ?thesis by (simp add: stored_self)
  next
    case False
    with x have "dict_LookupName d n = Some x" "adType x \<noteq> adType e"
      by (auto simp: lookup_name_store [OF d] split: option.splits if_splits)
    with dict_invD(2) [OF d] False show ?thesis by (simp add: lookup_store [OF d])
  qed
  then show "adName x = n" "dict_Lookup (dict_store d e) (adType x) = Some x" by auto
qed

interpretation dict: keyed_registry dict_inv NewDictionary dict_store dict_Lookup dict_LookupName
    adType adName
proof unfold_locales
  fix d :: dictionary and e k n
  show "dict_inv NewDictionary"
    by (simp add: dict_inv_def NewDictionary_def dict_Lookup_def dict_LookupName_def)
  show "dict_Lookup NewDictionary k = None"
    by (simp add: NewDictionary_def dict_Lookup_def)
  assume d: "dict_inv d"
  show "dict_inv (dict_store d e)" using d by (rule dict_inv_store)
  show "dict_Lookup d k = Some e \<Longrightarrow> adType e = k \<and> dict_LookupName d (adName e) = Some e"
    by (rule dict_invD(1) [OF d])
  show "dict_LookupName d n = Some e \<Longrightarrow> adName e = n \<and> dict_Lookup d (adType e) = Some e"
    by (rule dict_invD(2) [OF d])
  show "dict_Lookup (dict_store d e) k = (if k = adType e then Some e
     else case dict_Lookup d k of None \<Rightarrow> None | Some x \<Rightarrow> if adName x = adName e then None else Some x)"
    using d by (rule lookup_store)
qed

definition dict_entries :: "dictionary \<Rightarrow> attribute_def set" where
  "dict_entries d = {e. dict_Lookup d (adType e) = Some e}"

lemma dict_entries_eq: "dict_entries = dict.entries"
  by (rule ext) (simp add: dict_entries_def dict.entries_def)

lemma dict_Size_entries: "dict_inv d \<Longrightarrow> dict_Size d = card (dict_entries d)"
proof -
  assume d: "dict_inv d"
  have "t \<in> Mapping.keys (byType d) \<longleftrightarrow> t \<in> adType ` dict_entries d" for t
    using dict.at_key_iff [OF d, of t]
    by (auto simp: keys_is_none_rep Option.is_none_def dict_entries_eq dict_Lookup_def image_iff)
  then have "Mapping.keys (byType d) = adType ` dict_entries d" by blast
  with dict.entries_inj(1) [OF d] show ?thesis
    by (simp add: dict_Size_def Mapping.size_def card_image dict_entries_eq)
qed

lemmas dict_lookup_iff = dict.at_key_iff [folded dict_entries_eq] dict.at_name_iff [folded dict_entries_eq]
lemmas dict_entries_store = dict.entries_store [folded dict_entries_eq]
lemmas dict_entries_stores = dict.entries_stores [folded dict_entries_eq]
lemmas dict_entries_empty = dict.entries_empty [folded dict_entries_eq]

section \<open>Registration\<close>

text \<open>
  C20: Registering an attribute refines insertion into a set in which both the type number and
  the name are keys: every entry with the same number or the same name is displaced, all others
  stay, both lookups and the size read off that set, and only an empty name is refused.
\<close>

theorem register_refines:
  assumes "dict_inv d"
  shows "case dict_Register d e of
      Inl err \<Rightarrow> adName e = [] \<and> err = ErrInvalidAttribute
    | Inr d' \<Rightarrow> adName e \<noteq> [] \<and> dict_inv d'
        \<and> dict_entries d' = insert e {x \<in> dict_entries d. adType x \<noteq> adType e \<and> adName x \<noteq> adName e}
        \<and> (dict_Lookup d' t = Some x \<longleftrightarrow> x \<in> dict_entries d' \<and> adType x = t)
        \<and> (dict_LookupName d' n = Some x \<longleftrightarrow> x \<in> dict_entries d' \<and> adName x = n)
        \<and> dict_Size d' = card (dict_entries d')"
  using assms dict_inv_store [OF assms, of e]
  by (auto simp: dict_Register_def dict_entries_store dict_lookup_iff dict_Size_entries)

theorem register_refines_witness:
  "dict_entries (dict_store NewDictionary (attr_def 1 ''User-Name'' TypeString 0 False))
     = {attr_def 1 ''User-Name'' TypeString 0 False}"
proof -
  let ?e = "attr_def 1 ''User-Name'' TypeString 0 False"
  have "dict_inv NewDictionary" by (rule dict.inv_empty)
  from register_refines [OF this, of ?e 0 undefined "[]"] show ?thesis
    by (simp add: dict_Register_def attr_def_def dict_entries_empty)
qed

section \<open>The standard attributes\<close>

definition standard_attributes :: "attribute_def list" where
  "standard_attributes = rfc2865_defs @ rfc2866_defs @ rfc2868_defs @ rfc2869_defs @ rfc3162_defs @
     rfc5176_defs @ rfc6929_defs"

lemma register_loop_fold:
  "\<forall>e \<in> set es. adName e \<noteq> [] \<Longrightarrow> register_loop d es = Inr (foldl dict_store d es)"
  by (induction es arbitrary: d) (simp_all add: dict_Register_def)

lemma standard_names: "\<forall>e \<in> set standard_attributes. adName e \<noteq> []"
  by (simp add: standard_attributes_def rfc2865_defs_def rfc2866_defs_def rfc2868_defs_def
      rfc2869_defs_def rfc3162_defs_def rfc5176_defs_def rfc6929_defs_def attr_def_def)

lemma standard_distinct:
  "distinct (map adType standard_attributes)" "distinct (map adName standard_attributes)"
  "length standard_attributes = 88"
  by code_simp+

lemma registerStandardAttributes_fold:
  "registerStandardAttributes d = Inr (foldl dict_store d standard_attributes)"
proof -
  have f: "register_loop d es = Inr (foldl dict_store d es)"
    if "es \<in> set [rfc2865_defs, rfc2866_defs, rfc2868_defs, rfc2869_defs, rfc3162_defs, rfc5176_defs, rfc6929_defs]"
    for d es
    by (rule register_loop_fold) (use that standard_names in \<open>auto simp: standard_attributes_def\<close>)
  show ?thesis
    by (simp add: registerStandardAttributes_def registerRFC2865_def registerRFC2866_def
        registerRFC2868_def registerRFC2869_def registerRFC3162_def registerRFC5176_def
        registerRFC6929_def and_then_def standard_attributes_def f)
qed

text \<open>
  C39: Package initialisation never panics and leaves exactly the 88 attributes of the seven
  RFC tables: no table displaces an entry of another. After it the two indexes agree.
\<close>

theorem default_dictionary:
  "\<exists>d. defaultDict = Inr d \<and> dict_inv d \<and> dict_entries d = set standard_attributes \<and> dict_Size d = 88
     \<and> (dict_Lookup d t = Some e \<longleftrightarrow> e \<in> set standard_attributes \<and> adType e = t)
     \<and> (dict_LookupName d n = Some e \<longleftrightarrow> e \<in> set standard_attributes \<and> adName e = n)"
proof -
  let ?d = "foldl dict_store NewDictionary standard_attributes"
  have i: "dict_inv ?d" by (rule dict.inv_stores [OF dict.inv_empty])
  have e: "dict_entries ?d = set standard_attributes"
    using dict_entries_stores [OF dict.inv_empty standard_distinct(1,2)] by (simp add: dict_entries_empty)
  have "card (set standard_attributes) = 88"
    using standard_distinct(1,3) by (metis distinct_card distinct_map)
  with i e have "dict_Size ?d = 88" by (simp add: dict_Size_entries)
  with i e show ?thesis
    by (simp add: defaultDict_def registerStandardAttributes_fold dict_lookup_iff)
qed

section \<open>Loading parsed files\<close>

text \<open>The definition a parsed attribute becomes; the vendor it was declared for plays no part.\<close>

definition def_of :: "dict_attr \<Rightarrow> attribute_def" where
  "def_of a = attr_def (daType a) (daName a)
     (case mapValueType (daValueType a) of Inr vt \<Rightarrow> vt | Inl _ \<Rightarrow> TypeRaw) (daEncrypt a) (daHasTag a)"

lemma mapValueType_names: "s \<in> set value_type_names \<Longrightarrow> \<exists>vt. mapValueType s = Inr vt"
  by (auto simp: value_type_names_def mapValueType_def)

text \<open>The strings the parser produces are those of the value types, and are read back.\<close>

lemma mapValueType_String:
  "\<forall>vt. mapValueType (ValueType_String vt) = Inr vt"
  "set value_type_names = range ValueType_String"
proof -
  have "list_all (\<lambda>vt. mapValueType (ValueType_String vt) = Inr vt) (Enum.enum :: value_type list)"
    by code_simp
  then show "\<forall>vt. mapValueType (ValueType_String vt) = Inr vt"
    by (simp add: list_all_iff enum_UNIV)
  have "map ValueType_String (Enum.enum :: value_type list) = value_type_names" by code_simp
  then show "set value_type_names = range ValueType_String" by (metis enum_UNIV set_map)
qed

lemma register_dict_fold:
  "list_all (\<lambda>a. daName a \<noteq> [] \<and> daValueType a \<in> set value_type_names) as \<Longrightarrow>
   register_dict_loop d as = (foldl dict_store d (map def_of as), Inr ())"
proof (induction as arbitrary: d)
  case (Cons a as)
  then obtain vt where "mapValueType (daValueType a) = Inr vt" using mapValueType_names by auto
  with Cons show ?case by (simp add: dict_Register_def def_of_def attr_def_def)
qed simp

text \<open>The entry is in the list and no later one has its number or its name.\<close>

definition not_displaced :: "attribute_def \<Rightarrow> attribute_def list \<Rightarrow> bool" where
  "not_displaced e es \<longleftrightarrow> (\<forall>x \<in> set es. adType x \<noteq> adType e \<and> adName x \<noteq> adName e)"

definition remains :: "attribute_def \<Rightarrow> attribute_def list \<Rightarrow> bool" where
  "remains e es \<longleftrightarrow> (\<exists>pre post. es = pre @ e # post \<and> not_displaced e post)"

text \<open>
  C38: Whatever dictionary files \<open>ParseFiles\<close> reads, all their attributes can be registered:
  loading them never fails and keeps the two indexes in step. It says of every lookup what it
  yields afterwards: an attribute of the files is found by its number and by its name exactly when
  no later attribute of the files has the same number or the same name; an entry that was there
  before is still found exactly when no attribute of the files has its number or its name; and
  nothing else is found. The vendor of an attribute is not looked at: loading a file is the same
  as loading it with every attribute outside its vendor block.
\<close>

theorem load_dictionary:
  assumes "ParseFiles fs cwd paths = Some (Inr f)" "dict_inv d"
  shows "\<exists>d'. RegisterFromDict d (Some f) = (d', Inr ()) \<and> dict_inv d'
      \<and> (\<forall>t e. dict_Lookup d' t = Some e \<longleftrightarrow> (adType e = t \<and> remains e (map def_of (dfAttributes f)))
          \<or> (dict_Lookup d t = Some e \<and> not_displaced e (map def_of (dfAttributes f))))
      \<and> (\<forall>n e. dict_LookupName d' n = Some e \<longleftrightarrow> (adName e = n \<and> remains e (map def_of (dfAttributes f)))
          \<or> (dict_LookupName d n = Some e \<and> not_displaced e (map def_of (dfAttributes f))))
      \<and> RegisterFromDict d (Some (f\<lparr>dfAttributes := map (\<lambda>a. a\<lparr>daVendor := []\<rparr>) (dfAttributes f)\<rparr>))
          = (d', Inr ())"
proof -
  let ?d = "foldl dict_store d (map def_of (dfAttributes f))"
  have ok: "file_ok f" using assms(1) by (rule ParseFiles_ok)
  then have r: "RegisterFromDict d (Some f) = (?d, Inr ())"
    by (simp add: RegisterFromDict_def register_dict_fold file_ok_def)
  have "def_of \<circ> (\<lambda>a. a\<lparr>daVendor := []\<rparr>) = def_of" by (rule ext) (simp add: def_of_def)
  with ok have v: "RegisterFromDict d (Some (f\<lparr>dfAttributes := map (\<lambda>a. a\<lparr>daVendor := []\<rparr>) (dfAttributes f)\<rparr>))
      = (?d, Inr ())"
    by (simp add: RegisterFromDict_def register_dict_fold file_ok_def list_all_iff)
  have "dict_inv ?d" using assms(2) by (rule dict.inv_stores)
  moreover note dict.lookup_foldl [OF assms(2), of "map def_of (dfAttributes f)"]
  ultimately show ?thesis
    unfolding remains_def not_displaced_def dict.clear_of_def [symmetric] using r v by (intro exI [of _ ?d]) simp
qed

text \<open>
  The sample file declares number 1 inside a vendor block. Loaded into a dictionary that knows
  User-Name by that number, it takes the number over.
\<close>

theorem load_dictionary_witness:
  "\<exists>d'. RegisterFromDict (dict_store NewDictionary (attr_def 1 ''User-Name'' TypeString 0 False))
        (Some sample_dict) = (d', Inr ())
      \<and> dict_Lookup d' 1 = Some (attr_def 1 ''Cisco-AVPair'' TypeString 0 True)
      \<and> dict_Lookup d' 2 = Some (attr_def 2 ''User-Password'' TypeString 1 False)
      \<and> dict_LookupName d' ''User-Name'' = None"
proof -
  let ?fs = "[([''d''], print_dict sample_dict)]" and ?d = "dict_store NewDictionary (attr_def 1 ''User-Name'' TypeString 0 False)"
  let ?es = "[attr_def 2 ''User-Password'' TypeString 1 False, attr_def 1 ''Cisco-AVPair'' TypeString 0 True]"
  have r: "resolve_path [] ''/d'' = [''d'']" by code_simp
  have "parseFile ?fs [] [''d''] = Some (Inr sample_dict)"
    by (simp add: parseFile.simps parse_reader_print [OF printable_sample])
  then have f: "ParseFiles ?fs None [''/d''] = Some (Inr (append_file empty_file sample_dict))"
    by (simp add: ParseFiles_def ParseFile_def r)
  have s: "append_file empty_file sample_dict = sample_dict" by (simp add: append_file_def empty_file_def)
  have m: "map def_of (dfAttributes sample_dict) = ?es" by (simp add: sample_dict_def def_of_def mapValueType_def)
  from load_dictionary [OF f dict_inv_store [OF dict.inv_empty], unfolded s m] obtain d' where
    d': "RegisterFromDict ?d (Some sample_dict) = (d', Inr ())"
    and t: "\<And>t e. dict_Lookup d' t = Some e \<longleftrightarrow> (adType e = t \<and> remains e ?es) \<or> (dict_Lookup ?d t = Some e \<and> not_displaced e ?es)"
    and n: "\<And>n e. dict_LookupName d' n = Some e \<longleftrightarrow> (adName e = n \<and> remains e ?es) \<or> (dict_LookupName ?d n = Some e \<and> not_displaced e ?es)"
    by blast
  have k: "remains (?es ! 0) ?es" "remains (?es ! 1) ?es"
    unfolding remains_def
    by (rule exI [of _ "[]"], rule exI [of _ "[?es ! 1]"], simp add: not_displaced_def attr_def_def)
      (rule exI [of _ "[?es ! 0]"], rule exI [of _ "[]"], simp add: not_displaced_def attr_def_def)
  have "dict_Lookup d' 1 = Some (?es ! 1)" "dict_Lookup d' 2 = Some (?es ! 0)"
    unfolding t using k by (simp_all add: attr_def_def)
  moreover have "dict_LookupName d' ''User-Name'' \<noteq> Some e" for e
  proof
    assume "dict_LookupName d' ''User-Name'' = Some e"
    moreover have "adName e \<noteq> ''User-Name''" if "remains e ?es"
      using that by (auto simp: remains_def attr_def_def Cons_eq_append_conv)
    moreover have "adType e = 1" if "dict_LookupName ?d ''User-Name'' = Some e"
      using that stored_self(2) [of NewDictionary "attr_def 1 ''User-Name'' TypeString 0 False"]
      by (auto simp: attr_def_def)
    ultimately show False unfolding n by (auto simp: not_displaced_def attr_def_def)
  qed
  ultimately show ?thesis using d' by (auto intro!: exI [of _ d'])
qed

end
