(* ===== verification/DictHelper.thy ===== *)
theory DictHelper
  imports Dictionary_Props Packet_Props
begin

text \<open>
  \<open>packet/dict_helper.go\<close>: attributes built and read by their dictionary name. A Go \<open>any\<close>
  argument is the datatype \<open>go_any\<close> of the dynamic types the type switches distinguish
  (\<open>AnyStringer\<close> carries what its \<open>String\<close> method returns; \<open>net.IP\<close> is a \<open>Stringer\<close>
  but not a \<open>[]byte\<close>); the typed result of \<open>Decode\<close> is the datatype \<open>decoded\<close>.
  A dictionary pointer is non-nil here, as every method of \<open>Dictionary\<close> requires.
\<close>

datatype go_any =
    AnyString string
  | AnyBytes bytes
  | AnyStringer string
  | AnyUint32 "32 word"
  | AnyUint "64 word"
  | AnyInt "64 word"
  | AnyIP bytes
  | AnyOther

datatype decoded =
    DString bytes
  | DBytes bytes
  | DInteger "32 word"
  | DIP bytes
  | VSAValue "32 word" bytes

section \<open>Conversions\<close>

fun toStringBytes :: "go_any \<Rightarrow> bytes res" where
  "toStringBytes (AnyString s) = Inr (string_bytes s)"
| "toStringBytes (AnyBytes b) = Inr b"
| "toStringBytes (AnyStringer s) = Inr (string_bytes s)"
| "toStringBytes (AnyIP ip) = Inr (string_bytes (IP_String ip))"
| "toStringBytes _ = Inl (ErrOther ''value is not a string or []byte'')"

fun toUint32 :: "go_any \<Rightarrow> 32 word res" where
  "toUint32 (AnyUint32 v) = Inr v"
| "toUint32 (AnyUint v) =
    (if uint v > 2 ^ 32 - 1 then Inl (ErrOther ''value overflows uint32'') else Inr (ucast v))"
| "toUint32 (AnyInt v) =
    (if sint v < 0 \<or> sint v > 2 ^ 32 - 1 then Inl (ErrOther ''value out of uint32 range'')
     else Inr (ucast v))"
| "toUint32 (AnyString s) =
    (case ParseUint10 s 32 of None \<Rightarrow> Inl (ErrOther ''invalid integer'') | Some n \<Rightarrow> Inr (word_of_nat n))"
| "toUint32 _ = Inl (ErrOther ''value is not an integer'')"

fun any_parseIP :: "go_any \<Rightarrow> bytes res" where
  "any_parseIP (AnyIP ip) = Inr ip"
| "any_parseIP (AnyString s) =
    (case ParseIP s of None \<Rightarrow> Inl (ErrOther ''invalid IP'') | Some ip \<Rightarrow> Inr ip)"
| "any_parseIP _ = Inl (ErrOther ''value is not an IP address'')"

definition toIPv4 :: "go_any \<Rightarrow> bytes res" where
  "toIPv4 v = (case any_parseIP v of Inl e \<Rightarrow> Inl e
     | Inr ip \<Rightarrow> (case IP_To4 ip of Some v4 \<Rightarrow> Inr v4
         | None \<Rightarrow> Inl (ErrOther ''value is not an IPv4 address'')))"

definition toIPv6 :: "go_any \<Rightarrow> bytes res" where
  "toIPv6 v = (case any_parseIP v of Inl e \<Rightarrow> Inl e
     | Inr ip \<Rightarrow> (case IP_To16 ip of Some v6 \<Rightarrow> Inr v6
         | None \<Rightarrow> Inl (ErrOther ''value is not an IPv6 address'')))"

section \<open>By name\<close>

definition encode_as :: "attribute_def \<Rightarrow> go_any \<Rightarrow> attribute res" where
  "encode_as def v =
    (case adValueType def of
       TypeInteger \<Rightarrow> (case toUint32 v of Inl e \<Rightarrow> Inl e | Inr n \<Rightarrow> Inr (NewInteger (adType def) n))
     | TypeIPAddr \<Rightarrow> (case toIPv4 v of Inl e \<Rightarrow> Inl e | Inr ip \<Rightarrow> Inr (NewIPAddr (adType def) ip))
     | TypeIPv6Addr \<Rightarrow> (case toIPv6 v of Inl e \<Rightarrow> Inl e | Inr ip \<Rightarrow> Inr (NewIPv6Addr (adType def) ip))
     | TypeVSA \<Rightarrow> Inl ErrUnsupportedValueType
     | TypeExtended \<Rightarrow> Inl ErrUnsupportedValueType
     | _ \<Rightarrow> (case toStringBytes v of Inl e \<Rightarrow> Inl e
           | Inr b \<Rightarrow> Inr \<lparr>aType = adType def, aValue = b\<rparr>))"

definition NewByName :: "dictionary \<Rightarrow> string \<Rightarrow> go_any \<Rightarrow> attribute res" where
  "NewByName d name v =
    (case dict_LookupName d name of None \<Rightarrow> Inl ErrUnknownAttribute | Some def \<Rightarrow> encode_as def v)"

definition MustNewByName :: "dictionary \<Rightarrow> string \<Rightarrow> go_any \<Rightarrow> attribute res" where
  "MustNewByName d name v = (case NewByName d name v of Inl e \<Rightarrow> Inl GoPanic | Inr a \<Rightarrow> Inr a)"

definition GetByName :: "packet \<Rightarrow> dictionary \<Rightarrow> string \<Rightarrow> attribute list" where
  "GetByName p d name =
    (case dict_LookupName d name of None \<Rightarrow> [] | Some def \<Rightarrow> packet_Get (adType def) p)"

definition GetOneByName :: "packet \<Rightarrow> dictionary \<Rightarrow> string \<Rightarrow> attribute option" where
  "GetOneByName p d name =
    (case dict_LookupName d name of None \<Rightarrow> None | Some def \<Rightarrow> packet_GetOne (adType def) p)"

section \<open>By type\<close>

definition attr_Decode :: "attribute \<Rightarrow> dictionary \<Rightarrow> decoded res" where
  "attr_Decode a d =
    (case dict_Lookup d (aType a) of None \<Rightarrow> Inl ErrUnknownAttribute
     | Some def \<Rightarrow> (case adValueType def of
         TypeString \<Rightarrow> Inr (DString (aValue a))
       | TypeOctets \<Rightarrow> Inr (DBytes (aValue a))
       | TypeRaw \<Rightarrow> Inr (DBytes (aValue a))
       | TypeInteger \<Rightarrow> map_sum id DInteger (attr_Integer a)
       | TypeIPAddr \<Rightarrow> map_sum id DIP (attr_IPAddr a)
       | TypeIPv6Addr \<Rightarrow> map_sum id DIP (attr_IPv6Addr a)
       | TypeVSA \<Rightarrow> map_sum id (\<lambda>(vid, data). VSAValue vid data) (attr_VendorSpecific a)
       | TypeExtended \<Rightarrow> Inl ErrUnsupportedValueType))"

definition DecodeString :: "attribute \<Rightarrow> dictionary \<Rightarrow> bytes res" where
  "DecodeString a d =
    (case dict_Lookup d (aType a) of None \<Rightarrow> Inl ErrUnknownAttribute
     | Some def \<Rightarrow> if adValueType def \<noteq> TypeString then Inl ErrInvalidAttribute else Inr (aValue a))"

definition DecodeInteger :: "attribute \<Rightarrow> dictionary \<Rightarrow> 32 word res" where
  "DecodeInteger a d =
    (case dict_Lookup d (aType a) of None \<Rightarrow> Inl ErrUnknownAttribute
     | Some def \<Rightarrow> if adValueType def \<noteq> TypeInteger then Inl ErrInvalidAttribute else attr_Integer a)"

section \<open>Building and decoding agree\<close>

text \<open>The value a caller's argument stands for under a value type, or the error.\<close>

definition any_value :: "value_type \<Rightarrow> go_any \<Rightarrow> decoded res" where
  "any_value vt v = (case vt of
       TypeString \<Rightarrow> map_sum id DString (toStringBytes v)
     | TypeOctets \<Rightarrow> map_sum id DBytes (toStringBytes v)
     | TypeRaw \<Rightarrow> map_sum id DBytes (toStringBytes v)
     | TypeInteger \<Rightarrow> map_sum id DInteger (toUint32 v)
     | TypeIPAddr \<Rightarrow> map_sum id DIP (toIPv4 v)
     | TypeIPv6Addr \<Rightarrow> map_sum id DIP (toIPv6 v)
     | _ \<Rightarrow> Inl ErrUnsupportedValueType)"

lemma toIPv4_length: "toIPv4 v = Inr ip \<Longrightarrow> length ip = 4"
  by (auto simp: toIPv4_def IP_To4_def split: sum.splits option.splits if_splits)

lemma toIPv6_length: "toIPv6 v = Inr ip \<Longrightarrow> length ip = 16"
  by (auto simp: toIPv6_def IP_To16_def v4InV6Prefix_def split: sum.splits option.splits if_splits)

lemma encode_as_iff:
  "encode_as def v = Inl e \<longleftrightarrow> any_value (adValueType def) v = Inl e"
  by (cases "adValueType def") (auto simp: encode_as_def any_value_def split: sum.split)

lemma encode_as_decode:
  assumes "encode_as def v = Inr a" "dict_Lookup d (adType def) = Some def"
  shows "aType a = adType def \<and> attr_Decode a d = any_value (adValueType def) v"
  using assms toIPv4_length [of v] toIPv6_length [of v]
  by (cases "adValueType def")
     (auto simp: encode_as_def any_value_def attr_Decode_def NewInteger_def attr_Integer_def
       NewIPAddr_def attr_IPAddr_def IP_To4_def NewIPv6Addr_def attr_IPv6Addr_def IP_To16_def
       split: sum.splits)

text \<open>
  C28: An attribute built by name carries the number the dictionary has for that name, decodes
  in the same dictionary to the value the argument stands for, and is the last of that name
  once it is added to a packet. It is refused exactly when the name is unknown, its value type
  has no codec, or the argument does not convert.
\<close>

theorem newbyname_decode:
  assumes "dict_inv d"
  shows "case NewByName d name v of
      Inl e \<Rightarrow> (case dict_LookupName d name of None \<Rightarrow> e = ErrUnknownAttribute
                | Some def \<Rightarrow> any_value (adValueType def) v = Inl e)
    | Inr a \<Rightarrow> (\<exists>def. dict_LookupName d name = Some def \<and> aType a = adType def
          \<and> attr_Decode a d = any_value (adValueType def) v
          \<and> (\<exists>x. attr_Decode a d = Inr x)
          \<and> GetByName (packet_Add a p) d name = GetByName p d name @ [a])"
proof (cases "dict_LookupName d name")
  case (Some def)
  then have l: "dict_Lookup d (adType def) = Some def" using dict_invD(2) [OF assms] by blast
  show ?thesis
  proof (cases "encode_as def v")
    case (Inl e)
    then have "any_value (adValueType def) v = Inl e" by (simp add: encode_as_iff)
    with Some Inl show ?thesis by (simp add: NewByName_def)
  next
    case (Inr a)
    from encode_as_decode [OF Inr l] have a: "aType a = adType def"
      "attr_Decode a d = any_value (adValueType def) v" by auto
    moreover obtain x where "any_value (adValueType def) v = Inr x"
      using Inr encode_as_iff [of def v] by (cases "any_value (adValueType def) v") auto
    moreover have "packet_Get (aType a) (packet_Add a p) = packet_Get (aType a) p @ [a]"
      by (simp add: packet_Get_def packet_Add_def get_all_filter)
    ultimately show ?thesis using Some Inr by (simp add: NewByName_def GetByName_def)
  qed
qed (simp add: NewByName_def)

theorem newbyname_decode_witness:
  "\<exists>a. NewByName (dict_store NewDictionary (attr_def 6 ''Service-Type'' TypeInteger 0 False))
        ''Service-Type'' (AnyString ''12'') = Inr a
     \<and> attr_Decode a (dict_store NewDictionary (attr_def 6 ''Service-Type'' TypeInteger 0 False))
        = Inr (DInteger 12)"
proof -
  let ?d = "dict_store NewDictionary (attr_def 6 ''Service-Type'' TypeInteger 0 False)"
  have l: "dict_LookupName ?d ''Service-Type'' = Some (attr_def 6 ''Service-Type'' TypeInteger 0 False)"
    using stored_self(2) [of NewDictionary "attr_def 6 ''Service-Type'' TypeInteger 0 False"]
    by (simp add: attr_def_def)
  have "toUint32 (AnyString ''12'') = Inr 12" by code_simp
  with l newbyname_decode [where d = ?d, OF dict_inv_store [OF dict.inv_empty], where name = "''Service-Type''" and v = "AnyString ''12''"]
  show ?thesis by (auto simp: NewByName_def encode_as_def any_value_def attr_def_def split: sum.splits)
qed

end
