(* ===== verification/Format.thy ===== *)
theory Format
  imports DictHelper
begin

text \<open>
  \<open>packet/format.go\<close>: the readable rendering of packets for logs. A nil packet and a nil
  dictionary are \<open>None\<close>. \<open>strconv.Quote\<close> is written out; which runes above U+00FF count as
  printable comes from Go's Unicode tables and is the parameter \<open>uni\<close>.
\<close>

section \<open>Quoted strings\<close>

definition IsPrint :: "(nat \<Rightarrow> bool) \<Rightarrow> nat \<Rightarrow> bool" where
  "IsPrint uni r =
    (if r \<le> 255 then (32 \<le> r \<and> r < 127) \<or> (161 \<le> r \<and> r \<noteq> 173) else uni r)"

text \<open>The lower-case hexadecimal digits of a number, most significant first, \<open>k\<close> of them.\<close>

fun hex_fixed :: "nat \<Rightarrow> nat \<Rightarrow> string" where
  "hex_fixed 0 n = []"
| "hex_fixed (Suc k) n = hex_fixed k (n div 16) @ [digit_char (n mod 16)]"

definition escaped_rune :: "(nat \<Rightarrow> bool) \<Rightarrow> nat \<Rightarrow> string" where
  "escaped_rune uni r =
    (if r = 34 \<or> r = 92 then [CHR 0x5C, char_of r]
     else if IsPrint uni r then string_of_runes [r]
     else if r = 7 then [CHR 0x5C, CHR ''a'']
     else if r = 8 then [CHR 0x5C, CHR ''b'']
     else if r = 12 then [CHR 0x5C, CHR ''f'']
     else if r = 10 then [CHR 0x5C, CHR ''n'']
     else if r = 13 then [CHR 0x5C, CHR ''r'']
     else if r = 9 then [CHR 0x5C, CHR ''t'']
     else if r = 11 then [CHR 0x5C, CHR ''v'']
     else if r < 32 \<or> r = 127 then [CHR 0x5C, CHR ''x''] @ hex_fixed 2 r
     else if r < 65536 then [CHR 0x5C, CHR ''u''] @ hex_fixed 4 r
     else [CHR 0x5C, CHR ''U''] @ hex_fixed 8 r)"

function quote_loop :: "(nat \<Rightarrow> bool) \<Rightarrow> string \<Rightarrow> string" where
  "quote_loop uni s =
    (if s = [] then []
     else let (r, w) = rune_at s in
       (if r = RuneError \<and> w = 1 then [CHR 0x5C, CHR ''x''] @ hex_fixed 2 (ord (hd s))
        else escaped_rune uni r) @ quote_loop uni (drop w s))"
  by pat_completeness auto
termination by (relation "measure (\<lambda>(_, s). length s)") (use rune_drop_shorter in auto)

declare quote_loop.simps [simp del]

definition strconv_Quote :: "(nat \<Rightarrow> bool) \<Rightarrow> string \<Rightarrow> string" where
  "strconv_Quote uni s = [CHR 0x22] @ quote_loop uni s @ [CHR 0x22]"

definition hex_EncodeToString :: "bytes \<Rightarrow> string" where
  "hex_EncodeToString b = concat (map hex_byte b)"

section \<open>Rendering\<close>

definition isLikelyIPv4 :: "byte \<Rightarrow> bool" where
  "isLikelyIPv4 t \<longleftrightarrow>
    t \<in> set [AttrNASIPAddress, AttrFramedIPAddress, AttrFramedIPNetmask, AttrLoginIPHost]"

text \<open>The loop of \<open>sumAttrLen\<close>: a value that cannot be marshalled makes the total -1.\<close>

fun sum_attr_loop :: "int \<Rightarrow> attribute list \<Rightarrow> int" where
  "sum_attr_loop n [] = n"
| "sum_attr_loop n (a # as) =
    (if length (aValue a) > AttrValueMaxLength then - 1
     else sum_attr_loop (n + 2 + int (length (aValue a))) as)"

definition sumAttrLen :: "attribute list \<Rightarrow> int" where
  "sumAttrLen attrs = sum_attr_loop 0 attrs"

text \<open>Without a hint of the dictionary, or when the value does not decode as declared.\<close>

definition guess_value :: "attribute \<Rightarrow> string" where
  "guess_value a =
    (if length (aValue a) = 4
     then (if isLikelyIPv4 (aType a) then IP_String (aValue a)
           else dec_digits (unat (BE_Uint32 (aValue a))))
     else ''hex:'' @ hex_EncodeToString (aValue a))"

definition format_as :: "(nat \<Rightarrow> bool) \<Rightarrow> attribute \<Rightarrow> value_type \<Rightarrow> string" where
  "format_as uni a vt = (case vt of
       TypeString \<Rightarrow> strconv_Quote uni (bytes_string (aValue a))
     | TypeInteger \<Rightarrow> (case attr_Integer a of Inr n \<Rightarrow> dec_digits (unat n) | Inl _ \<Rightarrow> guess_value a)
     | TypeIPAddr \<Rightarrow> (case attr_IPAddr a of Inr ip \<Rightarrow> IP_String ip | Inl _ \<Rightarrow> guess_value a)
     | TypeIPv6Addr \<Rightarrow> (case attr_IPv6Addr a of Inr ip \<Rightarrow> IP_String ip | Inl _ \<Rightarrow> guess_value a)
     | TypeVSA \<Rightarrow> (case attr_VendorSpecific a of
           Inr (vid, data) \<Rightarrow> ''vendor='' @ dec_digits (unat vid) @ '' data='' @ hex_EncodeToString data
         | Inl _ \<Rightarrow> guess_value a)
     | TypeOctets \<Rightarrow> ''hex:'' @ hex_EncodeToString (aValue a)
     | _ \<Rightarrow> guess_value a)"

definition formatAttrValue :: "(nat \<Rightarrow> bool) \<Rightarrow> attribute \<Rightarrow> dictionary option \<Rightarrow> string" where
  "formatAttrValue uni a dict =
    (if aType a = AttrUserPassword then ''<encrypted>''
     else case dict of None \<Rightarrow> guess_value a
       | Some d \<Rightarrow> (case dict_Lookup d (aType a) of None \<Rightarrow> guess_value a
           | Some def \<Rightarrow> format_as uni a (adValueType def)))"

definition FormatAttribute :: "(nat \<Rightarrow> bool) \<Rightarrow> attribute \<Rightarrow> dictionary option \<Rightarrow> string" where
  "FormatAttribute uni a dict =
    (let name = (case dict of None \<Rightarrow> ''<unknown>''
           | Some d \<Rightarrow> (case dict_Lookup d (aType a) of None \<Rightarrow> ''<unknown>'' | Some def \<Rightarrow> adName def))
     in name @ '' ('' @ dec_digits (unat (aType a)) @ '') = '' @ formatAttrValue uni a dict)"

fun format_loop :: "(nat \<Rightarrow> bool) \<Rightarrow> attribute list \<Rightarrow> dictionary option \<Rightarrow> string" where
  "format_loop uni [] dict = []"
| "format_loop uni (a # as) dict = [CHR 0x0A] @ ''  '' @ FormatAttribute uni a dict @ format_loop uni as dict"

definition Format_packet :: "(nat \<Rightarrow> bool) \<Rightarrow> packet option \<Rightarrow> dictionary option \<Rightarrow> string" where
  "Format_packet uni packet dict =
    (case packet of None \<Rightarrow> ''<nil packet>''
     | Some p \<Rightarrow>
        ''Code: '' @ Code_String (pCode p) @ '' ('' @ dec_digits (unat (pCode p)) @ ''), ID: '' @
        dec_digits (unat (pIdentifier p)) @ '', Length: '' @
        itoa (int PacketMinLength + sumAttrLen (pAttributes p)) @ [CHR 0x0A] @
        ''Authenticator: '' @ hex_EncodeToString (pAuthenticator p) @
        (if pAttributes p = [] then []
         else [CHR 0x0A] @ ''Attributes:'' @ format_loop uni (pAttributes p) dict))"

lemma Format_vectors:
  "FormatAttribute (\<lambda>_. False) \<lparr>aType = 4, aValue = [10, 0, 0, 1]\<rparr> None = ''<unknown> (4) = 10.0.0.1''"
  "FormatAttribute (\<lambda>_. False) \<lparr>aType = 5, aValue = [0, 0, 1, 0]\<rparr> None = ''<unknown> (5) = 256''"
  by (code_simp, code_simp)

lemma char_of_vectors: "char_of (97 :: nat) = CHR ''a''" "char_of (34 :: nat) = CHR 0x22"
  by code_simp+

lemma Quote_vectors:
  "strconv_Quote (\<lambda>_. False) [CHR ''a''] = [CHR 0x22, CHR ''a'', CHR 0x22]"
  "strconv_Quote (\<lambda>_. False) [CHR 0x09, CHR 0x22]
     = [CHR 0x22, CHR 0x5C, CHR ''t'', CHR 0x5C, CHR 0x22, CHR 0x22]"
  by (simp_all add: strconv_Quote_def quote_loop.simps rune_at_ascii RuneError_def escaped_rune_def
      IsPrint_def string_of_runes_def EncodeRune_def char_of_vectors)

section \<open>Passwords stay out of the text\<close>

text \<open>Two attribute lists that differ only in what their User-Password attributes hold.\<close>

definition same_but_password :: "attribute \<Rightarrow> attribute \<Rightarrow> bool" where
  "same_but_password a b \<longleftrightarrow>
     aType a = aType b \<and> length (aValue a) = length (aValue b) \<and> (aType a \<noteq> AttrUserPassword \<longrightarrow> a = b)"

lemma sum_attr_loop_same:
  "list_all2 same_but_password as bs \<Longrightarrow> sum_attr_loop n as = sum_attr_loop n bs"
  by (induction arbitrary: n rule: list_all2_induct) (simp_all add: same_but_password_def)

lemma FormatAttribute_same:
  assumes "same_but_password a b"
  shows "FormatAttribute uni a dict = FormatAttribute uni b dict"
proof -
  have t: "aType a = aType b" using assms by (simp add: same_but_password_def)
  have "formatAttrValue uni a dict = formatAttrValue uni b dict"
    using assms by (cases "aType a = AttrUserPassword") (auto simp: same_but_password_def formatAttrValue_def)
  then show ?thesis unfolding FormatAttribute_def t by simp
qed

lemma format_loop_same: "list_all2 same_but_password as bs \<Longrightarrow> format_loop uni as dict = format_loop uni bs dict"
  by (induction rule: list_all2_induct) (simp_all add: FormatAttribute_same)

lemma sum_attr_fits: "list_all attr_fits as \<Longrightarrow> sum_attr_loop n as = n + int (length (concat (map attr_wire as)))"
  by (induction as arbitrary: n) (simp_all add: attr_fits_def limit_num)

lemma sum_attr_long: "\<not> list_all attr_fits as \<Longrightarrow> sum_attr_loop n as = - 1"
  by (induction as arbitrary: n) (auto simp: attr_fits_def limit_num)

text \<open>
  C31: The rendering of a packet does not depend on what its User-Password attributes hold,
  only on how long they are, whatever the dictionary says about their type. The Length it
  prints is that of the marshalled packet when every value fits its attribute, and 19 as soon
  as one does not.
\<close>

theorem format_hides_password:
  assumes "list_all2 same_but_password (pAttributes p) bs"
  shows "Format_packet uni (Some p) dict = Format_packet uni (Some (p\<lparr>pAttributes := bs\<rparr>)) dict
    \<and> int PacketMinLength + sumAttrLen (pAttributes p)
        = (if list_all attr_fits (pAttributes p)
           then 20 + int (length (concat (map attr_wire (pAttributes p)))) else 19)"
proof
  have "pAttributes p = [] \<longleftrightarrow> bs = []" using assms by auto
  with assms show "Format_packet uni (Some p) dict = Format_packet uni (Some (p\<lparr>pAttributes := bs\<rparr>)) dict"
    by (simp add: Format_packet_def sumAttrLen_def sum_attr_loop_same [OF assms] format_loop_same [OF assms])
  show "int PacketMinLength + sumAttrLen (pAttributes p)
        = (if list_all attr_fits (pAttributes p)
           then 20 + int (length (concat (map attr_wire (pAttributes p)))) else 19)"
    by (simp add: sumAttrLen_def sum_attr_fits sum_attr_long limit_num)
qed

theorem format_hides_password_witness:
  "Format_packet (\<lambda>_. False) (Some (empty_packet\<lparr>pAttributes := [\<lparr>aType = 2, aValue = [1, 2]\<rparr>]\<rparr>)) None
   = Format_packet (\<lambda>_. False) (Some (empty_packet\<lparr>pAttributes := [\<lparr>aType = 2, aValue = [3, 4]\<rparr>]\<rparr>)) None"
  using format_hides_password [of "empty_packet\<lparr>pAttributes := [\<lparr>aType = 2, aValue = [1, 2]\<rparr>]\<rparr>"
      "[\<lparr>aType = 2, aValue = [3, 4]\<rparr>]" "\<lambda>_. False" None]
  by (simp add: same_but_password_def attr_num)

end
