(* ===== verification/Vsa.thy ===== *)
theory Vsa
  imports Attribute
begin

text \<open>
  \<open>vendors/vendors.go\<close>: the payload format of vendor-specific attributes, Vendor-Type,
  Vendor-Length and value behind the four octets of the Vendor-Id. The interface
  \<open>vendor_package\<close> is what a package of one vendor promises: what its generic constructor
  builds, its decoder reads back, and it recognises no attribute of another vendor.
\<close>

definition NewVSA :: "32 word \<Rightarrow> byte \<Rightarrow> bytes \<Rightarrow> attribute" where
  "NewVSA vendorID vendorType value =
    (let value = (if length value > 253 then take 253 value else value) in
     NewVendorSpecific vendorID ([vendorType, word_of_nat (2 + length value)] @ value))"

text \<open>The four results of \<open>DecodeVSA\<close>; on an error those read before it are kept.\<close>

definition DecodeVSA :: "attribute \<Rightarrow> 32 word \<times> byte \<times> bytes \<times> gerror option" where
  "DecodeVSA attr =
    (case attr_VendorSpecific attr of Inl e \<Rightarrow> (0, 0, [], Some e)
     | Inr (rawVendorID, payload) \<Rightarrow>
         if length payload < 2 then (rawVendorID, 0, [], Some ErrInvalidAttribute)
         else let vendorType = payload ! 0; declaredLen = unat (payload ! 1) in
           if declaredLen < 2 then (rawVendorID, vendorType, [], Some ErrInvalidAttribute)
           else let wantValueLen = declaredLen - 2 in
             if length payload - 2 < wantValueLen
             then (rawVendorID, vendorType, [], Some ErrInvalidAttribute)
             else (rawVendorID, vendorType, slice 2 (2 + wantValueLen) payload, None))"

definition MatchVSA :: "attribute \<Rightarrow> 32 word \<Rightarrow> (byte \<times> bytes) option" where
  "MatchVSA attr vendorID =
    (case DecodeVSA attr of (vid, vt, val, err) \<Rightarrow>
       if err \<noteq> None then None else if vid \<noteq> vendorID then None else Some (vt, val))"

section \<open>The format\<close>

definition vsa_payload :: "byte \<Rightarrow> bytes \<Rightarrow> bytes" where
  "vsa_payload vt value = [vt, word_of_nat (2 + length value)] @ value"

lemma NewVSA_payload: "NewVSA vid vt value = NewVendorSpecific vid (vsa_payload vt (take 253 value))"
  by (simp add: NewVSA_def vsa_payload_def)

lemma attr_VendorSpecific_New:
  "payload \<noteq> [] \<Longrightarrow> attr_VendorSpecific \<lparr>aType = t, aValue = BE_PutUint32 vid @ payload\<rparr> = Inr (vid, payload)"
  by (cases payload) (simp_all add: attr_VendorSpecific_def)

lemma DecodeVSA_shape:
  assumes "unat l = 2 + length value"
  shows "DecodeVSA \<lparr>aType = t, aValue = BE_PutUint32 vid @ vt # l # value @ trail\<rparr> = (vid, vt, value, None)"
proof -
  have "attr_VendorSpecific \<lparr>aType = t, aValue = BE_PutUint32 vid @ vt # l # value @ trail\<rparr>
      = Inr (vid, vt # l # value @ trail)"
    by (rule attr_VendorSpecific_New) simp
  then show ?thesis using assms by (simp add: DecodeVSA_def slice_def Let_def)
qed

lemma DecodeVSA_payload:
  assumes "length value \<le> 253"
  shows "DecodeVSA \<lparr>aType = t, aValue = BE_PutUint32 vid @ vsa_payload vt value @ trail\<rparr> = (vid, vt, value, None)"
proof -
  have "unat (word_of_nat (2 + length value) :: byte) = 2 + length value"
    by (rule unat_of_nat8) (use assms in simp)
  from DecodeVSA_shape [OF this] show ?thesis by (simp add: vsa_payload_def)
qed

lemma DecodeVSA_New: "DecodeVSA (NewVSA vid vt value) = (vid, vt, take 253 value, None)"
  using DecodeVSA_payload [of "take 253 value" AttrVendorSpecific vid vt "[]"]
  by (simp add: NewVSA_payload NewVendorSpecific_def)

lemma DecodeVSA_sound:
  assumes "DecodeVSA a = (vid, vt, value, None)"
  shows "length value \<le> 253 \<and> (\<exists>trail. aValue a = BE_PutUint32 vid @ vsa_payload vt value @ trail)"
proof -
  have "5 \<le> length (aValue a)"
    using assms by (rule_tac ccontr) (simp add: DecodeVSA_def attr_VendorSpecific_def)
  define payload where "payload = drop 4 (aValue a)"
  have v: "attr_VendorSpecific a = Inr (BE_Uint32 (take 4 (aValue a)), payload)"
    using \<open>5 \<le> length (aValue a)\<close> by (simp add: attr_VendorSpecific_def payload_def)
  have c: "2 \<le> length payload" "2 \<le> unat (payload ! 1)" "unat (payload ! 1) - 2 \<le> length payload - 2"
    and r: "vid = BE_Uint32 (take 4 (aValue a))" "vt = payload ! 0" "value = slice 2 (2 + (unat (payload ! 1) - 2)) payload"
    using assms by (auto simp: DecodeVSA_def v Let_def split: if_splits)
  obtain l ps where p: "payload = vt # l # ps" using c(1) r(2) by (cases payload; cases "tl payload") auto
  have val: "value = take (unat l - 2) ps" using r(3) by (simp add: p slice_def)
  with c have "2 + length value = unat l" by (simp add: p)
  then have l: "word_of_nat (2 + length value) = l" by (simp only:) simp
  have "length value \<le> 253" using \<open>2 + length value = unat l\<close> unat_byte_less [of l] by linarith
  moreover have "BE_PutUint32 vid = take 4 (aValue a)"
    using \<open>5 \<le> length (aValue a)\<close> by (simp add: r(1) BE_Put_Uint32)
  moreover have "vsa_payload vt value @ drop (unat l - 2) ps = payload"
  proof -
    have "vsa_payload vt value = vt # l # value" by (simp only: vsa_payload_def l) simp
    then show ?thesis by (simp add: val p)
  qed
  then have "aValue a = take 4 (aValue a) @ vsa_payload vt value @ drop (unat l - 2) ps"
    by (simp add: payload_def)
  ultimately show ?thesis by metis
qed

text \<open>
  C30: A vendor-specific attribute decodes to the vendor, the type and the first 253 octets of
  the value it was built from; it can be put on the wire exactly when the value has at most 247
  octets. An attribute decodes only if a payload of the format stands behind the Vendor-Id,
  but octets may follow it, and the attribute's own type is not looked at.
\<close>

theorem vsa_codec:
  "DecodeVSA (NewVSA vid vt value) = (vid, vt, take 253 value, None)
   \<and> MatchVSA (NewVSA vid vt value) vid' = (if vid' = vid then Some (vt, take 253 value) else None)
   \<and> (case MarshalBinary (NewVSA vid vt value) of
        Inl e \<Rightarrow> e = ErrAttributeTooLong \<and> length value > 247
      | Inr w \<Rightarrow> length value \<le> 247 \<and> length w = 8 + length value)
   \<and> (DecodeVSA a = (avid, avt, avalue, None) \<longleftrightarrow>
        length avalue \<le> 253 \<and> (\<exists>trail. aValue a = BE_PutUint32 avid @ vsa_payload avt avalue @ trail))"
proof (intro conjI)
  show d: "DecodeVSA (NewVSA vid vt value) = (vid, vt, take 253 value, None)" by (rule DecodeVSA_New)
  show "MatchVSA (NewVSA vid vt value) vid' = (if vid' = vid then Some (vt, take 253 value) else None)"
    by (simp add: MatchVSA_def d)
  show "case MarshalBinary (NewVSA vid vt value) of
        Inl e \<Rightarrow> e = ErrAttributeTooLong \<and> length value > 247
      | Inr w \<Rightarrow> length value \<le> 247 \<and> length w = 8 + length value"
    by (auto simp: MarshalBinary_def NewVSA_payload NewVendorSpecific_def vsa_payload_def limit_num min_def)
  have "DecodeVSA a = (avid, avt, avalue, None)"
    if "length avalue \<le> 253" "aValue a = BE_PutUint32 avid @ vsa_payload avt avalue @ trail" for trail
    using DecodeVSA_payload [OF that(1), of "aType a" avid avt trail] that(2)
    by (metis attribute.surjective unit.exhaust)
  with DecodeVSA_sound [of a avid avt avalue]
  show "DecodeVSA a = (avid, avt, avalue, None) \<longleftrightarrow>
      length avalue \<le> 253 \<and> (\<exists>trail. aValue a = BE_PutUint32 avid @ vsa_payload avt avalue @ trail)"
    by blast
qed

theorem vsa_codec_witness: "DecodeVSA (NewVSA 9 1 [65, 66]) = (9, 1, [65, 66], None)"
  using vsa_codec [of 9 1 "[65, 66]" 9 "NewVSA 9 1 []" 0 0 "[]"] by simp

section \<open>The packages of the vendors\<close>

named_theorems vendor_num "vendor and sub-type numbers"

locale vendor_package =
  fixes vid :: "32 word"
    and new :: "byte \<Rightarrow> bytes \<Rightarrow> attribute"
    and decode :: "attribute \<Rightarrow> (byte \<times> bytes) option"
  assumes new_vsa: "new vt value = NewVSA vid vt value"
    and decode_match: "decode a = MatchVSA a vid"
begin

lemma decode_new: "decode (NewVSA v vt value) = (if vid = v then Some (vt, take 253 value) else None)"
  by (simp add: decode_match MatchVSA_def DecodeVSA_New)

lemma decode_int: "decode (new vt (BE_PutUint32 n)) = Some (vt, BE_PutUint32 n)"
  by (simp add: new_vsa decode_new)

lemma decode_foreign: "decode a = Some (vt, value) \<Longrightarrow> fst (DecodeVSA a) = vid"
  by (auto simp: decode_match MatchVSA_def split: prod.splits if_splits)

lemma new_inj: "length v \<le> 253 \<Longrightarrow> length w \<le> 253 \<Longrightarrow> new s v = new t w \<Longrightarrow> s = t \<and> v = w"
proof -
  assume "length v \<le> 253" "length w \<le> 253" "new s v = new t w"
  then have "decode (NewVSA vid s v) = decode (NewVSA vid t w)" by (simp add: new_vsa)
  with \<open>length v \<le> 253\<close> \<open>length w \<le> 253\<close> show "s = t \<and> v = w" by (simp add: decode_new)
qed

end

text \<open>
  The shape of the constructor tables the packages list at their end: a constructor, its
  sub-type, and how its argument is written as a value.
\<close>

definition builds :: "(attribute \<Rightarrow> (byte \<times> bytes) option) \<Rightarrow> ('a \<Rightarrow> bytes) \<Rightarrow> ('a \<Rightarrow> attribute) \<times> byte \<Rightarrow> bool" where
  "builds decode wire ct \<longleftrightarrow> (\<forall>x. decode (fst ct x) = Some (snd ct, take 253 (wire x)))"

definition ip4_value :: "bytes \<Rightarrow> bytes" where
  "ip4_value ip = (case IP_To4 ip of None \<Rightarrow> replicate 4 0 | Some v4 \<Rightarrow> v4)"

definition ip6_value :: "bytes \<Rightarrow> bytes" where
  "ip6_value ip = (case IP_To16 ip of None \<Rightarrow> replicate 16 0 | Some v6 \<Rightarrow> v6)"

lemmas ctor_wire = ip4_value_def ip6_value_def

end
