(* ===== verification/Huawei.thy ===== *)
theory Huawei
  imports Vsa
begin

text \<open>
  \<open>vendors/huawei/huawei.go\<close>: the vendor-specific attributes of Huawei (2011). A constructor takes the
  octets of its string argument, a 32-bit number, or an address.
\<close>

section \<open>Numbers\<close>

definition huawei_VendorID :: "32 word" where [vendor_num]: "huawei_VendorID = 2011"
definition huawei_VendorTypeInputPeakInformationRate :: byte where [vendor_num]: "huawei_VendorTypeInputPeakInformationRate = 1"
definition huawei_VendorTypeInputCommittedInformationRate :: byte where [vendor_num]: "huawei_VendorTypeInputCommittedInformationRate = 2"
definition huawei_VendorTypeInputCommittedBurstSize :: byte where [vendor_num]: "huawei_VendorTypeInputCommittedBurstSize = 3"
definition huawei_VendorTypeOutputPeakInformationRate :: byte where [vendor_num]: "huawei_VendorTypeOutputPeakInformationRate = 4"
definition huawei_VendorTypeOutputCommittedInformationRate :: byte where [vendor_num]: "huawei_VendorTypeOutputCommittedInformationRate = 5"
definition huawei_VendorTypeOutputCommittedBurstSize :: byte where [vendor_num]: "huawei_VendorTypeOutputCommittedBurstSize = 6"
definition huawei_VendorTypeUserNameAccessLimit :: byte where [vendor_num]: "huawei_VendorTypeUserNameAccessLimit = 18"
definition huawei_VendorTypeConnectID :: byte where [vendor_num]: "huawei_VendorTypeConnectID = 26"
definition huawei_VendorTypeFTPDirectory :: byte where [vendor_num]: "huawei_VendorTypeFTPDirectory = 28"
definition huawei_VendorTypeExecPrivilege :: byte where [vendor_num]: "huawei_VendorTypeExecPrivilege = 29"
definition huawei_VendorTypeQoSData :: byte where [vendor_num]: "huawei_VendorTypeQoSData = 31"
definition huawei_VendorTypeVoiceVLAN :: byte where [vendor_num]: "huawei_VendorTypeVoiceVLAN = 33"
definition huawei_VendorTypeNASStartupTimeStamp :: byte where [vendor_num]: "huawei_VendorTypeNASStartupTimeStamp = 59"
definition huawei_VendorTypeIPHostAddress :: byte where [vendor_num]: "huawei_VendorTypeIPHostAddress = 60"
definition huawei_VendorTypeUpPriority :: byte where [vendor_num]: "huawei_VendorTypeUpPriority = 61"
definition huawei_VendorTypeDownPriority :: byte where [vendor_num]: "huawei_VendorTypeDownPriority = 62"
definition huawei_VendorTypeDataFilter :: byte where [vendor_num]: "huawei_VendorTypeDataFilter = 82"
definition huawei_VendorTypeDomainName :: byte where [vendor_num]: "huawei_VendorTypeDomainName = 138"
definition huawei_VendorTypeAPInformation :: byte where [vendor_num]: "huawei_VendorTypeAPInformation = 141"
definition huawei_VendorTypeUserInformation :: byte where [vendor_num]: "huawei_VendorTypeUserInformation = 142"
definition huawei_VendorTypeUserPolicy :: byte where [vendor_num]: "huawei_VendorTypeUserPolicy = 146"
definition huawei_VendorTypeAccessType :: byte where [vendor_num]: "huawei_VendorTypeAccessType = 153"
definition huawei_VendorTypePortalURL :: byte where [vendor_num]: "huawei_VendorTypePortalURL = 156"
definition huawei_VendorTypeDHCPOption :: byte where [vendor_num]: "huawei_VendorTypeDHCPOption = 158"
definition huawei_VendorTypeUCLGroup :: byte where [vendor_num]: "huawei_VendorTypeUCLGroup = 160"
definition huawei_VendorTypeLLDP :: byte where [vendor_num]: "huawei_VendorTypeLLDP = 163"
definition huawei_VendorTypeMDN :: byte where [vendor_num]: "huawei_VendorTypeMDN = 164"
definition huawei_VendorTypeAcctIPv6InputOctets :: byte where [vendor_num]: "huawei_VendorTypeAcctIPv6InputOctets = 166"
definition huawei_VendorTypeAcctIPv6OutputOctets :: byte where [vendor_num]: "huawei_VendorTypeAcctIPv6OutputOctets = 167"
definition huawei_VendorTypeAcctIPv6InputPackets :: byte where [vendor_num]: "huawei_VendorTypeAcctIPv6InputPackets = 168"
definition huawei_VendorTypeAcctIPv6OutputPackets :: byte where [vendor_num]: "huawei_VendorTypeAcctIPv6OutputPackets = 169"
definition huawei_VendorTypeAcctIPv6InputGigawords :: byte where [vendor_num]: "huawei_VendorTypeAcctIPv6InputGigawords = 170"
definition huawei_VendorTypeAcctIPv6OutputGigawords :: byte where [vendor_num]: "huawei_VendorTypeAcctIPv6OutputGigawords = 171"
definition huawei_VendorTypeRedirectACL :: byte where [vendor_num]: "huawei_VendorTypeRedirectACL = 173"
definition huawei_VendorTypeIPv6RedirectACL :: byte where [vendor_num]: "huawei_VendorTypeIPv6RedirectACL = 178"
definition huawei_VendorTypeMACsecPolicy :: byte where [vendor_num]: "huawei_VendorTypeMACsecPolicy = 180"
definition huawei_VendorTypeAVPair :: byte where [vendor_num]: "huawei_VendorTypeAVPair = 188"
definition huawei_VendorTypeMUDURL :: byte where [vendor_num]: "huawei_VendorTypeMUDURL = 202"
definition huawei_VendorTypeVIPLevelID :: byte where [vendor_num]: "huawei_VendorTypeVIPLevelID = 203"
definition huawei_VendorTypeExtSpecific :: byte where [vendor_num]: "huawei_VendorTypeExtSpecific = 238"
definition huawei_VendorTypeUserAccessInfo :: byte where [vendor_num]: "huawei_VendorTypeUserAccessInfo = 239"
definition huawei_VendorTypeAccessDeviceInfo :: byte where [vendor_num]: "huawei_VendorTypeAccessDeviceInfo = 240"
definition huawei_VendorTypeReachableDetect :: byte where [vendor_num]: "huawei_VendorTypeReachableDetect = 244"
definition huawei_VendorTypeIPv6FilterID :: byte where [vendor_num]: "huawei_VendorTypeIPv6FilterID = 251"
definition huawei_VendorTypeFramedIPv6Address :: byte where [vendor_num]: "huawei_VendorTypeFramedIPv6Address = 253"
definition huawei_VendorTypeVersion :: byte where [vendor_num]: "huawei_VendorTypeVersion = 254"
definition huawei_VendorTypeProductID :: byte where [vendor_num]: "huawei_VendorTypeProductID = 255"

section \<open>Constructors\<close>

definition huawei_newIntVSA :: "byte \<Rightarrow> 32 word \<Rightarrow> attribute" where
  "huawei_newIntVSA vt n = NewVSA huawei_VendorID vt (BE_PutUint32 n)"

definition huawei_newStrVSA :: "byte \<Rightarrow> bytes \<Rightarrow> attribute" where
  "huawei_newStrVSA vt s = NewVSA huawei_VendorID vt s"

definition huawei_New :: "byte \<Rightarrow> bytes \<Rightarrow> attribute" where
  "huawei_New vendorType v = NewVSA huawei_VendorID vendorType v"

definition huawei_NewInputPeakInformationRate :: "32 word \<Rightarrow> attribute" where
  "huawei_NewInputPeakInformationRate n = huawei_newIntVSA huawei_VendorTypeInputPeakInformationRate n"

definition huawei_NewInputCommittedInformationRate :: "32 word \<Rightarrow> attribute" where
  "huawei_NewInputCommittedInformationRate n = huawei_newIntVSA huawei_VendorTypeInputCommittedInformationRate n"

definition huawei_NewInputCommittedBurstSize :: "32 word \<Rightarrow> attribute" where
  "huawei_NewInputCommittedBurstSize n = huawei_newIntVSA huawei_VendorTypeInputCommittedBurstSize n"

definition huawei_NewOutputPeakInformationRate :: "32 word \<Rightarrow> attribute" where
  "huawei_NewOutputPeakInformationRate n = huawei_newIntVSA huawei_VendorTypeOutputPeakInformationRate n"

definition huawei_NewOutputCommittedInformationRate :: "32 word \<Rightarrow> attribute" where
  "huawei_NewOutputCommittedInformationRate n = huawei_newIntVSA huawei_VendorTypeOutputCommittedInformationRate n"

definition huawei_NewOutputCommittedBurstSize :: "32 word \<Rightarrow> attribute" where
  "huawei_NewOutputCommittedBurstSize n = huawei_newIntVSA huawei_VendorTypeOutputCommittedBurstSize n"

definition huawei_NewUserNameAccessLimit :: "32 word \<Rightarrow> attribute" where
  "huawei_NewUserNameAccessLimit n = huawei_newIntVSA huawei_VendorTypeUserNameAccessLimit n"

definition huawei_NewConnectID :: "32 word \<Rightarrow> attribute" where
  "huawei_NewConnectID n = huawei_newIntVSA huawei_VendorTypeConnectID n"

definition huawei_NewFTPDirectory :: "bytes \<Rightarrow> attribute" where
  "huawei_NewFTPDirectory s = huawei_newStrVSA huawei_VendorTypeFTPDirectory s"

definition huawei_NewExecPrivilege :: "32 word \<Rightarrow> attribute" where
  "huawei_NewExecPrivilege n = huawei_newIntVSA huawei_VendorTypeExecPrivilege n"

definition huawei_NewQoSData :: "bytes \<Rightarrow> attribute" where
  "huawei_NewQoSData s = huawei_newStrVSA huawei_VendorTypeQoSData s"

definition huawei_NewVoiceVLAN :: "32 word \<Rightarrow> attribute" where
  "huawei_NewVoiceVLAN n = huawei_newIntVSA huawei_VendorTypeVoiceVLAN n"

definition huawei_NewNASStartupTimeStamp :: "32 word \<Rightarrow> attribute" where
  "huawei_NewNASStartupTimeStamp n = huawei_newIntVSA huawei_VendorTypeNASStartupTimeStamp n"

definition huawei_NewIPHostAddress :: "bytes \<Rightarrow> attribute" where
  "huawei_NewIPHostAddress s = huawei_newStrVSA huawei_VendorTypeIPHostAddress s"

definition huawei_NewUpPriority :: "32 word \<Rightarrow> attribute" where
  "huawei_NewUpPriority n = huawei_newIntVSA huawei_VendorTypeUpPriority n"

definition huawei_NewDownPriority :: "32 word \<Rightarrow> attribute" where
  "huawei_NewDownPriority n = huawei_newIntVSA huawei_VendorTypeDownPriority n"

definition huawei_NewDataFilter :: "bytes \<Rightarrow> attribute" where
  "huawei_NewDataFilter s = huawei_newStrVSA huawei_VendorTypeDataFilter s"

definition huawei_NewDomainName :: "bytes \<Rightarrow> attribute" where
  "huawei_NewDomainName s = huawei_newStrVSA huawei_VendorTypeDomainName s"

definition huawei_NewAPInformation :: "bytes \<Rightarrow> attribute" where
  "huawei_NewAPInformation s = huawei_newStrVSA huawei_VendorTypeAPInformation s"

definition huawei_NewUserInformation :: "bytes \<Rightarrow> attribute" where
  "huawei_NewUserInformation s = huawei_newStrVSA huawei_VendorTypeUserInformation s"

definition huawei_NewUserPolicy :: "bytes \<Rightarrow> attribute" where
  "huawei_NewUserPolicy s = huawei_newStrVSA huawei_VendorTypeUserPolicy s"

definition huawei_NewAccessType :: "32 word \<Rightarrow> attribute" where
  "huawei_NewAccessType n = huawei_newIntVSA huawei_VendorTypeAccessType n"

definition huawei_NewPortalURL :: "bytes \<Rightarrow> attribute" where
  "huawei_NewPortalURL s = huawei_newStrVSA huawei_VendorTypePortalURL s"

definition huawei_NewDHCPOption :: "bytes \<Rightarrow> attribute" where
  "huawei_NewDHCPOption s = huawei_newStrVSA huawei_VendorTypeDHCPOption s"

definition huawei_NewUCLGroup :: "32 word \<Rightarrow> attribute" where
  "huawei_NewUCLGroup n = huawei_newIntVSA huawei_VendorTypeUCLGroup n"

definition huawei_NewLLDP :: "bytes \<Rightarrow> attribute" where
  "huawei_NewLLDP s = huawei_newStrVSA huawei_VendorTypeLLDP s"

definition huawei_NewMDN :: "bytes \<Rightarrow> attribute" where
  "huawei_NewMDN s = huawei_newStrVSA huawei_VendorTypeMDN s"

definition huawei_NewAcctIPv6InputOctets :: "32 word \<Rightarrow> attribute" where
  "huawei_NewAcctIPv6InputOctets n = huawei_newIntVSA huawei_VendorTypeAcctIPv6InputOctets n"

definition huawei_NewAcctIPv6OutputOctets :: "32 word \<Rightarrow> attribute" where
  "huawei_NewAcctIPv6OutputOctets n = huawei_newIntVSA huawei_VendorTypeAcctIPv6OutputOctets n"

definition huawei_NewAcctIPv6InputPackets :: "32 word \<Rightarrow> attribute" where
  "huawei_NewAcctIPv6InputPackets n = huawei_newIntVSA huawei_VendorTypeAcctIPv6InputPackets n"

definition huawei_NewAcctIPv6OutputPackets :: "32 word \<Rightarrow> attribute" where
  "huawei_NewAcctIPv6OutputPackets n = huawei_newIntVSA huawei_VendorTypeAcctIPv6OutputPackets n"

definition huawei_NewAcctIPv6InputGigawords :: "32 word \<Rightarrow> attribute" where
  "huawei_NewAcctIPv6InputGigawords n = huawei_newIntVSA huawei_VendorTypeAcctIPv6InputGigawords n"

definition huawei_NewAcctIPv6OutputGigawords :: "32 word \<Rightarrow> attribute" where
  "huawei_NewAcctIPv6OutputGigawords n = huawei_newIntVSA huawei_VendorTypeAcctIPv6OutputGigawords n"

definition huawei_NewRedirectACL :: "bytes \<Rightarrow> attribute" where
  "huawei_NewRedirectACL s = huawei_newStrVSA huawei_VendorTypeRedirectACL s"

definition huawei_NewIPv6RedirectACL :: "bytes \<Rightarrow> attribute" where
  "huawei_NewIPv6RedirectACL s = huawei_newStrVSA huawei_VendorTypeIPv6RedirectACL s"

definition huawei_NewMACsecPolicy :: "bytes \<Rightarrow> attribute" where
  "huawei_NewMACsecPolicy s = huawei_newStrVSA huawei_VendorTypeMACsecPolicy s"

definition huawei_NewAVPair :: "bytes \<Rightarrow> attribute" where
  "huawei_NewAVPair s = huawei_newStrVSA huawei_VendorTypeAVPair s"

definition huawei_NewMUDURL :: "bytes \<Rightarrow> attribute" where
  "huawei_NewMUDURL s = huawei_newStrVSA huawei_VendorTypeMUDURL s"

definition huawei_NewVIPLevelID :: "32 word \<Rightarrow> attribute" where
  "huawei_NewVIPLevelID n = huawei_newIntVSA huawei_VendorTypeVIPLevelID n"

definition huawei_NewExtSpecific :: "bytes \<Rightarrow> attribute" where
  "huawei_NewExtSpecific s = huawei_newStrVSA huawei_VendorTypeExtSpecific s"

definition huawei_NewUserAccessInfo :: "bytes \<Rightarrow> attribute" where
  "huawei_NewUserAccessInfo s = huawei_newStrVSA huawei_VendorTypeUserAccessInfo s"

definition huawei_NewAccessDeviceInfo :: "bytes \<Rightarrow> attribute" where
  "huawei_NewAccessDeviceInfo s = huawei_newStrVSA huawei_VendorTypeAccessDeviceInfo s"

definition huawei_NewReachableDetect :: "bytes \<Rightarrow> attribute" where
  "huawei_NewReachableDetect s = huawei_newStrVSA huawei_VendorTypeReachableDetect s"

definition huawei_NewIPv6FilterID :: "bytes \<Rightarrow> attribute" where
  "huawei_NewIPv6FilterID s = huawei_newStrVSA huawei_VendorTypeIPv6FilterID s"

definition huawei_NewFramedIPv6Address :: "bytes \<Rightarrow> attribute" where
  "huawei_NewFramedIPv6Address ip = NewVSA huawei_VendorID huawei_VendorTypeFramedIPv6Address
     (case IP_To16 ip of None \<Rightarrow> replicate 16 0 | Some v6 \<Rightarrow> v6)"

definition huawei_NewVersion :: "bytes \<Rightarrow> attribute" where
  "huawei_NewVersion s = huawei_newStrVSA huawei_VendorTypeVersion s"

definition huawei_NewProductID :: "bytes \<Rightarrow> attribute" where
  "huawei_NewProductID s = huawei_newStrVSA huawei_VendorTypeProductID s"

definition huawei_Decode :: "attribute \<Rightarrow> (byte \<times> bytes) option" where
  "huawei_Decode attr = MatchVSA attr huawei_VendorID"


section \<open>Every constructor is read back\<close>

definition huawei_string_ctors :: "((bytes \<Rightarrow> attribute) \<times> byte) list" where
  "huawei_string_ctors =
    [(huawei_NewFTPDirectory, huawei_VendorTypeFTPDirectory),
     (huawei_NewQoSData, huawei_VendorTypeQoSData),
     (huawei_NewIPHostAddress, huawei_VendorTypeIPHostAddress),
     (huawei_NewDataFilter, huawei_VendorTypeDataFilter),
     (huawei_NewDomainName, huawei_VendorTypeDomainName),
     (huawei_NewAPInformation, huawei_VendorTypeAPInformation),
     (huawei_NewUserInformation, huawei_VendorTypeUserInformation),
     (huawei_NewUserPolicy, huawei_VendorTypeUserPolicy),
     (huawei_NewPortalURL, huawei_VendorTypePortalURL),
     (huawei_NewDHCPOption, huawei_VendorTypeDHCPOption),
     (huawei_NewLLDP, huawei_VendorTypeLLDP),
     (huawei_NewMDN, huawei_VendorTypeMDN),
     (huawei_NewRedirectACL, huawei_VendorTypeRedirectACL),
     (huawei_NewIPv6RedirectACL, huawei_VendorTypeIPv6RedirectACL),
     (huawei_NewMACsecPolicy, huawei_VendorTypeMACsecPolicy),
     (huawei_NewAVPair, huawei_VendorTypeAVPair),
     (huawei_NewMUDURL, huawei_VendorTypeMUDURL),
     (huawei_NewExtSpecific, huawei_VendorTypeExtSpecific),
     (huawei_NewUserAccessInfo, huawei_VendorTypeUserAccessInfo),
     (huawei_NewAccessDeviceInfo, huawei_VendorTypeAccessDeviceInfo),
     (huawei_NewReachableDetect, huawei_VendorTypeReachableDetect),
     (huawei_NewIPv6FilterID, huawei_VendorTypeIPv6FilterID),
     (huawei_NewVersion, huawei_VendorTypeVersion),
     (huawei_NewProductID, huawei_VendorTypeProductID)]"

definition huawei_int_ctors :: "((32 word \<Rightarrow> attribute) \<times> byte) list" where
  "huawei_int_ctors =
    [(huawei_NewInputPeakInformationRate, huawei_VendorTypeInputPeakInformationRate),
     (huawei_NewInputCommittedInformationRate, huawei_VendorTypeInputCommittedInformationRate),
     (huawei_NewInputCommittedBurstSize, huawei_VendorTypeInputCommittedBurstSize),
     (huawei_NewOutputPeakInformationRate, huawei_VendorTypeOutputPeakInformationRate),
     (huawei_NewOutputCommittedInformationRate, huawei_VendorTypeOutputCommittedInformationRate),
     (huawei_NewOutputCommittedBurstSize, huawei_VendorTypeOutputCommittedBurstSize),
     (huawei_NewUserNameAccessLimit, huawei_VendorTypeUserNameAccessLimit),
     (huawei_NewConnectID, huawei_VendorTypeConnectID),
     (huawei_NewExecPrivilege, huawei_VendorTypeExecPrivilege),
     (huawei_NewVoiceVLAN, huawei_VendorTypeVoiceVLAN),
     (huawei_NewNASStartupTimeStamp, huawei_VendorTypeNASStartupTimeStamp),
     (huawei_NewUpPriority, huawei_VendorTypeUpPriority),
     (huawei_NewDownPriority, huawei_VendorTypeDownPriority),
     (huawei_NewAccessType, huawei_VendorTypeAccessType),
     (huawei_NewUCLGroup, huawei_VendorTypeUCLGroup),
     (huawei_NewAcctIPv6InputOctets, huawei_VendorTypeAcctIPv6InputOctets),
     (huawei_NewAcctIPv6OutputOctets, huawei_VendorTypeAcctIPv6OutputOctets),
     (huawei_NewAcctIPv6InputPackets, huawei_VendorTypeAcctIPv6InputPackets),
     (huawei_NewAcctIPv6OutputPackets, huawei_VendorTypeAcctIPv6OutputPackets),
     (huawei_NewAcctIPv6InputGigawords, huawei_VendorTypeAcctIPv6InputGigawords),
     (huawei_NewAcctIPv6OutputGigawords, huawei_VendorTypeAcctIPv6OutputGigawords),
     (huawei_NewVIPLevelID, huawei_VendorTypeVIPLevelID)]"

definition huawei_ip6_ctors :: "((bytes \<Rightarrow> attribute) \<times> byte) list" where
  "huawei_ip6_ctors =
    [(huawei_NewFramedIPv6Address, huawei_VendorTypeFramedIPv6Address)]"

interpretation huawei: vendor_package huawei_VendorID huawei_New huawei_Decode
  by unfold_locales (simp_all add: huawei_New_def huawei_Decode_def)

lemma huawei_string_ctors_read: "list_all (builds huawei_Decode (\<lambda>s. s)) huawei_string_ctors"
  by (simp add: builds_def huawei_string_ctors_def ctor_wire huawei_newIntVSA_def huawei_newStrVSA_def
      huawei.decode_new huawei_NewFTPDirectory_def huawei_NewQoSData_def huawei_NewIPHostAddress_def huawei_NewDataFilter_def
      huawei_NewDomainName_def huawei_NewAPInformation_def huawei_NewUserInformation_def huawei_NewUserPolicy_def
      huawei_NewPortalURL_def huawei_NewDHCPOption_def huawei_NewLLDP_def huawei_NewMDN_def
      huawei_NewRedirectACL_def huawei_NewIPv6RedirectACL_def huawei_NewMACsecPolicy_def huawei_NewAVPair_def
      huawei_NewMUDURL_def huawei_NewExtSpecific_def huawei_NewUserAccessInfo_def huawei_NewAccessDeviceInfo_def
      huawei_NewReachableDetect_def huawei_NewIPv6FilterID_def huawei_NewVersion_def huawei_NewProductID_def)

lemma huawei_int_ctors_read: "list_all (builds huawei_Decode BE_PutUint32) huawei_int_ctors"
  by (simp add: builds_def huawei_int_ctors_def ctor_wire huawei_newIntVSA_def huawei_newStrVSA_def
      huawei.decode_new huawei_NewInputPeakInformationRate_def huawei_NewInputCommittedInformationRate_def huawei_NewInputCommittedBurstSize_def huawei_NewOutputPeakInformationRate_def
      huawei_NewOutputCommittedInformationRate_def huawei_NewOutputCommittedBurstSize_def huawei_NewUserNameAccessLimit_def huawei_NewConnectID_def
      huawei_NewExecPrivilege_def huawei_NewVoiceVLAN_def huawei_NewNASStartupTimeStamp_def huawei_NewUpPriority_def
      huawei_NewDownPriority_def huawei_NewAccessType_def huawei_NewUCLGroup_def huawei_NewAcctIPv6InputOctets_def
      huawei_NewAcctIPv6OutputOctets_def huawei_NewAcctIPv6InputPackets_def huawei_NewAcctIPv6OutputPackets_def huawei_NewAcctIPv6InputGigawords_def
      huawei_NewAcctIPv6OutputGigawords_def huawei_NewVIPLevelID_def)

lemma huawei_ip6_ctors_read: "list_all (builds huawei_Decode ip6_value) huawei_ip6_ctors"
  by (simp add: builds_def huawei_ip6_ctors_def ctor_wire huawei_newIntVSA_def huawei_newStrVSA_def
      huawei.decode_new huawei_NewFramedIPv6Address_def)

lemma huawei_sub_types_distinct: "distinct (map snd huawei_string_ctors @ map snd huawei_int_ctors @ map snd huawei_ip6_ctors)"
  by (simp add: huawei_string_ctors_def huawei_int_ctors_def huawei_ip6_ctors_def vendor_num)

end
