(* ===== verification/H3C.thy ===== *)
theory H3C
  imports Vsa
begin

text \<open>
  \<open>vendors/h3c/h3c.go\<close>: the vendor-specific attributes of H3C (25506). A constructor takes the
  octets of its string argument, a 32-bit number, or an address.
\<close>

section \<open>Numbers\<close>

definition h3c_VendorID :: "32 word" where [vendor_num]: "h3c_VendorID = 25506"
definition h3c_VendorTypeInputPeakRate :: byte where [vendor_num]: "h3c_VendorTypeInputPeakRate = 1"
definition h3c_VendorTypeInputAverageRate :: byte where [vendor_num]: "h3c_VendorTypeInputAverageRate = 2"
definition h3c_VendorTypeInputBasicRate :: byte where [vendor_num]: "h3c_VendorTypeInputBasicRate = 3"
definition h3c_VendorTypeOutputPeakRate :: byte where [vendor_num]: "h3c_VendorTypeOutputPeakRate = 4"
definition h3c_VendorTypeOutputAverageRate :: byte where [vendor_num]: "h3c_VendorTypeOutputAverageRate = 5"
definition h3c_VendorTypeOutputBasicRate :: byte where [vendor_num]: "h3c_VendorTypeOutputBasicRate = 6"
definition h3c_VendorTypeRemanentVolume :: byte where [vendor_num]: "h3c_VendorTypeRemanentVolume = 15"
definition h3c_VendorTypeCommand :: byte where [vendor_num]: "h3c_VendorTypeCommand = 20"
definition h3c_VendorTypeControlIdentifier :: byte where [vendor_num]: "h3c_VendorTypeControlIdentifier = 24"
definition h3c_VendorTypeResultCode :: byte where [vendor_num]: "h3c_VendorTypeResultCode = 25"
definition h3c_VendorTypeConnectID :: byte where [vendor_num]: "h3c_VendorTypeConnectID = 26"
definition h3c_VendorTypeFTPDirectory :: byte where [vendor_num]: "h3c_VendorTypeFTPDirectory = 28"
definition h3c_VendorTypeExecPrivilege :: byte where [vendor_num]: "h3c_VendorTypeExecPrivilege = 29"
definition h3c_VendorTypeNASStartupTimestamp :: byte where [vendor_num]: "h3c_VendorTypeNASStartupTimestamp = 59"
definition h3c_VendorTypeIPHostAddr :: byte where [vendor_num]: "h3c_VendorTypeIPHostAddr = 60"
definition h3c_VendorTypeUserNotify :: byte where [vendor_num]: "h3c_VendorTypeUserNotify = 61"
definition h3c_VendorTypeUserHeartbeat :: byte where [vendor_num]: "h3c_VendorTypeUserHeartbeat = 62"
definition h3c_VendorTypeUserGroup :: byte where [vendor_num]: "h3c_VendorTypeUserGroup = 140"
definition h3c_VendorTypeSecurityLevel :: byte where [vendor_num]: "h3c_VendorTypeSecurityLevel = 141"
definition h3c_VendorTypeInputIntervalOctets :: byte where [vendor_num]: "h3c_VendorTypeInputIntervalOctets = 201"
definition h3c_VendorTypeOutputIntervalOctets :: byte where [vendor_num]: "h3c_VendorTypeOutputIntervalOctets = 202"
definition h3c_VendorTypeInputIntervalPackets :: byte where [vendor_num]: "h3c_VendorTypeInputIntervalPackets = 203"
definition h3c_VendorTypeOutputIntervalPackets :: byte where [vendor_num]: "h3c_VendorTypeOutputIntervalPackets = 204"
definition h3c_VendorTypeInputIntervalGigawords :: byte where [vendor_num]: "h3c_VendorTypeInputIntervalGigawords = 205"
definition h3c_VendorTypeOutputIntervalGigawords :: byte where [vendor_num]: "h3c_VendorTypeOutputIntervalGigawords = 206"
definition h3c_VendorTypeBackupNASIP :: byte where [vendor_num]: "h3c_VendorTypeBackupNASIP = 207"
definition h3c_VendorTypeProductID :: byte where [vendor_num]: "h3c_VendorTypeProductID = 255"

section \<open>Constructors\<close>

definition h3c_newIntVSA :: "byte \<Rightarrow> 32 word \<Rightarrow> attribute" where
  "h3c_newIntVSA vt n = NewVSA h3c_VendorID vt (BE_PutUint32 n)"

definition h3c_newStrVSA :: "byte \<Rightarrow> bytes \<Rightarrow> attribute" where
  "h3c_newStrVSA vt s = NewVSA h3c_VendorID vt s"

definition h3c_New :: "byte \<Rightarrow> bytes \<Rightarrow> attribute" where
  "h3c_New vendorType v = NewVSA h3c_VendorID vendorType v"

definition h3c_NewInputPeakRate :: "32 word \<Rightarrow> attribute" where
  "h3c_NewInputPeakRate n = h3c_newIntVSA h3c_VendorTypeInputPeakRate n"

definition h3c_NewInputAverageRate :: "32 word \<Rightarrow> attribute" where
  "h3c_NewInputAverageRate n = h3c_newIntVSA h3c_VendorTypeInputAverageRate n"

definition h3c_NewInputBasicRate :: "32 word \<Rightarrow> attribute" where
  "h3c_NewInputBasicRate n = h3c_newIntVSA h3c_VendorTypeInputBasicRate n"

definition h3c_NewOutputPeakRate :: "32 word \<Rightarrow> attribute" where
  "h3c_NewOutputPeakRate n = h3c_newIntVSA h3c_VendorTypeOutputPeakRate n"

definition h3c_NewOutputAverageRate :: "32 word \<Rightarrow> attribute" where
  "h3c_NewOutputAverageRate n = h3c_newIntVSA h3c_VendorTypeOutputAverageRate n"

definition h3c_NewOutputBasicRate :: "32 word \<Rightarrow> attribute" where
  "h3c_NewOutputBasicRate n = h3c_newIntVSA h3c_VendorTypeOutputBasicRate n"

definition h3c_NewRemanentVolume :: "32 word \<Rightarrow> attribute" where
  "h3c_NewRemanentVolume n = h3c_newIntVSA h3c_VendorTypeRemanentVolume n"

definition h3c_NewCommand :: "32 word \<Rightarrow> attribute" where
  "h3c_NewCommand n = h3c_newIntVSA h3c_VendorTypeCommand n"

definition h3c_NewControlIdentifier :: "32 word \<Rightarrow> attribute" where
  "h3c_NewControlIdentifier n = h3c_newIntVSA h3c_VendorTypeControlIdentifier n"

definition h3c_NewResultCode :: "32 word \<Rightarrow> attribute" where
  "h3c_NewResultCode n = h3c_newIntVSA h3c_VendorTypeResultCode n"

definition h3c_NewConnectID :: "32 word \<Rightarrow> attribute" where
  "h3c_NewConnectID n = h3c_newIntVSA h3c_VendorTypeConnectID n"

definition h3c_NewFTPDirectory :: "bytes \<Rightarrow> attribute" where
  "h3c_NewFTPDirectory s = h3c_newStrVSA h3c_VendorTypeFTPDirectory s"

definition h3c_NewExecPrivilege :: "32 word \<Rightarrow> attribute" where
  "h3c_NewExecPrivilege n = h3c_newIntVSA h3c_VendorTypeExecPrivilege n"

definition h3c_NewNASStartupTimestamp :: "32 word \<Rightarrow> attribute" where
  "h3c_NewNASStartupTimestamp n = h3c_newIntVSA h3c_VendorTypeNASStartupTimestamp n"

definition h3c_NewIPHostAddr :: "bytes \<Rightarrow> attribute" where
  "h3c_NewIPHostAddr s = h3c_newStrVSA h3c_VendorTypeIPHostAddr s"

definition h3c_NewUserNotify :: "bytes \<Rightarrow> attribute" where
  "h3c_NewUserNotify s = h3c_newStrVSA h3c_VendorTypeUserNotify s"

definition h3c_NewUserHeartbeat :: "bytes \<Rightarrow> attribute" where
  "h3c_NewUserHeartbeat s = NewVSA h3c_VendorID h3c_VendorTypeUserHeartbeat s"

definition h3c_NewUserGroup :: "bytes \<Rightarrow> attribute" where
  "h3c_NewUserGroup s = h3c_newStrVSA h3c_VendorTypeUserGroup s"

definition h3c_NewSecurityLevel :: "32 word \<Rightarrow> attribute" where
  "h3c_NewSecurityLevel n = h3c_newIntVSA h3c_VendorTypeSecurityLevel n"

definition h3c_NewInputIntervalOctets :: "32 word \<Rightarrow> attribute" where
  "h3c_NewInputIntervalOctets n = h3c_newIntVSA h3c_VendorTypeInputIntervalOctets n"

definition h3c_NewOutputIntervalOctets :: "32 word \<Rightarrow> attribute" where
  "h3c_NewOutputIntervalOctets n = h3c_newIntVSA h3c_VendorTypeOutputIntervalOctets n"

definition h3c_NewInputIntervalPackets :: "32 word \<Rightarrow> attribute" where
  "h3c_NewInputIntervalPackets n = h3c_newIntVSA h3c_VendorTypeInputIntervalPackets n"

definition h3c_NewOutputIntervalPackets :: "32 word \<Rightarrow> attribute" where
  "h3c_NewOutputIntervalPackets n = h3c_newIntVSA h3c_VendorTypeOutputIntervalPackets n"

definition h3c_NewInputIntervalGigawords :: "32 word \<Rightarrow> attribute" where
  "h3c_NewInputIntervalGigawords n = h3c_newIntVSA h3c_VendorTypeInputIntervalGigawords n"

definition h3c_NewOutputIntervalGigawords :: "32 word \<Rightarrow> attribute" where
  "h3c_NewOutputIntervalGigawords n = h3c_newIntVSA h3c_VendorTypeOutputIntervalGigawords n"

definition h3c_NewBackupNASIP :: "bytes \<Rightarrow> attribute" where
  "h3c_NewBackupNASIP ip = NewVSA h3c_VendorID h3c_VendorTypeBackupNASIP
     (case IP_To4 ip of None \<Rightarrow> replicate 4 0 | Some v4 \<Rightarrow> v4)"

definition h3c_NewProductID :: "bytes \<Rightarrow> attribute" where
  "h3c_NewProductID s = h3c_newStrVSA h3c_VendorTypeProductID s"

definition h3c_Decode :: "attribute \<Rightarrow> (byte \<times> bytes) option" where
  "h3c_Decode attr = MatchVSA attr h3c_VendorID"


section \<open>Every constructor is read back\<close>

definition h3c_string_ctors :: "((bytes \<Rightarrow> attribute) \<times> byte) list" where
  "h3c_string_ctors =
    [(h3c_NewFTPDirectory, h3c_VendorTypeFTPDirectory),
     (h3c_NewIPHostAddr, h3c_VendorTypeIPHostAddr),
     (h3c_NewUserNotify, h3c_VendorTypeUserNotify),
     (h3c_NewUserHeartbeat, h3c_VendorTypeUserHeartbeat),
     (h3c_NewUserGroup, h3c_VendorTypeUserGroup),
     (h3c_NewProductID, h3c_VendorTypeProductID)]"

definition h3c_int_ctors :: "((32 word \<Rightarrow> attribute) \<times> byte) list" where
  "h3c_int_ctors =
    [(h3c_NewInputPeakRate, h3c_VendorTypeInputPeakRate),
     (h3c_NewInputAverageRate, h3c_VendorTypeInputAverageRate),
     (h3c_NewInputBasicRate, h3c_VendorTypeInputBasicRate),
     (h3c_NewOutputPeakRate, h3c_VendorTypeOutputPeakRate),
     (h3c_NewOutputAverageRate, h3c_VendorTypeOutputAverageRate),
     (h3c_NewOutputBasicRate, h3c_VendorTypeOutputBasicRate),
     (h3c_NewRemanentVolume, h3c_VendorTypeRemanentVolume),
     (h3c_NewCommand, h3c_VendorTypeCommand),
     (h3c_NewControlIdentifier, h3c_VendorTypeControlIdentifier),
     (h3c_NewResultCode, h3c_VendorTypeResultCode),
     (h3c_NewConnectID, h3c_VendorTypeConnectID),
     (h3c_NewExecPrivilege, h3c_VendorTypeExecPrivilege),
     (h3c_NewNASStartupTimestamp, h3c_VendorTypeNASStartupTimestamp),
     (h3c_NewSecurityLevel, h3c_VendorTypeSecurityLevel),
     (h3c_NewInputIntervalOctets, h3c_VendorTypeInputIntervalOctets),
     (h3c_NewOutputIntervalOctets, h3c_VendorTypeOutputIntervalOctets),
     (h3c_NewInputIntervalPackets, h3c_VendorTypeInputIntervalPackets),
     (h3c_NewOutputIntervalPackets, h3c_VendorTypeOutputIntervalPackets),
     (h3c_NewInputIntervalGigawords, h3c_VendorTypeInputIntervalGigawords),
     (h3c_NewOutputIntervalGigawords, h3c_VendorTypeOutputIntervalGigawords)]"

definition h3c_ip4_ctors :: "((bytes \<Rightarrow> attribute) \<times> byte) list" where
  "h3c_ip4_ctors =
    [(h3c_NewBackupNASIP, h3c_VendorTypeBackupNASIP)]"

interpretation h3c: vendor_package h3c_VendorID h3c_New h3c_Decode
  by unfold_locales (simp_all add: h3c_New_def h3c_Decode_def)

lemma h3c_string_ctors_read: "list_all (builds h3c_Decode (\<lambda>s. s)) h3c_string_ctors"
  by (simp add: builds_def h3c_string_ctors_def ctor_wire h3c_newIntVSA_def h3c_newStrVSA_def
      h3c.decode_new h3c_NewFTPDirectory_def h3c_NewIPHostAddr_def h3c_NewUserNotify_def h3c_NewUserHeartbeat_def
      h3c_NewUserGroup_def h3c_NewProductID_def)

lemma h3c_int_ctors_read: "list_all (builds h3c_Decode BE_PutUint32) h3c_int_ctors"
  by (simp add: builds_def h3c_int_ctors_def ctor_wire h3c_newIntVSA_def h3c_newStrVSA_def
      h3c.decode_new h3c_NewInputPeakRate_def h3c_NewInputAverageRate_def h3c_NewInputBasicRate_def h3c_NewOutputPeakRate_def
      h3c_NewOutputAverageRate_def h3c_NewOutputBasicRate_def h3c_NewRemanentVolume_def h3c_NewCommand_def
      h3c_NewControlIdentifier_def h3c_NewResultCode_def h3c_NewConnectID_def h3c_NewExecPrivilege_def
      h3c_NewNASStartupTimestamp_def h3c_NewSecurityLevel_def h3c_NewInputIntervalOctets_def h3c_NewOutputIntervalOctets_def
      h3c_NewInputIntervalPackets_def h3c_NewOutputIntervalPackets_def h3c_NewInputIntervalGigawords_def h3c_NewOutputIntervalGigawords_def)

lemma h3c_ip4_ctors_read: "list_all (builds h3c_Decode ip4_value) h3c_ip4_ctors"
  by (simp add: builds_def h3c_ip4_ctors_def ctor_wire h3c_newIntVSA_def h3c_newStrVSA_def
      h3c.decode_new h3c_NewBackupNASIP_def)

lemma h3c_sub_types_distinct: "distinct (map snd h3c_string_ctors @ map snd h3c_int_ctors @ map snd h3c_ip4_ctors)"
  by (simp add: h3c_string_ctors_def h3c_int_ctors_def h3c_ip4_ctors_def vendor_num)

end
