(* ===== verification/Cisco.thy ===== *)
theory Cisco
  imports Vsa
begin

text \<open>
  \<open>vendors/cisco/cisco.go\<close>: the vendor-specific attributes of Cisco (9). A constructor takes the
  octets of its string argument, a 32-bit number, or an address.
\<close>

section \<open>Numbers\<close>

definition cisco_VendorID :: "32 word" where [vendor_num]: "cisco_VendorID = 9"
definition cisco_VendorTypeAVPair :: byte where [vendor_num]: "cisco_VendorTypeAVPair = 1"
definition cisco_VendorTypeNASPort :: byte where [vendor_num]: "cisco_VendorTypeNASPort = 2"
definition cisco_VendorTypeFaxAccountIDOrigin :: byte where [vendor_num]: "cisco_VendorTypeFaxAccountIDOrigin = 3"
definition cisco_VendorTypeFaxMsgID :: byte where [vendor_num]: "cisco_VendorTypeFaxMsgID = 4"
definition cisco_VendorTypeFaxPages :: byte where [vendor_num]: "cisco_VendorTypeFaxPages = 5"
definition cisco_VendorTypeFaxCoverpageFlag :: byte where [vendor_num]: "cisco_VendorTypeFaxCoverpageFlag = 6"
definition cisco_VendorTypeFaxModemTime :: byte where [vendor_num]: "cisco_VendorTypeFaxModemTime = 7"
definition cisco_VendorTypeFaxConnectSpeed :: byte where [vendor_num]: "cisco_VendorTypeFaxConnectSpeed = 8"
definition cisco_VendorTypeFaxRecipientCount :: byte where [vendor_num]: "cisco_VendorTypeFaxRecipientCount = 9"
definition cisco_VendorTypeFaxProcessAbortFlag :: byte where [vendor_num]: "cisco_VendorTypeFaxProcessAbortFlag = 10"
definition cisco_VendorTypeFaxDsnAddress :: byte where [vendor_num]: "cisco_VendorTypeFaxDsnAddress = 11"
definition cisco_VendorTypeFaxDsnFlag :: byte where [vendor_num]: "cisco_VendorTypeFaxDsnFlag = 12"
definition cisco_VendorTypeFaxMdnAddress :: byte where [vendor_num]: "cisco_VendorTypeFaxMdnAddress = 13"
definition cisco_VendorTypeFaxMdnFlag :: byte where [vendor_num]: "cisco_VendorTypeFaxMdnFlag = 14"
definition cisco_VendorTypeFaxAuthStatus :: byte where [vendor_num]: "cisco_VendorTypeFaxAuthStatus = 15"
definition cisco_VendorTypeEmailServerAddress :: byte where [vendor_num]: "cisco_VendorTypeEmailServerAddress = 16"
definition cisco_VendorTypeEmailServerAckFlag :: byte where [vendor_num]: "cisco_VendorTypeEmailServerAckFlag = 17"
definition cisco_VendorTypeFaxGatewayID :: byte where [vendor_num]: "cisco_VendorTypeFaxGatewayID = 18"
definition cisco_VendorTypeFaxCallType :: byte where [vendor_num]: "cisco_VendorTypeFaxCallType = 19"
definition cisco_VendorTypePortUsed :: byte where [vendor_num]: "cisco_VendorTypePortUsed = 20"
definition cisco_VendorTypeAbortCause :: byte where [vendor_num]: "cisco_VendorTypeAbortCause = 21"
definition cisco_VendorTypeH323RemoteGatewayID :: byte where [vendor_num]: "cisco_VendorTypeH323RemoteGatewayID = 23"
definition cisco_VendorTypeH323ConnectionID :: byte where [vendor_num]: "cisco_VendorTypeH323ConnectionID = 24"
definition cisco_VendorTypeH323SetupTime :: byte where [vendor_num]: "cisco_VendorTypeH323SetupTime = 25"
definition cisco_VendorTypeH323CallOrigin :: byte where [vendor_num]: "cisco_VendorTypeH323CallOrigin = 26"
definition cisco_VendorTypeH323CallType :: byte where [vendor_num]: "cisco_VendorTypeH323CallType = 27"
definition cisco_VendorTypeH323ConnectTime :: byte where [vendor_num]: "cisco_VendorTypeH323ConnectTime = 28"
definition cisco_VendorTypeH323DisconnectTime :: byte where [vendor_num]: "cisco_VendorTypeH323DisconnectTime = 29"
definition cisco_VendorTypeH323DisconnectCause :: byte where [vendor_num]: "cisco_VendorTypeH323DisconnectCause = 30"
definition cisco_VendorTypeH323VoiceQuality :: byte where [vendor_num]: "cisco_VendorTypeH323VoiceQuality = 31"
definition cisco_VendorTypeH323GatewayID :: byte where [vendor_num]: "cisco_VendorTypeH323GatewayID = 33"

section \<open>Constructors\<close>

definition cisco_New :: "byte \<Rightarrow> bytes \<Rightarrow> attribute" where
  "cisco_New vendorType v = NewVSA cisco_VendorID vendorType v"

definition cisco_NewAVPair :: "bytes \<Rightarrow> attribute" where
  "cisco_NewAVPair s = NewVSA cisco_VendorID cisco_VendorTypeAVPair s"

definition cisco_NewNASPort :: "bytes \<Rightarrow> attribute" where
  "cisco_NewNASPort s = NewVSA cisco_VendorID cisco_VendorTypeNASPort s"

definition cisco_NewFaxAccountIDOrigin :: "bytes \<Rightarrow> attribute" where
  "cisco_NewFaxAccountIDOrigin s = NewVSA cisco_VendorID cisco_VendorTypeFaxAccountIDOrigin s"

definition cisco_NewFaxMsgID :: "bytes \<Rightarrow> attribute" where
  "cisco_NewFaxMsgID s = NewVSA cisco_VendorID cisco_VendorTypeFaxMsgID s"

definition cisco_NewFaxPages :: "bytes \<Rightarrow> attribute" where
  "cisco_NewFaxPages s = NewVSA cisco_VendorID cisco_VendorTypeFaxPages s"

definition cisco_NewFaxCoverpageFlag :: "bytes \<Rightarrow> attribute" where
  "cisco_NewFaxCoverpageFlag s = NewVSA cisco_VendorID cisco_VendorTypeFaxCoverpageFlag s"

definition cisco_NewFaxModemTime :: "bytes \<Rightarrow> attribute" where
  "cisco_NewFaxModemTime s = NewVSA cisco_VendorID cisco_VendorTypeFaxModemTime s"

definition cisco_NewFaxConnectSpeed :: "bytes \<Rightarrow> attribute" where
  "cisco_NewFaxConnectSpeed s = NewVSA cisco_VendorID cisco_VendorTypeFaxConnectSpeed s"

definition cisco_NewFaxRecipientCount :: "bytes \<Rightarrow> attribute" where
  "cisco_NewFaxRecipientCount s = NewVSA cisco_VendorID cisco_VendorTypeFaxRecipientCount s"

definition cisco_NewFaxProcessAbortFlag :: "bytes \<Rightarrow> attribute" where
  "cisco_NewFaxProcessAbortFlag s = NewVSA cisco_VendorID cisco_VendorTypeFaxProcessAbortFlag s"

definition cisco_NewFaxDsnAddress :: "bytes \<Rightarrow> attribute" where
  "cisco_NewFaxDsnAddress s = NewVSA cisco_VendorID cisco_VendorTypeFaxDsnAddress s"

definition cisco_NewFaxDsnFlag :: "bytes \<Rightarrow> attribute" where
  "cisco_NewFaxDsnFlag s = NewVSA cisco_VendorID cisco_VendorTypeFaxDsnFlag s"

definition cisco_NewFaxMdnAddress :: "bytes \<Rightarrow> attribute" where
  "cisco_NewFaxMdnAddress s = NewVSA cisco_VendorID cisco_VendorTypeFaxMdnAddress s"

definition cisco_NewFaxMdnFlag :: "bytes \<Rightarrow> attribute" where
  "cisco_NewFaxMdnFlag s = NewVSA cisco_VendorID cisco_VendorTypeFaxMdnFlag s"

definition cisco_NewFaxAuthStatus :: "bytes \<Rightarrow> attribute" where
  "cisco_NewFaxAuthStatus s = NewVSA cisco_VendorID cisco_VendorTypeFaxAuthStatus s"

definition cisco_NewEmailServerAddress :: "bytes \<Rightarrow> attribute" where
  "cisco_NewEmailServerAddress s = NewVSA cisco_VendorID cisco_VendorTypeEmailServerAddress s"

definition cisco_NewEmailServerAckFlag :: "bytes \<Rightarrow> attribute" where
  "cisco_NewEmailServerAckFlag s = NewVSA cisco_VendorID cisco_VendorTypeEmailServerAckFlag s"

definition cisco_NewFaxGatewayID :: "bytes \<Rightarrow> attribute" where
  "cisco_NewFaxGatewayID s = NewVSA cisco_VendorID cisco_VendorTypeFaxGatewayID s"

definition cisco_NewFaxCallType :: "bytes \<Rightarrow> attribute" where
  "cisco_NewFaxCallType s = NewVSA cisco_VendorID cisco_VendorTypeFaxCallType s"

definition cisco_NewPortUsed :: "bytes \<Rightarrow> attribute" where
  "cisco_NewPortUsed s = NewVSA cisco_VendorID cisco_VendorTypePortUsed s"

definition cisco_NewAbortCause :: "bytes \<Rightarrow> attribute" where
  "cisco_NewAbortCause s = NewVSA cisco_VendorID cisco_VendorTypeAbortCause s"

definition cisco_NewH323RemoteGatewayID :: "bytes \<Rightarrow> attribute" where
  "cisco_NewH323RemoteGatewayID s = NewVSA cisco_VendorID cisco_VendorTypeH323RemoteGatewayID s"

definition cisco_NewH323ConnectionID :: "bytes \<Rightarrow> attribute" where
  "cisco_NewH323ConnectionID s = NewVSA cisco_VendorID cisco_VendorTypeH323ConnectionID s"

definition cisco_NewH323SetupTime :: "bytes \<Rightarrow> attribute" where
  "cisco_NewH323SetupTime s = NewVSA cisco_VendorID cisco_VendorTypeH323SetupTime s"

definition cisco_NewH323CallOrigin :: "bytes \<Rightarrow> attribute" where
  "cisco_NewH323CallOrigin s = NewVSA cisco_VendorID cisco_VendorTypeH323CallOrigin s"

definition cisco_NewH323CallType :: "bytes \<Rightarrow> attribute" where
  "cisco_NewH323CallType s = NewVSA cisco_VendorID cisco_VendorTypeH323CallType s"

definition cisco_NewH323ConnectTime :: "bytes \<Rightarrow> attribute" where
  "cisco_NewH323ConnectTime s = NewVSA cisco_VendorID cisco_VendorTypeH323ConnectTime s"

definition cisco_NewH323DisconnectTime :: "bytes \<Rightarrow> attribute" where
  "cisco_NewH323DisconnectTime s = NewVSA cisco_VendorID cisco_VendorTypeH323DisconnectTime s"

definition cisco_NewH323DisconnectCause :: "bytes \<Rightarrow> attribute" where
  "cisco_NewH323DisconnectCause s = NewVSA cisco_VendorID cisco_VendorTypeH323DisconnectCause s"

definition cisco_NewH323VoiceQuality :: "bytes \<Rightarrow> attribute" where
  "cisco_NewH323VoiceQuality s = NewVSA cisco_VendorID cisco_VendorTypeH323VoiceQuality s"

definition cisco_NewH323GatewayID :: "bytes \<Rightarrow> attribute" where
  "cisco_NewH323GatewayID s = NewVSA cisco_VendorID cisco_VendorTypeH323GatewayID s"

definition cisco_Decode :: "attribute \<Rightarrow> (byte \<times> bytes) option" where
  "cisco_Decode attr = MatchVSA attr cisco_VendorID"


section \<open>Every constructor is read back\<close>

definition cisco_string_ctors :: "((bytes \<Rightarrow> attribute) \<times> byte) list" where
  "cisco_string_ctors =
    [(cisco_NewAVPair, cisco_VendorTypeAVPair),
     (cisco_NewNASPort, cisco_VendorTypeNASPort),
     (cisco_NewFaxAccountIDOrigin, cisco_VendorTypeFaxAccountIDOrigin),
     (cisco_NewFaxMsgID, cisco_VendorTypeFaxMsgID),
     (cisco_NewFaxPages, cisco_VendorTypeFaxPages),
     (cisco_NewFaxCoverpageFlag, cisco_VendorTypeFaxCoverpageFlag),
     (cisco_NewFaxModemTime, cisco_VendorTypeFaxModemTime),
     (cisco_NewFaxConnectSpeed, cisco_VendorTypeFaxConnectSpeed),
     (cisco_NewFaxRecipientCount, cisco_VendorTypeFaxRecipientCount),
     (cisco_NewFaxProcessAbortFlag, cisco_VendorTypeFaxProcessAbortFlag),
     (cisco_NewFaxDsnAddress, cisco_VendorTypeFaxDsnAddress),
     (cisco_NewFaxDsnFlag, cisco_VendorTypeFaxDsnFlag),
     (cisco_NewFaxMdnAddress, cisco_VendorTypeFaxMdnAddress),
     (cisco_NewFaxMdnFlag, cisco_VendorTypeFaxMdnFlag),
     (cisco_NewFaxAuthStatus, cisco_VendorTypeFaxAuthStatus),
     (cisco_NewEmailServerAddress, cisco_VendorTypeEmailServerAddress),
     (cisco_NewEmailServerAckFlag, cisco_VendorTypeEmailServerAckFlag),
     (cisco_NewFaxGatewayID, cisco_VendorTypeFaxGatewayID),
     (cisco_NewFaxCallType, cisco_VendorTypeFaxCallType),
     (cisco_NewPortUsed, cisco_VendorTypePortUsed),
     (cisco_NewAbortCause, cisco_VendorTypeAbortCause),
     (cisco_NewH323RemoteGatewayID, cisco_VendorTypeH323RemoteGatewayID),
     (cisco_NewH323ConnectionID, cisco_VendorTypeH323ConnectionID),
     (cisco_NewH323SetupTime, cisco_VendorTypeH323SetupTime),
     (cisco_NewH323CallOrigin, cisco_VendorTypeH323CallOrigin),
     (cisco_NewH323CallType, cisco_VendorTypeH323CallType),
     (cisco_NewH323ConnectTime, cisco_VendorTypeH323ConnectTime),
     (cisco_NewH323DisconnectTime, cisco_VendorTypeH323DisconnectTime),
     (cisco_NewH323DisconnectCause, cisco_VendorTypeH323DisconnectCause),
     (cisco_NewH323VoiceQuality, cisco_VendorTypeH323VoiceQuality),
     (cisco_NewH323GatewayID, cisco_VendorTypeH323GatewayID)]"

interpretation cisco: vendor_package cisco_VendorID cisco_New cisco_Decode
  by unfold_locales (simp_all add: cisco_New_def cisco_Decode_def)

lemma cisco_string_ctors_read: "list_all (builds cisco_Decode (\<lambda>s. s)) cisco_string_ctors"
  by (simp add: builds_def cisco_string_ctors_def ctor_wire 
      cisco.decode_new cisco_NewAVPair_def cisco_NewNASPort_def cisco_NewFaxAccountIDOrigin_def cisco_NewFaxMsgID_def
      cisco_NewFaxPages_def cisco_NewFaxCoverpageFlag_def cisco_NewFaxModemTime_def cisco_NewFaxConnectSpeed_def
      cisco_NewFaxRecipientCount_def cisco_NewFaxProcessAbortFlag_def cisco_NewFaxDsnAddress_def cisco_NewFaxDsnFlag_def
      cisco_NewFaxMdnAddress_def cisco_NewFaxMdnFlag_def cisco_NewFaxAuthStatus_def cisco_NewEmailServerAddress_def
      cisco_NewEmailServerAckFlag_def cisco_NewFaxGatewayID_def cisco_NewFaxCallType_def cisco_NewPortUsed_def
      cisco_NewAbortCause_def cisco_NewH323RemoteGatewayID_def cisco_NewH323ConnectionID_def cisco_NewH323SetupTime_def
      cisco_NewH323CallOrigin_def cisco_NewH323CallType_def cisco_NewH323ConnectTime_def cisco_NewH323DisconnectTime_def
      cisco_NewH323DisconnectCause_def cisco_NewH323VoiceQuality_def cisco_NewH323GatewayID_def)

lemma cisco_sub_types_distinct: "distinct (map snd cisco_string_ctors)"
  by (simp add: cisco_string_ctors_def vendor_num)

end
