(* ===== verification/Juniper.thy ===== *)
theory Juniper
  imports Vsa
begin

text \<open>
  \<open>vendors/juniper/juniper.go\<close>: the vendor-specific attributes of Juniper (2636). A constructor takes the
  octets of its string argument, a 32-bit number, or an address.
\<close>

section \<open>Numbers\<close>

definition juniper_VendorID :: "32 word" where [vendor_num]: "juniper_VendorID = 2636"
definition juniper_VendorTypeLocalUserName :: byte where [vendor_num]: "juniper_VendorTypeLocalUserName = 1"
definition juniper_VendorTypeAllowCommand :: byte where [vendor_num]: "juniper_VendorTypeAllowCommand = 2"
definition juniper_VendorTypeDenyCommand :: byte where [vendor_num]: "juniper_VendorTypeDenyCommand = 3"
definition juniper_VendorTypeAllowConfiguration :: byte where [vendor_num]: "juniper_VendorTypeAllowConfiguration = 4"
definition juniper_VendorTypeDenyConfiguration :: byte where [vendor_num]: "juniper_VendorTypeDenyConfiguration = 5"
definition juniper_VendorTypeInteractiveCommand :: byte where [vendor_num]: "juniper_VendorTypeInteractiveCommand = 8"
definition juniper_VendorTypeConfigurationChange :: byte where [vendor_num]: "juniper_VendorTypeConfigurationChange = 9"
definition juniper_VendorTypeUserPermissions :: byte where [vendor_num]: "juniper_VendorTypeUserPermissions = 10"
definition juniper_VendorTypeAuthenticationType :: byte where [vendor_num]: "juniper_VendorTypeAuthenticationType = 11"
definition juniper_VendorTypeSessionPort :: byte where [vendor_num]: "juniper_VendorTypeSessionPort = 12"
definition juniper_VendorTypeAllowConfigurationRegexps :: byte where [vendor_num]: "juniper_VendorTypeAllowConfigurationRegexps = 13"
definition juniper_VendorTypeDenyConfigurationRegexps :: byte where [vendor_num]: "juniper_VendorTypeDenyConfigurationRegexps = 14"
definition juniper_AuthenticationTypeLocal :: string where "juniper_AuthenticationTypeLocal = ''local''"
definition juniper_AuthenticationTypeRemote :: string where "juniper_AuthenticationTypeRemote = ''remote''"

section \<open>Constructors\<close>

definition juniper_New :: "byte \<Rightarrow> bytes \<Rightarrow> attribute" where
  "juniper_New vendorType v = NewVSA juniper_VendorID vendorType v"

definition juniper_NewLocalUserName :: "bytes \<Rightarrow> attribute" where
  "juniper_NewLocalUserName s = NewVSA juniper_VendorID juniper_VendorTypeLocalUserName s"

definition juniper_NewAllowCommand :: "bytes \<Rightarrow> attribute" where
  "juniper_NewAllowCommand s = NewVSA juniper_VendorID juniper_VendorTypeAllowCommand s"

definition juniper_NewDenyCommand :: "bytes \<Rightarrow> attribute" where
  "juniper_NewDenyCommand s = NewVSA juniper_VendorID juniper_VendorTypeDenyCommand s"

definition juniper_NewAllowConfiguration :: "bytes \<Rightarrow> attribute" where
  "juniper_NewAllowConfiguration s = NewVSA juniper_VendorID juniper_VendorTypeAllowConfiguration s"

definition juniper_NewDenyConfiguration :: "bytes \<Rightarrow> attribute" where
  "juniper_NewDenyConfiguration s = NewVSA juniper_VendorID juniper_VendorTypeDenyConfiguration s"

definition juniper_NewInteractiveCommand :: "bytes \<Rightarrow> attribute" where
  "juniper_NewInteractiveCommand s = NewVSA juniper_VendorID juniper_VendorTypeInteractiveCommand s"

definition juniper_NewConfigurationChange :: "bytes \<Rightarrow> attribute" where
  "juniper_NewConfigurationChange s = NewVSA juniper_VendorID juniper_VendorTypeConfigurationChange s"

definition juniper_NewUserPermissions :: "bytes \<Rightarrow> attribute" where
  "juniper_NewUserPermissions s = NewVSA juniper_VendorID juniper_VendorTypeUserPermissions s"

definition juniper_NewAuthenticationType :: "bytes \<Rightarrow> attribute" where
  "juniper_NewAuthenticationType s = NewVSA juniper_VendorID juniper_VendorTypeAuthenticationType s"

definition juniper_NewSessionPort :: "32 word \<Rightarrow> attribute" where
  "juniper_NewSessionPort n = NewVSA juniper_VendorID juniper_VendorTypeSessionPort (BE_PutUint32 n)"

definition juniper_NewAllowConfigurationRegexps :: "bytes \<Rightarrow> attribute" where
  "juniper_NewAllowConfigurationRegexps s = NewVSA juniper_VendorID juniper_VendorTypeAllowConfigurationRegexps s"

definition juniper_NewDenyConfigurationRegexps :: "bytes \<Rightarrow> attribute" where
  "juniper_NewDenyConfigurationRegexps s = NewVSA juniper_VendorID juniper_VendorTypeDenyConfigurationRegexps s"

definition juniper_Decode :: "attribute \<Rightarrow> (byte \<times> bytes) option" where
  "juniper_Decode attr = MatchVSA attr juniper_VendorID"


section \<open>Every constructor is read back\<close>

definition juniper_string_ctors :: "((bytes \<Rightarrow> attribute) \<times> byte) list" where
  "juniper_string_ctors =
    [(juniper_NewLocalUserName, juniper_VendorTypeLocalUserName),
     (juniper_NewAllowCommand, juniper_VendorTypeAllowCommand),
     (juniper_NewDenyCommand, juniper_VendorTypeDenyCommand),
     (juniper_NewAllowConfiguration, juniper_VendorTypeAllowConfiguration),
     (juniper_NewDenyConfiguration, juniper_VendorTypeDenyConfiguration),
     (juniper_NewInteractiveCommand, juniper_VendorTypeInteractiveCommand),
     (juniper_NewConfigurationChange, juniper_VendorTypeConfigurationChange),
     (juniper_NewUserPermissions, juniper_VendorTypeUserPermissions),
     (juniper_NewAuthenticationType, juniper_VendorTypeAuthenticationType),
     (juniper_NewAllowConfigurationRegexps, juniper_VendorTypeAllowConfigurationRegexps),
     (juniper_NewDenyConfigurationRegexps, juniper_VendorTypeDenyConfigurationRegexps)]"

definition juniper_int_ctors :: "((32 word \<Rightarrow> attribute) \<times> byte) list" where
  "juniper_int_ctors =
    [(juniper_NewSessionPort, juniper_VendorTypeSessionPort)]"

interpretation juniper: vendor_package juniper_VendorID juniper_New juniper_Decode
  by unfold_locales (simp_all add: juniper_New_def juniper_Decode_def)

lemma juniper_string_ctors_read: "list_all (builds juniper_Decode (\<lambda>s. s)) juniper_string_ctors"
  by (simp add: builds_def juniper_string_ctors_def ctor_wire 
      juniper.decode_new juniper_NewLocalUserName_def juniper_NewAllowCommand_def juniper_NewDenyCommand_def juniper_NewAllowConfiguration_def
      juniper_NewDenyConfiguration_def juniper_NewInteractiveCommand_def juniper_NewConfigurationChange_def juniper_NewUserPermissions_def
      juniper_NewAuthenticationType_def juniper_NewAllowConfigurationRegexps_def juniper_NewDenyConfigurationRegexps_def)

lemma juniper_int_ctors_read: "list_all (builds juniper_Decode BE_PutUint32) juniper_int_ctors"
  by (simp add: builds_def juniper_int_ctors_def ctor_wire 
      juniper.decode_new juniper_NewSessionPort_def)

lemma juniper_sub_types_distinct: "distinct (map snd juniper_string_ctors @ map snd juniper_int_ctors)"
  by (simp add: juniper_string_ctors_def juniper_int_ctors_def vendor_num)

end
