(* ===== verification/PaloAlto.thy ===== *)
theory PaloAlto
  imports Vsa
begin

text \<open>
  \<open>vendors/paloalto/paloalto.go\<close>: the vendor-specific attributes of Palo Alto Networks (25461). A constructor takes the
  octets of its string argument, a 32-bit number, or an address.
\<close>

section \<open>Numbers\<close>

definition paloalto_VendorID :: "32 word" where [vendor_num]: "paloalto_VendorID = 25461"
definition paloalto_VendorTypeAdminRole :: byte where [vendor_num]: "paloalto_VendorTypeAdminRole = 1"
definition paloalto_VendorTypeAdminAccessDomain :: byte where [vendor_num]: "paloalto_VendorTypeAdminAccessDomain = 2"
definition paloalto_VendorTypePanoramaAdminRole :: byte where [vendor_num]: "paloalto_VendorTypePanoramaAdminRole = 3"
definition paloalto_VendorTypePanoramaAdminAccessDomain :: byte where [vendor_num]: "paloalto_VendorTypePanoramaAdminAccessDomain = 4"
definition paloalto_VendorTypeUserGroup :: byte where [vendor_num]: "paloalto_VendorTypeUserGroup = 5"
definition paloalto_VendorTypeUserDomain :: byte where [vendor_num]: "paloalto_VendorTypeUserDomain = 6"
definition paloalto_VendorTypeClientSourceIP :: byte where [vendor_num]: "paloalto_VendorTypeClientSourceIP = 7"
definition paloalto_VendorTypeClientOS :: byte where [vendor_num]: "paloalto_VendorTypeClientOS = 8"
definition paloalto_VendorTypeClientHostname :: byte where [vendor_num]: "paloalto_VendorTypeClientHostname = 9"
definition paloalto_VendorTypeGlobalProtectClientVersion :: byte where [vendor_num]: "paloalto_VendorTypeGlobalProtectClientVersion = 10"

section \<open>Constructors\<close>

definition paloalto_newStrVSA :: "byte \<Rightarrow> bytes \<Rightarrow> attribute" where
  "paloalto_newStrVSA vt s = NewVSA paloalto_VendorID vt s"

definition paloalto_New :: "byte \<Rightarrow> bytes \<Rightarrow> attribute" where
  "paloalto_New vendorType v = NewVSA paloalto_VendorID vendorType v"

definition paloalto_NewAdminRole :: "bytes \<Rightarrow> attribute" where
  "paloalto_NewAdminRole s = paloalto_newStrVSA paloalto_VendorTypeAdminRole s"

definition paloalto_NewAdminAccessDomain :: "bytes \<Rightarrow> attribute" where
  "paloalto_NewAdminAccessDomain s = paloalto_newStrVSA paloalto_VendorTypeAdminAccessDomain s"

definition paloalto_NewPanoramaAdminRole :: "bytes \<Rightarrow> attribute" where
  "paloalto_NewPanoramaAdminRole s = paloalto_newStrVSA paloalto_VendorTypePanoramaAdminRole s"

definition paloalto_NewPanoramaAdminAccessDomain :: "bytes \<Rightarrow> attribute" where
  "paloalto_NewPanoramaAdminAccessDomain s = paloalto_newStrVSA paloalto_VendorTypePanoramaAdminAccessDomain s"

definition paloalto_NewUserGroup :: "bytes \<Rightarrow> attribute" where
  "paloalto_NewUserGroup s = paloalto_newStrVSA paloalto_VendorTypeUserGroup s"

definition paloalto_NewUserDomain :: "bytes \<Rightarrow> attribute" where
  "paloalto_NewUserDomain s = paloalto_newStrVSA paloalto_VendorTypeUserDomain s"

definition paloalto_NewClientSourceIP :: "bytes \<Rightarrow> attribute" where
  "paloalto_NewClientSourceIP s = paloalto_newStrVSA paloalto_VendorTypeClientSourceIP s"

definition paloalto_NewClientOS :: "bytes \<Rightarrow> attribute" where
  "paloalto_NewClientOS s = paloalto_newStrVSA paloalto_VendorTypeClientOS s"

definition paloalto_NewClientHostname :: "bytes \<Rightarrow> attribute" where
  "paloalto_NewClientHostname s = paloalto_newStrVSA paloalto_VendorTypeClientHostname s"

definition paloalto_NewGlobalProtectClientVersion :: "bytes \<Rightarrow> attribute" where
  "paloalto_NewGlobalProtectClientVersion s = paloalto_newStrVSA paloalto_VendorTypeGlobalProtectClientVersion s"

definition paloalto_Decode :: "attribute \<Rightarrow> (byte \<times> bytes) option" where
  "paloalto_Decode attr = MatchVSA attr paloalto_VendorID"


section \<open>Every constructor is read back\<close>

definition paloalto_string_ctors :: "((bytes \<Rightarrow> attribute) \<times> byte) list" where
  "paloalto_string_ctors =
    [(paloalto_NewAdminRole, paloalto_VendorTypeAdminRole),
     (paloalto_NewAdminAccessDomain, paloalto_VendorTypeAdminAccessDomain),
     (paloalto_NewPanoramaAdminRole, paloalto_VendorTypePanoramaAdminRole),
     (paloalto_NewPanoramaAdminAccessDomain, paloalto_VendorTypePanoramaAdminAccessDomain),
     (paloalto_NewUserGroup, paloalto_VendorTypeUserGroup),
     (paloalto_NewUserDomain, paloalto_VendorTypeUserDomain),
     (paloalto_NewClientSourceIP, paloalto_VendorTypeClientSourceIP),
     (paloalto_NewClientOS, paloalto_VendorTypeClientOS),
     (paloalto_NewClientHostname, paloalto_VendorTypeClientHostname),
     (paloalto_NewGlobalProtectClientVersion, paloalto_VendorTypeGlobalProtectClientVersion)]"

interpretation paloalto: vendor_package paloalto_VendorID paloalto_New paloalto_Decode
  by unfold_locales (simp_all add: paloalto_New_def paloalto_Decode_def)

lemma paloalto_string_ctors_read: "list_all (builds paloalto_Decode (\<lambda>s. s)) paloalto_string_ctors"
  by (simp add: builds_def paloalto_string_ctors_def ctor_wire paloalto_newStrVSA_def
      paloalto.decode_new paloalto_NewAdminRole_def paloalto_NewAdminAccessDomain_def paloalto_NewPanoramaAdminRole_def paloalto_NewPanoramaAdminAccessDomain_def
      paloalto_NewUserGroup_def paloalto_NewUserDomain_def paloalto_NewClientSourceIP_def paloalto_NewClientOS_def
      paloalto_NewClientHostname_def paloalto_NewGlobalProtectClientVersion_def)

lemma paloalto_sub_types_distinct: "distinct (map snd paloalto_string_ctors)"
  by (simp add: paloalto_string_ctors_def vendor_num)

end
