(* ===== verification/Redback.thy ===== *)
theory Redback
  imports Vsa
begin

text \<open>
  \<open>vendors/redback/redback.go\<close>: the vendor-specific attributes of Redback (2352). A constructor takes the
  octets of its string argument, a 32-bit number, or an address.
\<close>

section \<open>Numbers\<close>

definition redback_VendorID :: "32 word" where [vendor_num]: "redback_VendorID = 2352"
definition redback_VendorTypeContextName :: byte where [vendor_num]: "redback_VendorTypeContextName = 1"
definition redback_VendorTypeLocalAddress :: byte where [vendor_num]: "redback_VendorTypeLocalAddress = 3"
definition redback_VendorTypeApplyAccessList :: byte where [vendor_num]: "redback_VendorTypeApplyAccessList = 4"
definition redback_VendorTypeSessionTimeoutAction :: byte where [vendor_num]: "redback_VendorTypeSessionTimeoutAction = 5"

section \<open>Constructors\<close>

definition redback_New :: "byte \<Rightarrow> bytes \<Rightarrow> attribute" where
  "redback_New vendorType v = NewVSA redback_VendorID vendorType v"

definition redback_NewContextName :: "bytes \<Rightarrow> attribute" where
  "redback_NewContextName s = NewVSA redback_VendorID redback_VendorTypeContextName s"

definition redback_Decode :: "attribute \<Rightarrow> (byte \<times> bytes) option" where
  "redback_Decode attr = MatchVSA attr redback_VendorID"


section \<open>Every constructor is read back\<close>

definition redback_string_ctors :: "((bytes \<Rightarrow> attribute) \<times> byte) list" where
  "redback_string_ctors =
    [(redback_NewContextName, redback_VendorTypeContextName)]"

interpretation redback: vendor_package redback_VendorID redback_New redback_Decode
  by unfold_locales (simp_all add: redback_New_def redback_Decode_def)

lemma redback_string_ctors_read: "list_all (builds redback_Decode (\<lambda>s. s)) redback_string_ctors"
  by (simp add: builds_def redback_string_ctors_def ctor_wire 
      redback.decode_new redback_NewContextName_def)

lemma redback_sub_types_distinct: "distinct (map snd redback_string_ctors)"
  by (simp add: redback_string_ctors_def vendor_num)

end
