(* ===== verification/Alcatel.thy ===== *)
theory Alcatel
  imports Vsa
begin

text \<open>
  \<open>vendors/alcatel/alcatel.go\<close>: the vendor-specific attributes of Alcatel (3041). A constructor takes the
  octets of its string argument, a 32-bit number, or an address.
\<close>

section \<open>Numbers\<close>

definition alcatel_VendorID :: "32 word" where [vendor_num]: "alcatel_VendorID = 3041"
definition alcatel_VendorTypeUPGroupID :: byte where [vendor_num]: "alcatel_VendorTypeUPGroupID = 1"
definition alcatel_VendorTypeUPClientType :: byte where [vendor_num]: "alcatel_VendorTypeUPClientType = 2"
definition alcatel_VendorTypeUPClientMode :: byte where [vendor_num]: "alcatel_VendorTypeUPClientMode = 3"

section \<open>Constructors\<close>

definition alcatel_New :: "byte \<Rightarrow> bytes \<Rightarrow> attribute" where
  "alcatel_New vendorType v = NewVSA alcatel_VendorID vendorType v"

definition alcatel_Decode :: "attribute \<Rightarrow> (byte \<times> bytes) option" where
  "alcatel_Decode attr = MatchVSA attr alcatel_VendorID"


section \<open>Every constructor is read back\<close>

interpretation alcatel: vendor_package alcatel_VendorID alcatel_New alcatel_Decode
  by unfold_locales (simp_all add: alcatel_New_def alcatel_Decode_def)

end
