(* ===== verification/Des.thy ===== *)
theory Des
  imports Prelude
begin

text \<open>
  \<open>crypto/des\<close> of Go's standard library: the DES block cipher (FIPS 46-3) on bit lists, most
  significant bit first. The tables are numbered from 1 as the standard prints them. The low
  bit of every key octet is not selected by PC-1. One published vector is evaluated.
\<close>

type_synonym bits = "bool list"

definition byte_bits :: "byte \<Rightarrow> bits" where
  "byte_bits b = map (\<lambda>i. bit b (7 - i)) [0..<8]"

definition bytes_bits :: "bytes \<Rightarrow> bits" where
  "bytes_bits bs = concat (map byte_bits bs)"

definition bits_byte :: "bits \<Rightarrow> byte" where
  "bits_byte bs = foldl (\<lambda>acc b. 2 * acc + (if b then 1 else 0)) 0 bs"

definition select :: "nat list \<Rightarrow> bits \<Rightarrow> bits" where
  "select table bs = map (\<lambda>i. bs ! (i - 1)) table"

section \<open>Tables\<close>

definition des_IP :: "nat list" where
  "des_IP =
    [58, 50, 42, 34, 26, 18, 10, 2, 60, 52, 44, 36, 28, 20, 12, 4,
     62, 54, 46, 38, 30, 22, 14, 6, 64, 56, 48, 40, 32, 24, 16, 8,
     57, 49, 41, 33, 25, 17, 9, 1, 59, 51, 43, 35, 27, 19, 11, 3,
     61, 53, 45, 37, 29, 21, 13, 5, 63, 55, 47, 39, 31, 23, 15, 7]"

definition des_FP :: "nat list" where
  "des_FP =
    [40, 8, 48, 16, 56, 24, 64, 32, 39, 7, 47, 15, 55, 23, 63, 31,
     38, 6, 46, 14, 54, 22, 62, 30, 37, 5, 45, 13, 53, 21, 61, 29,
     36, 4, 44, 12, 52, 20, 60, 28, 35, 3, 43, 11, 51, 19, 59, 27,
     34, 2, 42, 10, 50, 18, 58, 26, 33, 1, 41, 9, 49, 17, 57, 25]"

definition des_E :: "nat list" where
  "des_E =
    [32, 1, 2, 3, 4, 5, 4, 5, 6, 7, 8, 9, 8, 9, 10, 11,
     12, 13, 12, 13, 14, 15, 16, 17, 16, 17, 18, 19, 20, 21, 20, 21,
     22, 23, 24, 25, 24, 25, 26, 27, 28, 29, 28, 29, 30, 31, 32, 1]"

definition des_P :: "nat list" where
  "des_P =
    [16, 7, 20, 21, 29, 12, 28, 17, 1, 15, 23, 26, 5, 18, 31, 10,
     2, 8, 24, 14, 32, 27, 3, 9, 19, 13, 30, 6, 22, 11, 4, 25]"

definition des_PC1 :: "nat list" where
  "des_PC1 =
    [57, 49, 41, 33, 25, 17, 9, 1, 58, 50, 42, 34, 26, 18,
     10, 2, 59, 51, 43, 35, 27, 19, 11, 3, 60, 52, 44, 36,
     63, 55, 47, 39, 31, 23, 15, 7, 62, 54, 46, 38, 30, 22,
     14, 6, 61, 53, 45, 37, 29, 21, 13, 5, 28, 20, 12, 4]"

definition des_PC2 :: "nat list" where
  "des_PC2 =
    [14, 17, 11, 24, 1, 5, 3, 28, 15, 6, 21, 10,
     23, 19, 12, 4, 26, 8, 16, 7, 27, 20, 13, 2,
     41, 52, 31, 37, 47, 55, 30, 40, 51, 45, 33, 48,
     44, 49, 39, 56, 34, 53, 46, 42, 50, 36, 29, 32]"

definition des_rotations :: "nat list" where
  "des_rotations =
    [1, 1, 2, 2, 2, 2, 2, 2, 1, 2, 2, 2, 2, 2, 2, 1]"

definition des_S :: "nat list list" where
  "des_S =
    [[14, 4, 13, 1, 2, 15, 11, 8, 3, 10, 6, 12, 5, 9, 0, 7,
      0, 15, 7, 4, 14, 2, 13, 1, 10, 6, 12, 11, 9, 5, 3, 8,
      4, 1, 14, 8, 13, 6, 2, 11, 15, 12, 9, 7, 3, 10, 5, 0,
      15, 12, 8, 2, 4, 9, 1, 7, 5, 11, 3, 14, 10, 0, 6, 13],
     [15, 1, 8, 14, 6, 11, 3, 4, 9, 7, 2, 13, 12, 0, 5, 10,
      3, 13, 4, 7, 15, 2, 8, 14, 12, 0, 1, 10, 6, 9, 11, 5,
      0, 14, 7, 11, 10, 4, 13, 1, 5, 8, 12, 6, 9, 3, 2, 15,
      13, 8, 10, 1, 3, 15, 4, 2, 11, 6, 7, 12, 0, 5, 14, 9],
     [10, 0, 9, 14, 6, 3, 15, 5, 1, 13, 12, 7, 11, 4, 2, 8,
      13, 7, 0, 9, 3, 4, 6, 10, 2, 8, 5, 14, 12, 11, 15, 1,
      13, 6, 4, 9, 8, 15, 3, 0, 11, 1, 2, 12, 5, 10, 14, 7,
      1, 10, 13, 0, 6, 9, 8, 7, 4, 15, 14, 3, 11, 5, 2, 12],
     [7, 13, 14, 3, 0, 6, 9, 10, 1, 2, 8, 5, 11, 12, 4, 15,
      13, 8, 11, 5, 6, 15, 0, 3, 4, 7, 2, 12, 1, 10, 14, 9,
      10, 6, 9, 0, 12, 11, 7, 13, 15, 1, 3, 14, 5, 2, 8, 4,
      3, 15, 0, 6, 10, 1, 13, 8, 9, 4, 5, 11, 12, 7, 2, 14],
     [2, 12, 4, 1, 7, 10, 11, 6, 8, 5, 3, 15, 13, 0, 14, 9,
      14, 11, 2, 12, 4, 7, 13, 1, 5, 0, 15, 10, 3, 9, 8, 6,
      4, 2, 1, 11, 10, 13, 7, 8, 15, 9, 12, 5, 6, 3, 0, 14,
      11, 8, 12, 7, 1, 14, 2, 13, 6, 15, 0, 9, 10, 4, 5, 3],
     [12, 1, 10, 15, 9, 2, 6, 8, 0, 13, 3, 4, 14, 7, 5, 11,
      10, 15, 4, 2, 7, 12, 9, 5, 6, 1, 13, 14, 0, 11, 3, 8,
      9, 14, 15, 5, 2, 8, 12, 3, 7, 0, 4, 10, 1, 13, 11, 6,
      4, 3, 2, 12, 9, 5, 15, 10, 11, 14, 1, 7, 6, 0, 8, 13],
     [4, 11, 2, 14, 15, 0, 8, 13, 3, 12, 9, 7, 5, 10, 6, 1,
      13, 0, 11, 7, 4, 9, 1, 10, 14, 3, 5, 12, 2, 15, 8, 6,
      1, 4, 11, 13, 12, 3, 7, 14, 10, 15, 6, 8, 0, 5, 9, 2,
      6, 11, 13, 8, 1, 4, 10, 7, 9, 5, 0, 15, 14, 2, 3, 12],
     [13, 2, 8, 4, 6, 15, 11, 1, 10, 9, 3, 14, 5, 0, 12, 7,
      1, 15, 13, 8, 10, 3, 7, 4, 12, 5, 6, 11, 0, 14, 9, 2,
      7, 11, 4, 1, 9, 12, 14, 2, 0, 6, 10, 13, 15, 3, 5, 8,
      2, 1, 14, 7, 4, 10, 8, 13, 15, 12, 9, 0, 3, 5, 6, 11]]"

section \<open>Rounds\<close>

text \<open>The 16 round keys; the two halves rotate left.\<close>

fun des_keys :: "nat list \<Rightarrow> bits \<Rightarrow> bits \<Rightarrow> bits list" where
  "des_keys [] c d = []"
| "des_keys (r # rs) c d =
    select des_PC2 (rotate r c @ rotate r d) # des_keys rs (rotate r c) (rotate r d)"

definition nibble :: "nat \<Rightarrow> bits" where
  "nibble v = [v div 8 mod 2 = 1, v div 4 mod 2 = 1, v div 2 mod 2 = 1, v mod 2 = 1]"

text \<open>
  The outer bits of a group of six select a row of sixteen, the inner four the column.
\<close>

definition half :: "bool \<Rightarrow> nat list \<Rightarrow> nat list" where
  "half b xs = (if b then drop (length xs div 2) xs else take (length xs div 2) xs)"

fun des_sbox :: "nat list \<Rightarrow> bits \<Rightarrow> bits" where
  "des_sbox s [a, b, c, d, e, f] = nibble (hd (half e (half d (half c (half b (half f (half a s)))))))"
| "des_sbox s _ = []"

fun des_sboxes :: "nat list list \<Rightarrow> bits \<Rightarrow> bits" where
  "des_sboxes [] x = []"
| "des_sboxes (s # ss) x = des_sbox s (take 6 x) @ des_sboxes ss (drop 6 x)"

definition des_f :: "bits \<Rightarrow> bits \<Rightarrow> bits" where
  "des_f r k = select des_P (des_sboxes des_S (map2 (\<noteq>) (select des_E r) k))"

fun des_rounds :: "bits list \<Rightarrow> bits \<Rightarrow> bits \<Rightarrow> bits" where
  "des_rounds [] l r = r @ l"
| "des_rounds (k # ks) l r = des_rounds ks r (map2 (\<noteq>) l (des_f r k))"

fun bits_bytes :: "nat \<Rightarrow> bits \<Rightarrow> bytes" where
  "bits_bytes 0 bs = []"
| "bits_bytes (Suc n) bs = bits_byte (take 8 bs) # bits_bytes n (drop 8 bs)"

definition des_schedule :: "bits \<Rightarrow> bits list" where
  "des_schedule k = des_keys des_rotations (take 28 k) (drop 28 k)"

definition des_cipher :: "bits list \<Rightarrow> bits \<Rightarrow> bits" where
  "des_cipher ks b = select des_FP (des_rounds ks (take 32 b) (drop 32 b))"

definition des_Encrypt :: "bytes \<Rightarrow> bytes \<Rightarrow> bytes" where
  "des_Encrypt key block =
     bits_bytes 8 (des_cipher (des_schedule (select des_PC1 (bytes_bits key))) (select des_IP (bytes_bits block)))"

lemma length_bits_bytes [simp]: "length (bits_bytes n bs) = n"
  by (induction n bs rule: bits_bytes.induct) simp_all

lemma length_des_Encrypt [simp]: "length (des_Encrypt key block) = 8"
  by (simp add: des_Encrypt_def)

lemma des_vector:
  "des_Encrypt [0x13, 0x34, 0x57, 0x79, 0x9b, 0xbc, 0xdf, 0xf1] [0x01, 0x23, 0x45, 0x67, 0x89, 0xab, 0xcd, 0xef]
   = [0x85, 0xe8, 0x13, 0x54, 0x0f, 0x0a, 0xb4, 0x05]"
  by code_simp

end
