(* ===== verification/Sha1.thy ===== *)
theory Sha1
  imports Digest
begin

text \<open>
  \<open>crypto/sha1\<close> of Go's standard library (FIPS 180-4, section 6.1), on \<open>32 word\<close>: message
  padding with a big-endian length, the message schedule and the round function. It is an
  instance of the interface \<open>block_digest\<close>.
\<close>

type_synonym sha1_state = "u32 \<times> u32 \<times> u32 \<times> u32 \<times> u32"

definition BE_PutUint64 :: "64 word \<Rightarrow> bytes" where
  "BE_PutUint64 v = map (\<lambda>i. ucast (drop_bit (56 - 8 * i) v)) [0..<8]"

fun sha1_words :: "bytes \<Rightarrow> u32 list" where
  "sha1_words (a # b # c # d # rest) = BE_Uint32 [a, b, c, d] # sha1_words rest"
| "sha1_words _ = []"

definition rotl32 :: "nat \<Rightarrow> u32 \<Rightarrow> u32" where
  "rotl32 n x = word_rotl n x"

fun sha1_f :: "nat \<Rightarrow> u32 \<Rightarrow> u32 \<Rightarrow> u32 \<Rightarrow> u32" where
  "sha1_f t b c d =
    (if t < 20 then (b AND c) OR (NOT b AND d)
     else if t < 40 then b XOR c XOR d
     else if t < 60 then (b AND c) OR (b AND d) OR (c AND d)
     else b XOR c XOR d)"

definition sha1_k :: "nat \<Rightarrow> u32" where
  "sha1_k t =
    (if t < 20 then 0x5a827999 else if t < 40 then 0x6ed9eba1
     else if t < 60 then 0x8f1bbcdc else 0xca62c1d6)"

fun sha1_round :: "nat \<Rightarrow> u32 \<Rightarrow> sha1_state \<Rightarrow> sha1_state" where
  "sha1_round t w (a, b, c, d, e) =
    (rotl32 5 a + sha1_f t b c d + e + sha1_k t + w, a, rotl32 30 b, c, d)"

text \<open>
  The message schedule is a window beside the chaining variables: the word of this round and
  the fifteen after it.
\<close>

fun sha1_step :: "u32 list \<times> sha1_state \<Rightarrow> nat \<Rightarrow> u32 list \<times> sha1_state" where
  "sha1_step (W, st) t =
    (tl W @ [rotl32 1 (W ! 13 XOR W ! 8 XOR W ! 2 XOR W ! 0)], sha1_round t (W ! 0) st)"

definition sha1_rounds :: "nat list \<Rightarrow> u32 list \<times> sha1_state \<Rightarrow> u32 list \<times> sha1_state" where
  "sha1_rounds ts s = foldl sha1_step s ts"

fun sha1_add :: "sha1_state \<Rightarrow> sha1_state \<Rightarrow> sha1_state" where
  "sha1_add (a, b, c, d, e) (a', b', c', d', e') = (a + a', b + b', c + c', d + d', e + e')"

definition sha1_block :: "sha1_state \<Rightarrow> bytes \<Rightarrow> sha1_state" where
  "sha1_block st block = sha1_add st (snd (sha1_rounds [0..<80] (sha1_words block, st)))"

function sha1_blocks :: "sha1_state \<Rightarrow> bytes \<Rightarrow> sha1_state" where
  "sha1_blocks st bs =
    (if length bs < 64 then st else sha1_blocks (sha1_block st (take 64 bs)) (drop 64 bs))"
  by pat_completeness auto
termination by (relation "measure (\<lambda>(st, bs). length bs)") auto

declare sha1_blocks.simps [simp del]

definition sha1_pad :: "bytes \<Rightarrow> bytes" where
  "sha1_pad m = m @ [0x80] @ replicate ((119 - length m mod 64) mod 64) 0 @
     BE_PutUint64 (of_nat (8 * length m))"

fun sha1_octets :: "sha1_state \<Rightarrow> bytes" where
  "sha1_octets (a, b, c, d, e) =
    BE_PutUint32 a @ BE_PutUint32 b @ BE_PutUint32 c @ BE_PutUint32 d @ BE_PutUint32 e"

definition sha1_Sum :: "bytes \<Rightarrow> bytes" where
  "sha1_Sum m =
    sha1_octets (sha1_blocks (0x67452301, 0xefcdab89, 0x98badcfe, 0x10325476, 0xc3d2e1f0) (sha1_pad m))"

lemma length_sha1_octets [simp]: "length (sha1_octets st) = 20"
  by (cases st) simp

lemma length_sha1_Sum [simp]: "length (sha1_Sum m) = 20"
  by (simp add: sha1_Sum_def)

interpretation sha1: block_digest sha1_Sum 64 20
  by unfold_locales auto

end
