(* ===== verification/Mschap.thy ===== *)
theory Mschap
  imports GoText Des Sha1 Errors
begin

text \<open>
  \<open>crypto/mschapv2.go\<close> and the key derivation of \<open>crypto/mppe.go\<close>: the NT password hash, the
  NT-Response and the Authenticator Response of MS-CHAPv2, and the MPPE session keys derived
  from them. MD4 is not part of the standard library; it is the parameter \<open>md4\<close> of every
  definition that uses it. Arrays of fixed length are byte lists; a result copied into one is
  cut or filled up with zeros by \<open>copy_array\<close>.
\<close>

section \<open>Constants\<close>

definition NTHashLength :: nat where [limit_num]: "NTHashLength = 16"
definition NTHashHashLength :: nat where [limit_num]: "NTHashHashLength = 16"
definition NTResponseLength :: nat where [limit_num]: "NTResponseLength = 24"
definition MSCHAPv2ChallengeLength :: nat where [limit_num]: "MSCHAPv2ChallengeLength = 16"
definition ChallengeHashLength :: nat where [limit_num]: "ChallengeHashLength = 8"
definition AuthenticatorResponseLength :: nat where [limit_num]: "AuthenticatorResponseLength = 42"
definition MPPEKeyLength40Bit :: nat where [limit_num]: "MPPEKeyLength40Bit = 8"
definition MPPEKeyLength128Bit :: nat where [limit_num]: "MPPEKeyLength128Bit = 16"

definition mschapv2Magic1 :: bytes where
  "mschapv2Magic1 =
    [0x4d, 0x61, 0x67, 0x69, 0x63, 0x20, 0x73, 0x65, 0x72, 0x76, 0x65, 0x72,
     0x20, 0x74, 0x6f, 0x20, 0x63, 0x6c, 0x69, 0x65, 0x6e, 0x74, 0x20, 0x73,
     0x69, 0x67, 0x6e, 0x69, 0x6e, 0x67, 0x20, 0x63, 0x6f, 0x6e, 0x73, 0x74,
     0x61, 0x6e, 0x74]"

definition mschapv2Magic2 :: bytes where
  "mschapv2Magic2 =
    [0x50, 0x61, 0x64, 0x20, 0x74, 0x6f, 0x20, 0x6d, 0x61, 0x6b, 0x65, 0x20,
     0x69, 0x74, 0x20, 0x64, 0x6f, 0x20, 0x6d, 0x6f, 0x72, 0x65, 0x20, 0x74,
     0x68, 0x61, 0x6e, 0x20, 0x6f, 0x6e, 0x65, 0x20, 0x69, 0x74, 0x65, 0x72,
     0x61, 0x74, 0x69, 0x6f, 0x6e]"

definition mppePad1 :: bytes where
  "mppePad1 = replicate 40 0"

definition mppePad2 :: bytes where
  "mppePad2 =
    [0xf2, 0xf2, 0xf2, 0xf2, 0xf2, 0xf2, 0xf2, 0xf2, 0xf2, 0xf2, 0xf2, 0xf2,
     0xf2, 0xf2, 0xf2, 0xf2, 0xf2, 0xf2, 0xf2, 0xf2, 0xf2, 0xf2, 0xf2, 0xf2,
     0xf2, 0xf2, 0xf2, 0xf2, 0xf2, 0xf2, 0xf2, 0xf2, 0xf2, 0xf2, 0xf2, 0xf2,
     0xf2, 0xf2, 0xf2, 0xf2]"

definition mppeMagic1 :: bytes where
  "mppeMagic1 =
    [0x54, 0x68, 0x69, 0x73, 0x20, 0x69, 0x73, 0x20, 0x74, 0x68, 0x65, 0x20,
     0x4d, 0x50, 0x50, 0x45, 0x20, 0x4d, 0x61, 0x73, 0x74, 0x65, 0x72, 0x20,
     0x4b, 0x65, 0x79]"

definition mppeMagic2 :: bytes where
  "mppeMagic2 =
    [0x4f, 0x6e, 0x20, 0x74, 0x68, 0x65, 0x20, 0x63, 0x6c, 0x69, 0x65, 0x6e,
     0x74, 0x20, 0x73, 0x69, 0x64, 0x65, 0x2c, 0x20, 0x74, 0x68, 0x69, 0x73,
     0x20, 0x69, 0x73, 0x20, 0x74, 0x68, 0x65, 0x20, 0x73, 0x65, 0x6e, 0x64,
     0x20, 0x6b, 0x65, 0x79, 0x3b, 0x20, 0x6f, 0x6e, 0x20, 0x74, 0x68, 0x65,
     0x20, 0x73, 0x65, 0x72, 0x76, 0x65, 0x72, 0x20, 0x73, 0x69, 0x64, 0x65,
     0x2c, 0x20, 0x69, 0x74, 0x20, 0x69, 0x73, 0x20, 0x74, 0x68, 0x65, 0x20,
     0x72, 0x65, 0x63, 0x65, 0x69, 0x76, 0x65, 0x20, 0x6b, 0x65, 0x79, 0x2e]"

definition mppeMagic3 :: bytes where
  "mppeMagic3 =
    [0x4f, 0x6e, 0x20, 0x74, 0x68, 0x65, 0x20, 0x63, 0x6c, 0x69, 0x65, 0x6e,
     0x74, 0x20, 0x73, 0x69, 0x64, 0x65, 0x2c, 0x20, 0x74, 0x68, 0x69, 0x73,
     0x20, 0x69, 0x73, 0x20, 0x74, 0x68, 0x65, 0x20, 0x72, 0x65, 0x63, 0x65,
     0x69, 0x76, 0x65, 0x20, 0x6b, 0x65, 0x79, 0x3b, 0x20, 0x6f, 0x6e, 0x20,
     0x74, 0x68, 0x65, 0x20, 0x73, 0x65, 0x72, 0x76, 0x65, 0x72, 0x20, 0x73,
     0x69, 0x64, 0x65, 0x2c, 0x20, 0x69, 0x74, 0x20, 0x69, 0x73, 0x20, 0x74,
     0x68, 0x65, 0x20, 0x73, 0x65, 0x6e, 0x64, 0x20, 0x6b, 0x65, 0x79, 0x2e]"

section \<open>Strings\<close>

text \<open>\<open>copy(out[:], src)\<close> into a fresh array of \<open>n\<close> octets.\<close>

definition copy_array :: "nat \<Rightarrow> bytes \<Rightarrow> bytes" where
  "copy_array n src = take n src @ replicate (n - length src) 0"

definition LE_PutUint16 :: "16 word \<Rightarrow> bytes" where
  "LE_PutUint16 v = [ucast v, ucast (drop_bit 8 v)]"

definition utf16LE :: "string \<Rightarrow> bytes" where
  "utf16LE s = concat (map (\<lambda>c.
     if c \<le> 0xFFFF then LE_PutUint16 (word_of_nat c)
     else let c = c - 0x10000; hi = 0xD800 + c div 2 ^ 10; lo = 0xDC00 + c mod 2 ^ 10
          in LE_PutUint16 (word_of_nat hi) @ LE_PutUint16 (word_of_nat lo)) (runes s))"

definition hex_digits :: string where
  "hex_digits = ''0123456789ABCDEF''"

definition hexUpper :: "bytes \<Rightarrow> string" where
  "hexUpper b = concat (map (\<lambda>v.
     [hex_digits ! unat (drop_bit 4 v), hex_digits ! unat (v AND 0x0F)]) b)"

definition stripDomain :: "string \<Rightarrow> string" where
  "stripDomain user = (case Cut_at (CHR 0x5C) user of Some (_, after) \<Rightarrow> after | None \<Rightarrow> user)"

section \<open>DES keys\<close>

text \<open>\<open>None\<close> is the panic on a key of another length.\<close>

definition expandDesKey :: "bytes \<Rightarrow> bytes option" where
  "expandDesKey key7 =
    (if length key7 \<noteq> 7 then None
     else let out =
       [drop_bit 1 (key7 ! 0),
        push_bit 6 (key7 ! 0 AND 0x01) OR drop_bit 2 (key7 ! 1),
        push_bit 5 (key7 ! 1 AND 0x03) OR drop_bit 3 (key7 ! 2),
        push_bit 4 (key7 ! 2 AND 0x07) OR drop_bit 4 (key7 ! 3),
        push_bit 3 (key7 ! 3 AND 0x0F) OR drop_bit 5 (key7 ! 4),
        push_bit 2 (key7 ! 4 AND 0x1F) OR drop_bit 6 (key7 ! 5),
        push_bit 1 (key7 ! 5 AND 0x3F) OR drop_bit 7 (key7 ! 6),
        key7 ! 6 AND 0x7F]
     in Some (map (push_bit 1) out))"

text \<open>\<open>des.NewCipher\<close> refuses a key that has not eight octets, and the source panics.\<close>

definition encryptBlock :: "bytes \<Rightarrow> bytes \<Rightarrow> bytes option" where
  "encryptBlock key plaintext = (if length key \<noteq> 8 then None else Some (des_Encrypt key plaintext))"

definition encrypt_under :: "bytes \<Rightarrow> bytes \<Rightarrow> bytes option" where
  "encrypt_under key7 block = Option.bind (expandDesKey key7) (\<lambda>k. encryptBlock k block)"

definition desEncryptNTResponse :: "bytes \<Rightarrow> bytes \<Rightarrow> bytes option" where
  "desEncryptNTResponse ntHash challenge =
    (let block = take 8 challenge; out = replicate NTResponseLength 0
     in case encrypt_under (slice 0 7 ntHash) block of None \<Rightarrow> None
        | Some b1 \<Rightarrow> (case encrypt_under (slice 7 14 ntHash) block of None \<Rightarrow> None
        | Some b2 \<Rightarrow> (case encrypt_under [ntHash ! 14, ntHash ! 15, 0, 0, 0, 0, 0] block of None \<Rightarrow> None
        | Some b3 \<Rightarrow> Some (overwrite 16 b3 (overwrite 8 b2 (overwrite 0 b1 out))))))"

section \<open>MS-CHAPv2\<close>

definition NtPasswordHash :: "(bytes \<Rightarrow> bytes) \<Rightarrow> string \<Rightarrow> bytes" where
  "NtPasswordHash md4 password = copy_array NTHashLength (md4 (utf16LE password))"

definition HashNtPasswordHash :: "(bytes \<Rightarrow> bytes) \<Rightarrow> bytes \<Rightarrow> bytes" where
  "HashNtPasswordHash md4 ntHash = copy_array NTHashHashLength (md4 ntHash)"

definition ChallengeHash :: "bytes \<Rightarrow> bytes \<Rightarrow> string \<Rightarrow> bytes" where
  "ChallengeHash peerChallenge authenticatorChallenge userName =
     copy_array ChallengeHashLength (sha1_Sum (peerChallenge @ authenticatorChallenge @ string_bytes userName))"

definition GenerateNTResponse :: "(bytes \<Rightarrow> bytes) \<Rightarrow> bytes \<Rightarrow> bytes \<Rightarrow> string \<Rightarrow> string \<Rightarrow> bytes option" where
  "GenerateNTResponse md4 authenticatorChallenge peerChallenge userName password =
    (let ntHash = NtPasswordHash md4 password;
         challenge = ChallengeHash peerChallenge authenticatorChallenge userName
     in desEncryptNTResponse ntHash challenge)"

definition GenerateAuthenticatorResponse ::
    "(bytes \<Rightarrow> bytes) \<Rightarrow> bytes \<Rightarrow> bytes \<Rightarrow> bytes \<Rightarrow> string \<Rightarrow> string \<Rightarrow> string" where
  "GenerateAuthenticatorResponse md4 authenticatorChallenge peerChallenge ntResponse userName password =
    (let ntHash = NtPasswordHash md4 password;
         ntHashHash = HashNtPasswordHash md4 ntHash;
         digest1 = sha1_Sum (ntHashHash @ ntResponse @ mschapv2Magic1);
         challenge = ChallengeHash peerChallenge authenticatorChallenge userName;
         final = sha1_Sum (digest1 @ challenge @ mschapv2Magic2)
     in ''S='' @ hexUpper final)"

section \<open>MPPE session keys\<close>

definition GetMasterKey :: "bytes \<Rightarrow> bytes \<Rightarrow> bytes" where
  "GetMasterKey passwordHashHash ntResponse =
     copy_array 16 (sha1_Sum (passwordHashHash @ ntResponse @ mppeMagic1))"

definition GetAsymmetricStartKey :: "bytes \<Rightarrow> int \<Rightarrow> bool \<Rightarrow> bytes res" where
  "GetAsymmetricStartKey masterKey sessionKeyLength isSend =
    (if sessionKeyLength \<noteq> int MPPEKeyLength40Bit \<and> sessionKeyLength \<noteq> int MPPEKeyLength128Bit
     then Inl ErrInvalidLength
     else Inr (copy_array (nat sessionKeyLength)
       (sha1_Sum (masterKey @ mppePad1 @ (if isSend then mppeMagic3 else mppeMagic2) @ mppePad2))))"

definition DeriveMPPEKeysFromPassword ::
    "(bytes \<Rightarrow> bytes) \<Rightarrow> string \<Rightarrow> bytes \<Rightarrow> int \<Rightarrow> (bytes \<times> bytes) res" where
  "DeriveMPPEKeysFromPassword md4 password ntResponse sessionKeyLength =
    (let ntHash = NtPasswordHash md4 password;
         hashHash = HashNtPasswordHash md4 ntHash;
         master = GetMasterKey hashHash ntResponse
     in case GetAsymmetricStartKey master sessionKeyLength True of Inl e \<Rightarrow> Inl e
        | Inr send \<Rightarrow> (case GetAsymmetricStartKey master sessionKeyLength False of Inl e \<Rightarrow> Inl e
        | Inr recv \<Rightarrow> Inr (send, recv)))"

end
