(* ===== verification/Mschap_Props.thy ===== *)
theory Mschap_Props
  imports Mschap
begin

text \<open>
  The properties of MS-CHAPv2 and of the MPPE key derivation: the UTF-16LE encoding reads back,
  the 7-to-8 octet key expansion loses no bit, the NT-Response is three DES blocks over the whole
  password hash, and the responses and session keys are those of the RFCs, for any MD4.
\<close>

section \<open>UTF-16\<close>

fun utf16_units :: "bytes \<Rightarrow> nat list" where
  "utf16_units (a # b # r) = unat (BE_Uint16 [b, a]) # utf16_units r"
| "utf16_units _ = []"

fun utf16_decode :: "nat list \<Rightarrow> nat list" where
  "utf16_decode [] = []"
| "utf16_decode [u] = [u]"
| "utf16_decode (u # v # us) =
    (if 0xD800 \<le> u \<and> u \<le> 0xDBFF then (0x10000 + (u - 0xD800) * 2 ^ 10 + (v - 0xDC00)) # utf16_decode us
     else u # utf16_decode (v # us))"

definition scalar :: "nat \<Rightarrow> bool" where
  "scalar n \<longleftrightarrow> n < 0xD800 \<or> (0xDFFF < n \<and> n \<le> 0x10FFFF)"

lemma scalar_parts:
  "a \<le> 223 \<Longrightarrow> utf8_cont b \<Longrightarrow> scalar ((a - 192) * 64 + (b - 128))"
  "a \<le> 239 \<Longrightarrow> utf8_cont b \<Longrightarrow> utf8_cont c \<Longrightarrow> a = 237 \<longrightarrow> b \<le> 159 \<Longrightarrow>
    scalar ((a - 224) * 4096 + (b - 128) * 64 + (c - 128))"
  "240 \<le> a \<Longrightarrow> a \<le> 244 \<Longrightarrow> utf8_cont b \<Longrightarrow> utf8_cont c \<Longrightarrow> utf8_cont d \<Longrightarrow>
    a = 240 \<longrightarrow> 144 \<le> b \<Longrightarrow> a = 244 \<longrightarrow> b \<le> 143 \<Longrightarrow>
    scalar ((a - 240) * 262144 + (b - 128) * 4096 + (c - 128) * 64 + (d - 128))"
    apply (simp add: scalar_def utf8_cont_def; linarith)
   apply (cases "a \<le> 236"; cases "a = 237"; simp add: scalar_def utf8_cont_def; linarith)
  apply (cases "a = 240"; cases "a = 244"; simp add: scalar_def utf8_cont_def; linarith)
  done

lemma scalar_simple: "scalar RuneError" "a < 128 \<Longrightarrow> scalar a"
  by (simp_all add: scalar_def RuneError_def)

lemma DecodeRune_scalar: "scalar (fst (DecodeRune s))"
proof (cases s)
  case (Cons a r)
  show ?thesis
    unfolding Cons DecodeRune.simps
    by (simp split: list.split if_split add: scalar_simple) (intro allI impI conjI; (elim conjE)?; rule scalar_parts; assumption)
qed (simp add: scalar_simple)

lemma runes_scalar: "\<forall>c \<in> set (runes s). scalar c"
proof (induction s rule: runes.induct)
  case (1 s)
  show ?case
  proof (cases "s = []")
    case False
    with 1 show ?thesis
      by (subst runes.simps) (simp add: rune_at_def DecodeRune_scalar)
  qed simp
qed

lemma utf16_units_LE:
  assumes "n < 65536"
  shows "utf16_units (LE_PutUint16 (word_of_nat n) @ r) = n # utf16_units r"
proof -
  have "BE_Uint16 [ucast (drop_bit 8 v), ucast v] = v" for v
    using BE_Uint16_Put [of v] by (simp add: BE_PutUint16_def)
  moreover have "unat (word_of_nat n :: 16 word) = n" using assms by (simp add: unat_of_nat)
  ultimately show ?thesis by (simp add: LE_PutUint16_def)
qed

definition utf16_encode :: "nat \<Rightarrow> nat list" where
  "utf16_encode c =
    (if c \<le> 0xFFFF then [c] else [0xD800 + (c - 0x10000) div 2 ^ 10, 0xDC00 + (c - 0x10000) mod 2 ^ 10])"

lemma utf16LE_units: "utf16_units (utf16LE s) = concat (map utf16_encode (runes s))"
proof -
  have "\<forall>c \<in> set rs. scalar c \<Longrightarrow> utf16_units (concat (map (\<lambda>c.
     if c \<le> 0xFFFF then LE_PutUint16 (word_of_nat c)
     else let c = c - 0x10000; hi = 0xD800 + c div 2 ^ 10; lo = 0xDC00 + c mod 2 ^ 10
          in LE_PutUint16 (word_of_nat hi) @ LE_PutUint16 (word_of_nat lo)) rs)) =
     concat (map utf16_encode rs)" for rs
  proof (induction rs)
    case (Cons c rs)
    then have "c \<le> 0x10FFFF" by (auto simp: scalar_def)
    then have "0xD800 + (c - 0x10000) div 2 ^ 10 < 65536" "0xDC00 + (c - 0x10000) mod 2 ^ 10 < 65536"
      by simp_all
    note le = this [THEN utf16_units_LE]
    from Cons le show ?case
      by (simp add: utf16_units_LE utf16_encode_def Let_def)
  qed simp
  with runes_scalar show ?thesis by (simp add: utf16LE_def)
qed

lemma utf16_decode_plain:
  "\<not> (0xD800 \<le> c \<and> c \<le> 0xDBFF) \<Longrightarrow> utf16_decode (c # us) = c # utf16_decode us"
  by (cases us) simp_all

lemma utf16_decode_one: "scalar c \<Longrightarrow> utf16_decode (utf16_encode c @ us) = c # utf16_decode us"
proof (cases "c \<le> 0xFFFF")
  case True
  assume "scalar c"
  with True have "\<not> (0xD800 \<le> c \<and> c \<le> 0xDBFF)" by (auto simp: scalar_def)
  with True show ?thesis by (simp add: utf16_encode_def utf16_decode_plain)
next
  case False
  assume "scalar c"
  with False have "(c - 0x10000) div 2 ^ 10 < 0x400" by (auto simp: scalar_def)
  moreover have "0x10000 + (c - 0x10000) div 2 ^ 10 * 2 ^ 10 + (c - 0x10000) mod 2 ^ 10 = c"
    using False by (simp only: add.assoc div_mult_mod_eq)
  ultimately show ?thesis using False by (simp add: utf16_encode_def)
qed

lemma utf16_decode_encode:
  "\<forall>c \<in> set rs. scalar c \<Longrightarrow> utf16_decode (concat (map utf16_encode rs)) = rs"
  by (induction rs) (simp_all add: utf16_decode_one)

text \<open>
  The UTF-16LE octets a password is hashed in read back as exactly its runes: an octet
  sequence that is not valid UTF-8 counts as U+FFFD, no unpaired surrogate is ever written, and
  two passwords are hashed alike whenever (and, up to collisions of MD4, only when) their runes
  agree.
\<close>

theorem utf16le_roundtrip:
  "utf16_decode (utf16_units (utf16LE s)) = runes s \<and> (utf16LE s = utf16LE t \<longleftrightarrow> runes s = runes t)"
proof -
  have r: "utf16_decode (utf16_units (utf16LE x)) = runes x" for x
    by (simp add: utf16LE_units utf16_decode_encode runes_scalar)
  moreover have "runes s = runes t \<Longrightarrow> utf16LE s = utf16LE t" by (simp add: utf16LE_def)
  ultimately show ?thesis by metis
qed

section \<open>Hexadecimal\<close>

definition hex_nibble :: "char \<Rightarrow> byte" where
  "hex_nibble c = word_of_nat (if ord c < 58 then ord c - 48 else ord c - 55)"

fun hex_octets :: "string \<Rightarrow> bytes" where
  "hex_octets (a # b # r) = (push_bit 4 (hex_nibble a) OR hex_nibble b) # hex_octets r"
| "hex_octets _ = []"

lemma low_nibble: "v AND 0x0F = take_bit 4 (v :: byte)"
proof -
  have "(0x0F :: byte) = mask 4" by (simp add: mask_eq_exp_minus_1)
  then show ?thesis by (simp only: take_bit_eq_mask)
qed

lemma nibble_lt: "unat (drop_bit 4 (v :: byte)) < 16" "unat (v AND 0x0F) < 16"
proof -
  have "unat (drop_bit 4 v) = unat v div 16" by (simp only: unat_drop_bit_eq) (simp add: drop_bit_eq_div)
  then show "unat (drop_bit 4 v) < 16" using unat_byte_less [of v] by presburger
  have "unat (take_bit 4 v) = unat v mod 16" by (simp only: unsigned_take_bit_eq) (simp add: take_bit_eq_mod)
  then show "unat (v AND 0x0F) < 16" by (simp add: low_nibble)
qed

lemma hex_nibble_digit: "n < 16 \<Longrightarrow> hex_nibble (hex_digits ! n) = word_of_nat n"
proof -
  have "\<forall>n \<in> {0..<16::nat}. hex_nibble (hex_digits ! n) = word_of_nat n" by code_simp
  then show "n < 16 \<Longrightarrow> ?thesis" by simp
qed

lemma hex_octets_hexUpper: "hex_octets (hexUpper b) = b"
proof (induction b)
  case (Cons v b)
  have "push_bit 4 (drop_bit 4 v) OR (v AND 0x0F) = v"
    unfolding low_nibble by (rule bit_word_eqI) (auto simp: bit_simps)
  with Cons show ?case
    by (simp add: hexUpper_def hex_nibble_digit nibble_lt)
qed (simp add: hexUpper_def)

section \<open>DES keys\<close>

lemma byte_bits_list:
  "byte_bits b = [bit b 7, bit b 6, bit b 5, bit b 4, bit b 3, bit b 2, bit b 1, bit b 0]"
  by (simp add: byte_bits_def upt_conv_Cons)

lemma length_7: "length xs = 7 \<Longrightarrow> \<exists>a b c d e f g. xs = [a, b, c, d, e, f, g]"
  by (auto simp: length_Suc_conv numeral_eq_Suc)

fun seven_bit_groups :: "nat \<Rightarrow> bits \<Rightarrow> bits" where
  "seven_bit_groups 0 bs = []"
| "seven_bit_groups (Suc n) bs = take 7 bs @ [False] @ seven_bit_groups n (drop 7 bs)"

lemma byte_bit_ge: "8 \<le> n \<Longrightarrow> \<not> bit (b :: byte) n"
  by (auto dest: bit_imp_le_length)

lemmas octet_bits = byte_bits_list bit_or_iff bit_and_iff bit_push_bit_iff bit_drop_bit_eq comp_def

lemma key_octets:
  "byte_bits (push_bit 1 (drop_bit 1 y)) = [bit y 7, bit y 6, bit y 5, bit y 4, bit y 3, bit y 2, bit y 1, False]"
  "byte_bits (push_bit 1 (push_bit 6 (x AND 0x01) OR drop_bit 2 y)) =
    [bit x 0, bit y 7, bit y 6, bit y 5, bit y 4, bit y 3, bit y 2, False]"
  "byte_bits (push_bit 1 (push_bit 5 (x AND 0x03) OR drop_bit 3 y)) =
    [bit x 1, bit x 0, bit y 7, bit y 6, bit y 5, bit y 4, bit y 3, False]"
  "byte_bits (push_bit 1 (push_bit 4 (x AND 0x07) OR drop_bit 4 y)) =
    [bit x 2, bit x 1, bit x 0, bit y 7, bit y 6, bit y 5, bit y 4, False]"
  "byte_bits (push_bit 1 (push_bit 3 (x AND 0x0F) OR drop_bit 5 y)) =
    [bit x 3, bit x 2, bit x 1, bit x 0, bit y 7, bit y 6, bit y 5, False]"
  "byte_bits (push_bit 1 (push_bit 2 (x AND 0x1F) OR drop_bit 6 y)) =
    [bit x 4, bit x 3, bit x 2, bit x 1, bit x 0, bit y 7, bit y 6, False]"
  "byte_bits (push_bit 1 (push_bit 1 (x AND 0x3F) OR drop_bit 7 y)) =
    [bit x 5, bit x 4, bit x 3, bit x 2, bit x 1, bit x 0, bit y 7, False]"
  "byte_bits (push_bit 1 (x AND 0x7F)) = [bit x 6, bit x 5, bit x 4, bit x 3, bit x 2, bit x 1, bit x 0, False]"
  for x y :: byte
  by (simp only: octet_bits; simp add: byte_bit_ge possible_bit_word eval_nat_numeral)+

lemma expandDesKey_bits:
  assumes "length key = 7"
  shows "\<exists>k8. expandDesKey key = Some k8 \<and> length k8 = 8 \<and> bytes_bits k8 = seven_bit_groups 8 (bytes_bits key)"
proof -
  from length_7 [OF assms] obtain a b c d e f g where k: "key = [a, b, c, d, e, f, g]" by blast
  obtain k8 where e: "expandDesKey key = Some k8"
    and k8: "k8 = map (push_bit 1)
       [drop_bit 1 a, push_bit 6 (a AND 0x01) OR drop_bit 2 b, push_bit 5 (b AND 0x03) OR drop_bit 3 c,
        push_bit 4 (c AND 0x07) OR drop_bit 4 d, push_bit 3 (d AND 0x0F) OR drop_bit 5 e,
        push_bit 2 (e AND 0x1F) OR drop_bit 6 f, push_bit 1 (f AND 0x3F) OR drop_bit 7 g, g AND 0x7F]"
    by (simp only: k expandDesKey_def Let_def) simp
  have "bytes_bits k8 = seven_bit_groups 8 (bytes_bits key)"
    unfolding k8 bytes_bits_def list.map key_octets
    by (simp add: k byte_bits_list eval_nat_numeral)
  moreover have "length k8 = 8" by (simp add: k8)
  ultimately show ?thesis using e by blast
qed

text \<open>The expansion loses nothing: dropping the last bit of each octet gives the key back.\<close>

fun drop_parity :: "nat \<Rightarrow> bits \<Rightarrow> bits" where
  "drop_parity 0 bs = []"
| "drop_parity (Suc n) bs = take 7 bs @ drop_parity n (drop 8 bs)"

lemma drop_parity_groups: "length bs = 7 * n \<Longrightarrow> drop_parity n (seven_bit_groups n bs) = bs"
  by (induction n arbitrary: bs) (simp_all add: min_def)

lemma length_bytes_bits [simp]: "length (bytes_bits bs) = 8 * length bs"
  by (induction bs) (simp_all add: bytes_bits_def byte_bits_def)

definition des_key_of :: "bytes \<Rightarrow> bytes \<Rightarrow> bool" where
  "des_key_of key k8 \<longleftrightarrow> length k8 = 8 \<and> bytes_bits k8 = seven_bit_groups 8 (bytes_bits key)"

lemma encrypt_under_Some:
  assumes "length key = 7"
  shows "\<exists>k8. des_key_of key k8 \<and> encrypt_under key block = Some (des_Encrypt k8 block)"
  using expandDesKey_bits [OF assms]
  by (auto simp: des_key_of_def encrypt_under_def encryptBlock_def)

lemma overwrite_three:
  assumes "length a = 8" "length b = 8" "length c = 8"
  shows "overwrite 16 c (overwrite 8 b (overwrite 0 a (replicate 24 (0 :: byte)))) = a @ b @ c"
  using assms by (simp add: overwrite_def)

text \<open>
  C33: The NT-Response, as RFC 2759 section 8.5 has it and as the comment of the function does
  not: never a panic, 24 octets, and its three blocks are the same eight octets of challenge
  hash under three DES keys, which hold octets 0 to 6, 7 to 13 and 14 to 15 (filled with zeros)
  of the password hash, seven bits to an octet with the parity bit clear, so that all of the
  hash goes into the keys.
\<close>

theorem nt_response_blocks:
  "\<exists>h k1 k2 k3.
     h = NtPasswordHash md4 pw \<and> length h = 16
     \<and> des_key_of (take 7 h) k1 \<and> des_key_of (take 7 (drop 7 h)) k2
     \<and> des_key_of (drop 14 h @ [0, 0, 0, 0, 0]) k3
     \<and> drop_parity 8 (bytes_bits k1) @ drop_parity 8 (bytes_bits k2) @ drop_parity 8 (bytes_bits k3)
         = bytes_bits (h @ [0, 0, 0, 0, 0])
     \<and> (let c = take 8 (sha1_Sum (pc @ ac @ string_bytes user))
        in GenerateNTResponse md4 ac pc user pw = Some (des_Encrypt k1 c @ des_Encrypt k2 c @ des_Encrypt k3 c))"
proof -
  define h where "h = NtPasswordHash md4 pw"
  define c where "c = take 8 (sha1_Sum (pc @ ac @ string_bytes user))"
  have l: "length h = 16" by (simp add: h_def NtPasswordHash_def copy_array_def limit_num)
  have h: "[h ! 14, h ! 15, 0, 0, 0, 0, 0] = drop 14 h @ [0, 0, 0, 0, 0]"
    using l by (simp add: list_eq_iff_nth_eq nth_append nth_Cons' less_Suc_eq numeral_eq_Suc)
  obtain k1 where k1: "des_key_of (take 7 h) k1" "encrypt_under (take 7 h) c = Some (des_Encrypt k1 c)"
    using encrypt_under_Some [of "take 7 h" c] l by auto
  obtain k2 where k2: "des_key_of (take 7 (drop 7 h)) k2"
      "encrypt_under (take 7 (drop 7 h)) c = Some (des_Encrypt k2 c)"
    using encrypt_under_Some [of "take 7 (drop 7 h)" c] l by auto
  obtain k3 where k3: "des_key_of (drop 14 h @ [0, 0, 0, 0, 0]) k3"
      "encrypt_under (drop 14 h @ [0, 0, 0, 0, 0]) c = Some (des_Encrypt k3 c)"
    using encrypt_under_Some [of "drop 14 h @ [0, 0, 0, 0, 0]" c] l by auto
  have "ChallengeHash pc ac user = c" by (simp add: ChallengeHash_def c_def copy_array_def limit_num)
  then have r: "GenerateNTResponse md4 ac pc user pw = Some (des_Encrypt k1 c @ des_Encrypt k2 c @ des_Encrypt k3 c)"
    using k1(2) k2(2) k3(2)
    by (simp add: GenerateNTResponse_def desEncryptNTResponse_def Let_def slice_def h overwrite_three
        NTResponseLength_def c_def flip: h_def)
  have d: "drop_parity 8 (bytes_bits k) = bytes_bits key" if "des_key_of key k" "length key = 7" for key k
    using that by (simp add: des_key_of_def drop_parity_groups)
  have "bytes_bits (xs @ ys) = bytes_bits xs @ bytes_bits ys" for xs ys by (simp add: bytes_bits_def)
  then have p: "drop_parity 8 (bytes_bits k1) @ drop_parity 8 (bytes_bits k2) @ drop_parity 8 (bytes_bits k3)
      = bytes_bits (take 7 h @ take 7 (drop 7 h) @ drop 14 h @ [0, 0, 0, 0, 0])"
    using d [OF k1(1)] d [OF k2(1)] d [OF k3(1)] l by simp
  have "take 7 h @ take 7 (drop 7 h) = take 14 h" using take_add [of 7 7 h] by simp
  then have "take 7 h @ take 7 (drop 7 h) @ drop 14 h @ [0, 0, 0, 0, 0] = h @ [0, 0, 0, 0, 0]"
    by (metis append.assoc append_take_drop_id)
  with p have "drop_parity 8 (bytes_bits k1) @ drop_parity 8 (bytes_bits k2) @ drop_parity 8 (bytes_bits k3)
      = bytes_bits (h @ [0, 0, 0, 0, 0])" by (simp only:)
  with h_def l k1(1) k2(1) k3(1) r show ?thesis unfolding Let_def c_def [symmetric] by blast
qed

section \<open>Responses and session keys\<close>

text \<open>The constants are the texts of RFC 2759 and RFC 3079.\<close>

lemma magic_texts:
  "mschapv2Magic1 = string_bytes ''Magic server to client signing constant''"
  "mschapv2Magic2 = string_bytes ''Pad to make it do more than one iteration''"
  "mppeMagic1 = string_bytes ''This is the MPPE Master Key''"
  "mppeMagic2 = string_bytes ''On the client side, this is the send key; on the server side, it is the receive key.''"
  "mppeMagic3 = string_bytes ''On the client side, this is the receive key; on the server side, it is the send key.''"
  "mppePad2 = replicate 40 0xf2"
  by (simp_all add: string_bytes_def mschapv2Magic1_def mschapv2Magic2_def mppeMagic1_def mppeMagic2_def
      mppeMagic3_def mppePad2_def eval_nat_numeral)

lemma length_hexUpper [simp]: "length (hexUpper b) = 2 * length b"
  by (induction b) (simp_all add: hexUpper_def)

lemma hexUpper_digits: "set (hexUpper b) \<subseteq> set hex_digits"
proof -
  have "length hex_digits = 16" by (simp add: hex_digits_def)
  then have "n < 16 \<Longrightarrow> hex_digits ! n \<in> set hex_digits" for n by simp
  then show ?thesis by (auto simp: hexUpper_def nibble_lt)
qed

text \<open>
  The Authenticator Response is 42 octets: \<open>S=\<close> and the 40 upper-case hexadecimal digits of
  the digest RFC 2759 section 8.7 prescribes, which read back as exactly that digest, so two
  exchanges get the same response only if their digests agree.
\<close>

theorem authenticator_response:
  "let r = GenerateAuthenticatorResponse md4 ac pc nt user pw;
       hh = HashNtPasswordHash md4 (NtPasswordHash md4 pw);
       digest1 = sha1_Sum (hh @ nt @ string_bytes ''Magic server to client signing constant'');
       final = sha1_Sum (digest1 @ take 8 (sha1_Sum (pc @ ac @ string_bytes user)) @
         string_bytes ''Pad to make it do more than one iteration'')
   in length r = AuthenticatorResponseLength \<and> take 2 r = ''S='' \<and> set (drop 2 r) \<subseteq> set hex_digits
      \<and> hex_octets (drop 2 r) = final"
proof -
  have c: "ChallengeHash pc ac user = take 8 (sha1_Sum (pc @ ac @ string_bytes user))"
    by (simp add: ChallengeHash_def copy_array_def limit_num)
  show ?thesis
    unfolding GenerateAuthenticatorResponse_def Let_def c magic_texts [symmetric]
    by (simp add: AuthenticatorResponseLength_def hex_octets_hexUpper hexUpper_digits)
qed

lemma mppe_keys_lengths:
  "DeriveMPPEKeysFromPassword md4 pw nt n = Inr (send, recv) \<Longrightarrow>
   (n = 8 \<or> n = 16) \<and> length send = nat n \<and> length recv = nat n"
  by (auto simp: DeriveMPPEKeysFromPassword_def GetAsymmetricStartKey_def copy_array_def limit_num Let_def
      split: if_splits)

lemma mppe_keys_derived:
  "n = 8 \<or> n = 16 \<Longrightarrow> \<exists>send recv. DeriveMPPEKeysFromPassword md4 pw nt n = Inr (send, recv)"
  by (auto simp: DeriveMPPEKeysFromPassword_def GetAsymmetricStartKey_def limit_num Let_def)

text \<open>
  The session keys derived from a password are exactly those of RFC 3079 section 3.4 for the
  server's side, and every key length other than 8 and 16 octets is refused.
\<close>

theorem mppe_session_keys:
  "DeriveMPPEKeysFromPassword md4 pw nt n =
    (let hh = HashNtPasswordHash md4 (NtPasswordHash md4 pw);
         master = take 16 (sha1_Sum (hh @ nt @ string_bytes ''This is the MPPE Master Key''));
         key = (\<lambda>magic. take (nat n) (sha1_Sum (master @ replicate 40 0 @ string_bytes magic @ replicate 40 0xf2)))
     in if n = 8 \<or> n = 16
        then Inr (key ''On the client side, this is the receive key; on the server side, it is the send key.'',
                  key ''On the client side, this is the send key; on the server side, it is the receive key.'')
        else Inl ErrInvalidLength)"
  unfolding DeriveMPPEKeysFromPassword_def Let_def magic_texts [symmetric]
  by (auto simp: GetAsymmetricStartKey_def GetMasterKey_def copy_array_def limit_num mppePad1_def)

end
