(* ===== verification/Microsoft.thy ===== *)
theory Microsoft
  imports Vsa Mschap_Props Tunnel
begin

text \<open>
  \<open>vendors/microsoft/microsoft.go\<close> and \<open>rnas.go\<close>: the vendor-specific attributes of Microsoft
  (311): the MS-CHAPv2 attributes and the MPPE keys of RFC 2548, and the network access
  protection attributes. A constructor takes the octets of its string argument, a 32-bit number,
  an address or a list of addresses.
\<close>

section \<open>Numbers\<close>

definition microsoft_VendorID :: "32 word" where [vendor_num]: "microsoft_VendorID = 311"
definition microsoft_VendorTypeMSCHAPResponse :: byte where [vendor_num]: "microsoft_VendorTypeMSCHAPResponse = 1"
definition microsoft_VendorTypeMSCHAPError :: byte where [vendor_num]: "microsoft_VendorTypeMSCHAPError = 2"
definition microsoft_VendorTypeMSCHAPCPW1 :: byte where [vendor_num]: "microsoft_VendorTypeMSCHAPCPW1 = 3"
definition microsoft_VendorTypeMSCHAPCPW2 :: byte where [vendor_num]: "microsoft_VendorTypeMSCHAPCPW2 = 4"
definition microsoft_VendorTypeMSCHAPLMResponse :: byte where [vendor_num]: "microsoft_VendorTypeMSCHAPLMResponse = 5"
definition microsoft_VendorTypeMSCHAP2Response :: byte where [vendor_num]: "microsoft_VendorTypeMSCHAP2Response = 25"
definition microsoft_VendorTypeMSCHAP2Success :: byte where [vendor_num]: "microsoft_VendorTypeMSCHAP2Success = 26"
definition microsoft_VendorTypeMSCHAP2CPW :: byte where [vendor_num]: "microsoft_VendorTypeMSCHAP2CPW = 27"
definition microsoft_VendorTypeMPPEKey :: byte where [vendor_num]: "microsoft_VendorTypeMPPEKey = 12"
definition microsoft_VendorTypeMPPESendKey :: byte where [vendor_num]: "microsoft_VendorTypeMPPESendKey = 16"
definition microsoft_VendorTypeMPPERecvKey :: byte where [vendor_num]: "microsoft_VendorTypeMPPERecvKey = 17"
definition microsoft_VendorTypeRASClientName :: byte where [vendor_num]: "microsoft_VendorTypeRASClientName = 0x22"
definition microsoft_VendorTypeRASClientVersion :: byte where [vendor_num]: "microsoft_VendorTypeRASClientVersion = 0x23"
definition microsoft_VendorTypeQuarantineIPFilter :: byte where [vendor_num]: "microsoft_VendorTypeQuarantineIPFilter = 0x24"
definition microsoft_VendorTypeQuarantineSessionTimeout :: byte where [vendor_num]: "microsoft_VendorTypeQuarantineSessionTimeout = 0x25"
definition microsoft_VendorTypeUserSecurityIdentity :: byte where [vendor_num]: "microsoft_VendorTypeUserSecurityIdentity = 0x28"
definition microsoft_VendorTypeIdentityType :: byte where [vendor_num]: "microsoft_VendorTypeIdentityType = 0x29"
definition microsoft_VendorTypeServiceClass :: byte where [vendor_num]: "microsoft_VendorTypeServiceClass = 0x2a"
definition microsoft_VendorTypeQuarantineUserClass :: byte where [vendor_num]: "microsoft_VendorTypeQuarantineUserClass = 0x2c"
definition microsoft_VendorTypeQuarantineState :: byte where [vendor_num]: "microsoft_VendorTypeQuarantineState = 0x2d"
definition microsoft_VendorTypeQuarantineGraceTime :: byte where [vendor_num]: "microsoft_VendorTypeQuarantineGraceTime = 0x2e"
definition microsoft_VendorTypeNetworkAccessServerType :: byte where [vendor_num]: "microsoft_VendorTypeNetworkAccessServerType = 0x2f"
definition microsoft_VendorTypeAFWZone :: byte where [vendor_num]: "microsoft_VendorTypeAFWZone = 0x30"
definition microsoft_VendorTypeAFWProtectionLevel :: byte where [vendor_num]: "microsoft_VendorTypeAFWProtectionLevel = 0x31"
definition microsoft_VendorTypeMachineName :: byte where [vendor_num]: "microsoft_VendorTypeMachineName = 0x32"
definition microsoft_VendorTypeIPv6Filter :: byte where [vendor_num]: "microsoft_VendorTypeIPv6Filter = 0x33"
definition microsoft_VendorTypeIPv4RemediationServers :: byte where [vendor_num]: "microsoft_VendorTypeIPv4RemediationServers = 0x34"
definition microsoft_VendorTypeIPv6RemediationServers :: byte where [vendor_num]: "microsoft_VendorTypeIPv6RemediationServers = 0x35"
definition microsoft_VendorTypeNotQuarantineCapable :: byte where [vendor_num]: "microsoft_VendorTypeNotQuarantineCapable = 0x36"
definition microsoft_VendorTypeQuarantineSoH :: byte where [vendor_num]: "microsoft_VendorTypeQuarantineSoH = 0x37"
definition microsoft_VendorTypeRASCorrelationID :: byte where [vendor_num]: "microsoft_VendorTypeRASCorrelationID = 0x38"
definition microsoft_VendorTypeExtendedQuarantineState :: byte where [vendor_num]: "microsoft_VendorTypeExtendedQuarantineState = 0x39"
definition microsoft_VendorTypeHCAPUserGroups :: byte where [vendor_num]: "microsoft_VendorTypeHCAPUserGroups = 0x3a"
definition microsoft_VendorTypeHCAPLocationGroupName :: byte where [vendor_num]: "microsoft_VendorTypeHCAPLocationGroupName = 0x3b"
definition microsoft_VendorTypeHCAPUserName :: byte where [vendor_num]: "microsoft_VendorTypeHCAPUserName = 0x3c"
definition microsoft_VendorTypeUserIPv4Address :: byte where [vendor_num]: "microsoft_VendorTypeUserIPv4Address = 0x3d"
definition microsoft_VendorTypeUserIPv6Address :: byte where [vendor_num]: "microsoft_VendorTypeUserIPv6Address = 0x3e"
definition microsoft_VendorTypeRDGDeviceRedirection :: byte where [vendor_num]: "microsoft_VendorTypeRDGDeviceRedirection = 0x3f"
definition microsoft_VendorTypeAzurePolicyID :: byte where [vendor_num]: "microsoft_VendorTypeAzurePolicyID = 0x41"
definition microsoft_IdentityTypeMachine :: "32 word" where [vendor_num]: "microsoft_IdentityTypeMachine = 0x00000001"
definition microsoft_QuarantineStateFullAccess :: "32 word" where [vendor_num]: "microsoft_QuarantineStateFullAccess = 0x00000000"
definition microsoft_QuarantineStateRestricted :: "32 word" where [vendor_num]: "microsoft_QuarantineStateRestricted = 0x00000001"
definition microsoft_QuarantineStateOnProbation :: "32 word" where [vendor_num]: "microsoft_QuarantineStateOnProbation = 0x00000002"
definition microsoft_NASTypeUnspecified :: "32 word" where [vendor_num]: "microsoft_NASTypeUnspecified = 0x00000000"
definition microsoft_NASTypeTerminalServerGateway :: "32 word" where [vendor_num]: "microsoft_NASTypeTerminalServerGateway = 0x00000001"
definition microsoft_NASTypeRAS :: "32 word" where [vendor_num]: "microsoft_NASTypeRAS = 0x00000002"
definition microsoft_NASTypeDHCP :: "32 word" where [vendor_num]: "microsoft_NASTypeDHCP = 0x00000003"
definition microsoft_NASTypeHRA :: "32 word" where [vendor_num]: "microsoft_NASTypeHRA = 0x00000005"
definition microsoft_NASTypeHCAP :: "32 word" where [vendor_num]: "microsoft_NASTypeHCAP = 0x00000006"
definition microsoft_AFWZoneEncryptionRequired :: "32 word" where [vendor_num]: "microsoft_AFWZoneEncryptionRequired = 0x00000001"
definition microsoft_AFWZoneEncryptionNotRequired :: "32 word" where [vendor_num]: "microsoft_AFWZoneEncryptionNotRequired = 0x00000002"
definition microsoft_AFWZoneEncryptionRequiredAlt :: "32 word" where [vendor_num]: "microsoft_AFWZoneEncryptionRequiredAlt = 0x00000003"
definition microsoft_AFWProtectionLevelValue1 :: "32 word" where [vendor_num]: "microsoft_AFWProtectionLevelValue1 = 0x00000001"
definition microsoft_AFWProtectionLevelValue2 :: "32 word" where [vendor_num]: "microsoft_AFWProtectionLevelValue2 = 0x00000002"
definition microsoft_NotQuarantineCapableSoHSent :: "32 word" where [vendor_num]: "microsoft_NotQuarantineCapableSoHSent = 0x00000000"
definition microsoft_NotQuarantineCapableSoHNotSent :: "32 word" where [vendor_num]: "microsoft_NotQuarantineCapableSoHNotSent = 0x00000001"
definition microsoft_ExtendedQuarantineStateNoData :: "32 word" where [vendor_num]: "microsoft_ExtendedQuarantineStateNoData = 0x00000000"
definition microsoft_ExtendedQuarantineStateTransition :: "32 word" where [vendor_num]: "microsoft_ExtendedQuarantineStateTransition = 0x00000001"
definition microsoft_ExtendedQuarantineStateInfected :: "32 word" where [vendor_num]: "microsoft_ExtendedQuarantineStateInfected = 0x00000002"
definition microsoft_ExtendedQuarantineStateUnknown :: "32 word" where [vendor_num]: "microsoft_ExtendedQuarantineStateUnknown = 0x00000003"
definition microsoft_RDGRedirDrives :: "32 word" where [vendor_num]: "microsoft_RDGRedirDrives = 1"
definition microsoft_RDGRedirPrinters :: "32 word" where [vendor_num]: "microsoft_RDGRedirPrinters = 2"
definition microsoft_RDGRedirSerialPorts :: "32 word" where [vendor_num]: "microsoft_RDGRedirSerialPorts = 4"
definition microsoft_RDGRedirClipboard :: "32 word" where [vendor_num]: "microsoft_RDGRedirClipboard = 8"
definition microsoft_RDGRedirPlugAndPlay :: "32 word" where [vendor_num]: "microsoft_RDGRedirPlugAndPlay = 16"
definition microsoft_RDGRedirDisableAll :: "32 word" where [vendor_num]: "microsoft_RDGRedirDisableAll = 536870912"
definition microsoft_RDGRedirEnableAll :: "32 word" where [vendor_num]: "microsoft_RDGRedirEnableAll = 1073741824"
definition microsoft_TunnelTypeSSTP :: "32 word" where [vendor_num]: "microsoft_TunnelTypeSSTP = 0x00013701"
definition microsoft_FilterActionForward :: "32 word" where [vendor_num]: "microsoft_FilterActionForward = 0x00000000"
definition microsoft_FilterActionDrop :: "32 word" where [vendor_num]: "microsoft_FilterActionDrop = 0x00000001"
definition microsoft_FilterInfoTypeInput :: "32 word" where [vendor_num]: "microsoft_FilterInfoTypeInput = 0xffff0001"
definition microsoft_FilterInfoTypeOutput :: "32 word" where [vendor_num]: "microsoft_FilterInfoTypeOutput = 0xffff0002"
definition microsoft_FilterInfoTypeSiteToSite :: "32 word" where [vendor_num]: "microsoft_FilterInfoTypeSiteToSite = 0xffff0009"
definition microsoft_FilterLateBoundNone :: "32 word" where [vendor_num]: "microsoft_FilterLateBoundNone = 0x00000000"
definition microsoft_FilterLateBoundSrcAddrReplaceable :: "32 word" where [vendor_num]: "microsoft_FilterLateBoundSrcAddrReplaceable = 0x00000001"
definition microsoft_FilterLateBoundDstAddrReplaceable :: "32 word" where [vendor_num]: "microsoft_FilterLateBoundDstAddrReplaceable = 0x00000004"
definition microsoft_FilterLateBoundSrcMaskReplaceable :: "32 word" where [vendor_num]: "microsoft_FilterLateBoundSrcMaskReplaceable = 0x00000010"
definition microsoft_FilterLateBoundDstMaskReplaceable :: "32 word" where [vendor_num]: "microsoft_FilterLateBoundDstMaskReplaceable = 0x00000020"
definition microsoft_FilterProtocolAny :: "32 word" where [vendor_num]: "microsoft_FilterProtocolAny = 0x00000000"
definition microsoft_FilterProtocolICMP :: "32 word" where [vendor_num]: "microsoft_FilterProtocolICMP = 0x00000001"
definition microsoft_FilterProtocolTCP :: "32 word" where [vendor_num]: "microsoft_FilterProtocolTCP = 0x00000006"
definition microsoft_FilterProtocolUDP :: "32 word" where [vendor_num]: "microsoft_FilterProtocolUDP = 0x00000011"

section \<open>Constructors\<close>

definition microsoft_NewMSCHAPResponse :: "bytes \<Rightarrow> attribute" where
  "microsoft_NewMSCHAPResponse s = NewVSA microsoft_VendorID microsoft_VendorTypeMSCHAPResponse s"

definition microsoft_NewMSCHAP2Response :: "bytes \<Rightarrow> attribute" where
  "microsoft_NewMSCHAP2Response s = NewVSA microsoft_VendorID microsoft_VendorTypeMSCHAP2Response s"

definition microsoft_NewMSCHAP2Success :: "bytes \<Rightarrow> attribute" where
  "microsoft_NewMSCHAP2Success s = NewVSA microsoft_VendorID microsoft_VendorTypeMSCHAP2Success s"

definition microsoft_NewMSCHAP2SuccessFromAuth ::
    "(bytes \<Rightarrow> bytes) \<Rightarrow> bytes \<Rightarrow> bytes \<Rightarrow> bytes \<Rightarrow> string \<Rightarrow> string \<Rightarrow> attribute" where
  "microsoft_NewMSCHAP2SuccessFromAuth md4 authChallenge peerChallenge ntResponse userName password =
    (let resp = GenerateAuthenticatorResponse md4 authChallenge peerChallenge ntResponse userName password
     in microsoft_NewMSCHAP2Success (string_bytes resp))"


definition microsoft_NewMPPEKey :: "byte \<times> byte \<Rightarrow> byte \<Rightarrow> bytes \<Rightarrow> attribute" where
  "microsoft_NewMPPEKey salt keyLength key =
    (let v = replicate (3 + length key) 0;
         v = v[0 := fst salt, 1 := snd salt, 2 := keyLength];
         v = overwrite 3 key v
     in NewVSA microsoft_VendorID microsoft_VendorTypeMPPEKey v)"


text \<open>The last two arguments are the outcomes of the two reads of randomness: salt and padding.\<close>

definition microsoft_NewMPPESendKey :: "bytes \<Rightarrow> bytes \<Rightarrow> bytes \<Rightarrow> bytes res \<Rightarrow> bytes res \<Rightarrow> attribute res" where
  "microsoft_NewMPPESendKey key requestAuth secret salt_rnd pad_rnd =
    (case EncryptMPPEKey key requestAuth secret salt_rnd pad_rnd of Inl e \<Rightarrow> Inl e
     | Inr enc \<Rightarrow> Inr (NewVSA microsoft_VendorID microsoft_VendorTypeMPPESendKey enc))"


definition microsoft_NewMPPERecvKey :: "bytes \<Rightarrow> bytes \<Rightarrow> bytes \<Rightarrow> bytes res \<Rightarrow> bytes res \<Rightarrow> attribute res" where
  "microsoft_NewMPPERecvKey key requestAuth secret salt_rnd pad_rnd =
    (case EncryptMPPEKey key requestAuth secret salt_rnd pad_rnd of Inl e \<Rightarrow> Inl e
     | Inr enc \<Rightarrow> Inr (NewVSA microsoft_VendorID microsoft_VendorTypeMPPERecvKey enc))"


definition microsoft_Decode :: "attribute \<Rightarrow> (byte \<times> bytes) option" where
  "microsoft_Decode attr = MatchVSA attr microsoft_VendorID"

definition microsoft_DecryptMPPEKeyAttribute :: "attribute \<Rightarrow> bytes \<Rightarrow> bytes \<Rightarrow> bytes res" where
  "microsoft_DecryptMPPEKeyAttribute attr requestAuth secret =
    (case microsoft_Decode attr of None \<Rightarrow> Inl ErrInvalidAttribute
     | Some (vendorType, val) \<Rightarrow>
         if vendorType \<noteq> microsoft_VendorTypeMPPESendKey \<and> vendorType \<noteq> microsoft_VendorTypeMPPERecvKey
         then Inl ErrInvalidAttribute
         else DecryptMPPEKey val requestAuth secret)"




definition microsoft_newUint32VSA :: "byte \<Rightarrow> 32 word \<Rightarrow> attribute" where
  "microsoft_newUint32VSA vt n = NewVSA microsoft_VendorID vt (BE_PutUint32 n)"


definition microsoft_ipv4Bytes :: "bytes \<Rightarrow> bytes" where
  "microsoft_ipv4Bytes ip = (case IP_To4 ip of Some v4 \<Rightarrow> v4 | None \<Rightarrow> replicate 4 0)"


definition microsoft_ipv6Bytes :: "bytes \<Rightarrow> bytes" where
  "microsoft_ipv6Bytes ip = (case IP_To16 ip of Some v6 \<Rightarrow> v6 | None \<Rightarrow> replicate 16 0)"


definition microsoft_NewRASClientName :: "bytes \<Rightarrow> attribute" where
  "microsoft_NewRASClientName s = NewVSA microsoft_VendorID microsoft_VendorTypeRASClientName (s @ [0x00])"


definition microsoft_NewRASClientVersion :: "bytes \<Rightarrow> attribute" where
  "microsoft_NewRASClientVersion s = NewVSA microsoft_VendorID microsoft_VendorTypeRASClientVersion s"

definition microsoft_NewServiceClass :: "bytes \<Rightarrow> attribute" where
  "microsoft_NewServiceClass s = NewVSA microsoft_VendorID microsoft_VendorTypeServiceClass s"

definition microsoft_NewQuarantineUserClass :: "bytes \<Rightarrow> attribute" where
  "microsoft_NewQuarantineUserClass s = NewVSA microsoft_VendorID microsoft_VendorTypeQuarantineUserClass s"

definition microsoft_NewMachineName :: "bytes \<Rightarrow> attribute" where
  "microsoft_NewMachineName s = NewVSA microsoft_VendorID microsoft_VendorTypeMachineName s"

definition microsoft_NewHCAPUserGroups :: "bytes \<Rightarrow> attribute" where
  "microsoft_NewHCAPUserGroups s = NewVSA microsoft_VendorID microsoft_VendorTypeHCAPUserGroups s"

definition microsoft_NewHCAPLocationGroupName :: "bytes \<Rightarrow> attribute" where
  "microsoft_NewHCAPLocationGroupName s = NewVSA microsoft_VendorID microsoft_VendorTypeHCAPLocationGroupName s"

definition microsoft_NewHCAPUserName :: "bytes \<Rightarrow> attribute" where
  "microsoft_NewHCAPUserName s = NewVSA microsoft_VendorID microsoft_VendorTypeHCAPUserName s"

definition microsoft_NewAzurePolicyID :: "bytes \<Rightarrow> attribute" where
  "microsoft_NewAzurePolicyID s = NewVSA microsoft_VendorID microsoft_VendorTypeAzurePolicyID s"

definition microsoft_NewQuarantineSessionTimeout :: "32 word \<Rightarrow> attribute" where
  "microsoft_NewQuarantineSessionTimeout n = microsoft_newUint32VSA microsoft_VendorTypeQuarantineSessionTimeout n"

definition microsoft_NewIdentityType :: "32 word \<Rightarrow> attribute" where
  "microsoft_NewIdentityType n = microsoft_newUint32VSA microsoft_VendorTypeIdentityType n"

definition microsoft_NewQuarantineState :: "32 word \<Rightarrow> attribute" where
  "microsoft_NewQuarantineState n = microsoft_newUint32VSA microsoft_VendorTypeQuarantineState n"

definition microsoft_NewQuarantineGraceTime :: "32 word \<Rightarrow> attribute" where
  "microsoft_NewQuarantineGraceTime n = microsoft_newUint32VSA microsoft_VendorTypeQuarantineGraceTime n"

definition microsoft_NewNetworkAccessServerType :: "32 word \<Rightarrow> attribute" where
  "microsoft_NewNetworkAccessServerType n = microsoft_newUint32VSA microsoft_VendorTypeNetworkAccessServerType n"

definition microsoft_NewAFWZone :: "32 word \<Rightarrow> attribute" where
  "microsoft_NewAFWZone n = microsoft_newUint32VSA microsoft_VendorTypeAFWZone n"

definition microsoft_NewAFWProtectionLevel :: "32 word \<Rightarrow> attribute" where
  "microsoft_NewAFWProtectionLevel n = microsoft_newUint32VSA microsoft_VendorTypeAFWProtectionLevel n"

definition microsoft_NewNotQuarantineCapable :: "32 word \<Rightarrow> attribute" where
  "microsoft_NewNotQuarantineCapable n = microsoft_newUint32VSA microsoft_VendorTypeNotQuarantineCapable n"

definition microsoft_NewExtendedQuarantineState :: "32 word \<Rightarrow> attribute" where
  "microsoft_NewExtendedQuarantineState n = microsoft_newUint32VSA microsoft_VendorTypeExtendedQuarantineState n"

definition microsoft_NewRDGDeviceRedirection :: "32 word \<Rightarrow> attribute" where
  "microsoft_NewRDGDeviceRedirection n = microsoft_newUint32VSA microsoft_VendorTypeRDGDeviceRedirection n"

definition microsoft_NewUserIPv4Address :: "bytes \<Rightarrow> attribute" where
  "microsoft_NewUserIPv4Address ip = NewVSA microsoft_VendorID microsoft_VendorTypeUserIPv4Address (microsoft_ipv4Bytes ip)"

definition microsoft_NewUserIPv6Address :: "bytes \<Rightarrow> attribute" where
  "microsoft_NewUserIPv6Address ip = NewVSA microsoft_VendorID microsoft_VendorTypeUserIPv6Address (microsoft_ipv6Bytes ip)"

definition microsoft_NewRASCorrelationID :: "bytes \<Rightarrow> attribute" where
  "microsoft_NewRASCorrelationID s = NewVSA microsoft_VendorID microsoft_VendorTypeRASCorrelationID s"

definition microsoft_NewQuarantineIPFilter :: "bytes \<Rightarrow> attribute" where
  "microsoft_NewQuarantineIPFilter s = NewVSA microsoft_VendorID microsoft_VendorTypeQuarantineIPFilter s"

definition microsoft_NewIPv6Filter :: "bytes \<Rightarrow> attribute" where
  "microsoft_NewIPv6Filter s = NewVSA microsoft_VendorID microsoft_VendorTypeIPv6Filter s"

definition microsoft_NewUserSecurityIdentity :: "bytes \<Rightarrow> attribute" where
  "microsoft_NewUserSecurityIdentity s = NewVSA microsoft_VendorID microsoft_VendorTypeUserSecurityIdentity s"

definition microsoft_NewIPv4RemediationServers :: "bytes list \<Rightarrow> attribute" where
  "microsoft_NewIPv4RemediationServers ips =
     NewVSA microsoft_VendorID microsoft_VendorTypeIPv4RemediationServers (foldl (\<lambda>buf ip. buf @ microsoft_ipv4Bytes ip) [0x00] ips)"


definition microsoft_NewIPv6RemediationServers :: "bytes list \<Rightarrow> attribute" where
  "microsoft_NewIPv6RemediationServers ips =
     NewVSA microsoft_VendorID microsoft_VendorTypeIPv6RemediationServers (foldl (\<lambda>buf ip. buf @ microsoft_ipv6Bytes ip) [0x00] ips)"


definition microsoft_NewQuarantineSoH :: "bytes \<Rightarrow> attribute" where
  "microsoft_NewQuarantineSoH s = NewVSA microsoft_VendorID microsoft_VendorTypeQuarantineSoH s"

definition microsoft_New :: "byte \<Rightarrow> bytes \<Rightarrow> attribute" where
  "microsoft_New vendorType v = NewVSA microsoft_VendorID vendorType v"

definition microsoft_NewTunnelTypeSSTP :: attribute where
  "microsoft_NewTunnelTypeSSTP = NewInteger AttrTunnelType microsoft_TunnelTypeSSTP"



section \<open>Every constructor is read back\<close>

definition microsoft_string_ctors :: "((bytes \<Rightarrow> attribute) \<times> byte) list" where
  "microsoft_string_ctors =
    [(microsoft_NewMSCHAPResponse, microsoft_VendorTypeMSCHAPResponse),
     (microsoft_NewMSCHAP2Response, microsoft_VendorTypeMSCHAP2Response),
     (microsoft_NewMSCHAP2Success, microsoft_VendorTypeMSCHAP2Success),
     (microsoft_NewRASClientVersion, microsoft_VendorTypeRASClientVersion),
     (microsoft_NewServiceClass, microsoft_VendorTypeServiceClass),
     (microsoft_NewQuarantineUserClass, microsoft_VendorTypeQuarantineUserClass),
     (microsoft_NewMachineName, microsoft_VendorTypeMachineName),
     (microsoft_NewHCAPUserGroups, microsoft_VendorTypeHCAPUserGroups),
     (microsoft_NewHCAPLocationGroupName, microsoft_VendorTypeHCAPLocationGroupName),
     (microsoft_NewHCAPUserName, microsoft_VendorTypeHCAPUserName),
     (microsoft_NewAzurePolicyID, microsoft_VendorTypeAzurePolicyID),
     (microsoft_NewRASCorrelationID, microsoft_VendorTypeRASCorrelationID),
     (microsoft_NewQuarantineIPFilter, microsoft_VendorTypeQuarantineIPFilter),
     (microsoft_NewIPv6Filter, microsoft_VendorTypeIPv6Filter),
     (microsoft_NewUserSecurityIdentity, microsoft_VendorTypeUserSecurityIdentity),
     (microsoft_NewQuarantineSoH, microsoft_VendorTypeQuarantineSoH)]"

definition microsoft_int_ctors :: "((32 word \<Rightarrow> attribute) \<times> byte) list" where
  "microsoft_int_ctors =
    [(microsoft_NewQuarantineSessionTimeout, microsoft_VendorTypeQuarantineSessionTimeout),
     (microsoft_NewIdentityType, microsoft_VendorTypeIdentityType),
     (microsoft_NewQuarantineState, microsoft_VendorTypeQuarantineState),
     (microsoft_NewQuarantineGraceTime, microsoft_VendorTypeQuarantineGraceTime),
     (microsoft_NewNetworkAccessServerType, microsoft_VendorTypeNetworkAccessServerType),
     (microsoft_NewAFWZone, microsoft_VendorTypeAFWZone),
     (microsoft_NewAFWProtectionLevel, microsoft_VendorTypeAFWProtectionLevel),
     (microsoft_NewNotQuarantineCapable, microsoft_VendorTypeNotQuarantineCapable),
     (microsoft_NewExtendedQuarantineState, microsoft_VendorTypeExtendedQuarantineState),
     (microsoft_NewRDGDeviceRedirection, microsoft_VendorTypeRDGDeviceRedirection)]"

definition microsoft_ip4_ctors :: "((bytes \<Rightarrow> attribute) \<times> byte) list" where
  "microsoft_ip4_ctors =
    [(microsoft_NewUserIPv4Address, microsoft_VendorTypeUserIPv4Address)]"

definition microsoft_ip6_ctors :: "((bytes \<Rightarrow> attribute) \<times> byte) list" where
  "microsoft_ip6_ctors =
    [(microsoft_NewUserIPv6Address, microsoft_VendorTypeUserIPv6Address)]"

interpretation microsoft: vendor_package microsoft_VendorID microsoft_New microsoft_Decode
  by unfold_locales (simp_all add: microsoft_New_def microsoft_Decode_def)

lemma microsoft_string_ctors_read: "list_all (builds microsoft_Decode (\<lambda>s. s)) microsoft_string_ctors"
  by (simp add: builds_def microsoft_string_ctors_def ctor_wire microsoft_newUint32VSA_def microsoft_ipv4Bytes_def microsoft_ipv6Bytes_def
      microsoft.decode_new microsoft_NewMSCHAPResponse_def microsoft_NewMSCHAP2Response_def microsoft_NewMSCHAP2Success_def microsoft_NewRASClientVersion_def
      microsoft_NewServiceClass_def microsoft_NewQuarantineUserClass_def microsoft_NewMachineName_def microsoft_NewHCAPUserGroups_def
      microsoft_NewHCAPLocationGroupName_def microsoft_NewHCAPUserName_def microsoft_NewAzurePolicyID_def microsoft_NewRASCorrelationID_def
      microsoft_NewQuarantineIPFilter_def microsoft_NewIPv6Filter_def microsoft_NewUserSecurityIdentity_def microsoft_NewQuarantineSoH_def)

lemma microsoft_int_ctors_read: "list_all (builds microsoft_Decode BE_PutUint32) microsoft_int_ctors"
  by (simp add: builds_def microsoft_int_ctors_def ctor_wire microsoft_newUint32VSA_def microsoft_ipv4Bytes_def microsoft_ipv6Bytes_def
      microsoft.decode_new microsoft_NewQuarantineSessionTimeout_def microsoft_NewIdentityType_def microsoft_NewQuarantineState_def microsoft_NewQuarantineGraceTime_def
      microsoft_NewNetworkAccessServerType_def microsoft_NewAFWZone_def microsoft_NewAFWProtectionLevel_def microsoft_NewNotQuarantineCapable_def
      microsoft_NewExtendedQuarantineState_def microsoft_NewRDGDeviceRedirection_def)

lemma microsoft_ip4_ctors_read: "list_all (builds microsoft_Decode ip4_value) microsoft_ip4_ctors"
  by (simp add: builds_def microsoft_ip4_ctors_def ctor_wire microsoft_newUint32VSA_def microsoft_ipv4Bytes_def microsoft_ipv6Bytes_def
      microsoft.decode_new microsoft_NewUserIPv4Address_def)

lemma microsoft_ip6_ctors_read: "list_all (builds microsoft_Decode ip6_value) microsoft_ip6_ctors"
  by (simp add: builds_def microsoft_ip6_ctors_def ctor_wire microsoft_newUint32VSA_def microsoft_ipv4Bytes_def microsoft_ipv6Bytes_def
      microsoft.decode_new microsoft_NewUserIPv6Address_def)

lemma microsoft_sub_types_distinct: "distinct (map snd microsoft_string_ctors @ map snd microsoft_int_ctors @ map snd microsoft_ip4_ctors @ map snd microsoft_ip6_ctors)"
  by (simp add: microsoft_string_ctors_def microsoft_int_ctors_def microsoft_ip4_ctors_def microsoft_ip6_ctors_def vendor_num)

end
