(* ===== verification/Vendors.thy ===== *)
theory Vendors
  imports Huawei H3C Cisco Juniper PaloAlto Redback Alcatel Microsoft
begin

text \<open>
  What spans the packages under \<open>vendors/\<close>: every constructor is read back by its own package
  and by no other, and the MPPE session keys derived from a password travel in Microsoft
  attributes.
\<close>

section \<open>Constructors\<close>

definition vendor_ids :: "32 word list" where
  "vendor_ids = [huawei_VendorID, h3c_VendorID, cisco_VendorID, juniper_VendorID, paloalto_VendorID,
     redback_VendorID, alcatel_VendorID, microsoft_VendorID]"

definition vendor_decoders :: "(attribute \<Rightarrow> (byte \<times> bytes) option) list" where
  "vendor_decoders = [huawei_Decode, h3c_Decode, cisco_Decode, juniper_Decode, paloalto_Decode,
     redback_Decode, alcatel_Decode, microsoft_Decode]"

lemma vendor_ids_distinct: "distinct vendor_ids"
  by (simp add: vendor_ids_def vendor_num)

lemma vendor_decoders_match: "vendor_decoders = map (\<lambda>vid a. MatchVSA a vid) vendor_ids"
  by (simp add: vendor_decoders_def vendor_ids_def fun_eq_iff huawei_Decode_def h3c_Decode_def cisco_Decode_def
      juniper_Decode_def paloalto_Decode_def redback_Decode_def alcatel_Decode_def microsoft_Decode_def)

lemma MatchVSA_two: "MatchVSA a v = Some x \<Longrightarrow> MatchVSA a w = Some y \<Longrightarrow> v = w"
  by (auto simp: MatchVSA_def split: prod.splits if_splits)

lemma decoders_exclusive:
  assumes "i < length vendor_decoders" "j < length vendor_decoders"
    and "(vendor_decoders ! i) a = Some x" "(vendor_decoders ! j) a = Some y"
  shows "i = j"
proof -
  have l: "length vendor_decoders = length vendor_ids" by (simp add: vendor_decoders_match)
  then have "vendor_ids ! i = vendor_ids ! j"
    using assms MatchVSA_two by (simp add: vendor_decoders_match)
  with assms(1,2) l vendor_ids_distinct show ?thesis by (simp add: nth_eq_iff_index_eq)
qed

lemma at_most_one:
  assumes "\<And>i j. i < length ds \<Longrightarrow> j < length ds \<Longrightarrow> P (ds ! i) \<Longrightarrow> P (ds ! j) \<Longrightarrow> i = j"
  shows "length (filter P ds) \<le> 1"
  using assms
proof (induction ds)
  case (Cons d ds)
  have tail: "length (filter P ds) \<le> 1"
    by (rule Cons.IH) (use Cons.prems [of "Suc _" "Suc _"] in auto)
  show ?case
  proof (cases "P d")
    case True
    have none: "\<not> P d'" if "d' \<in> set ds" for d'
    proof
      assume "P d'"
      from that obtain j where "j < length ds" "ds ! j = d'" by (auto simp: in_set_conv_nth)
      then show False using Cons.prems [of 0 "Suc j"] True \<open>P d'\<close> by simp
    qed
    then have "\<forall>d' \<in> set ds. \<not> P d'" by (rule ballI)
    then have "filter P ds = []" by (rule filter_False)
    then show ?thesis by simp
  qed (use tail in simp)
qed simp

lemma recognised_once: "length (filter (\<lambda>d. d a \<noteq> None) vendor_decoders) \<le> 1"
  by (rule at_most_one) (auto intro: decoders_exclusive)

text \<open>The attributes that carry more than one field.\<close>

lemma remediation_servers_value:
  "microsoft_NewIPv4RemediationServers ips =
     NewVSA microsoft_VendorID microsoft_VendorTypeIPv4RemediationServers (0 # concat (map ip4_value ips))"
  "microsoft_NewIPv6RemediationServers ips =
     NewVSA microsoft_VendorID microsoft_VendorTypeIPv6RemediationServers (0 # concat (map ip6_value ips))"
proof -
  have "foldl (\<lambda>buf ip. buf @ f ip) b ips = b @ concat (map f ips)" for f :: "bytes \<Rightarrow> bytes" and b
    by (induction ips arbitrary: b) simp_all
  moreover have "microsoft_ipv4Bytes = ip4_value" "microsoft_ipv6Bytes = ip6_value"
    by (auto simp: fun_eq_iff microsoft_ipv4Bytes_def microsoft_ipv6Bytes_def ctor_wire split: option.split)
  ultimately show
    "microsoft_NewIPv4RemediationServers ips =
       NewVSA microsoft_VendorID microsoft_VendorTypeIPv4RemediationServers (0 # concat (map ip4_value ips))"
    "microsoft_NewIPv6RemediationServers ips =
       NewVSA microsoft_VendorID microsoft_VendorTypeIPv6RemediationServers (0 # concat (map ip6_value ips))"
    by (simp_all add: microsoft_NewIPv4RemediationServers_def microsoft_NewIPv6RemediationServers_def)
qed

lemma mppe_key_value:
  "microsoft_NewMPPEKey (s0, s1) n key = NewVSA microsoft_VendorID microsoft_VendorTypeMPPEKey ([s0, s1, n] @ key)"
  by (simp add: microsoft_NewMPPEKey_def Let_def overwrite_def numeral_3_eq_3)

text \<open>The constructors of Microsoft attributes that compose their value.\<close>

lemma microsoft_composed_read:
  "builds microsoft_Decode (\<lambda>s. s @ [0]) (microsoft_NewRASClientName, microsoft_VendorTypeRASClientName)"
  "builds microsoft_Decode (\<lambda>ips. 0 # concat (map ip4_value ips))
     (microsoft_NewIPv4RemediationServers, microsoft_VendorTypeIPv4RemediationServers)"
  "builds microsoft_Decode (\<lambda>ips. 0 # concat (map ip6_value ips))
     (microsoft_NewIPv6RemediationServers, microsoft_VendorTypeIPv6RemediationServers)"
  "builds microsoft_Decode (\<lambda>(salt, n, key). [fst salt, snd salt, n] @ key)
     (\<lambda>(salt, n, key). microsoft_NewMPPEKey salt n key, microsoft_VendorTypeMPPEKey)"
  "builds microsoft_Decode
     (\<lambda>(md4, ac, pc, nt, user, pw). string_bytes (GenerateAuthenticatorResponse md4 ac pc nt user pw))
     (\<lambda>(md4, ac, pc, nt, user, pw). microsoft_NewMSCHAP2SuccessFromAuth md4 ac pc nt user pw,
      microsoft_VendorTypeMSCHAP2Success)"
  by (simp_all add: builds_def microsoft.decode_new remediation_servers_value mppe_key_value
      microsoft_NewRASClientName_def microsoft_NewMSCHAP2SuccessFromAuth_def microsoft_NewMSCHAP2Success_def Let_def)

lemma microsoft_session_keys_read:
  "map_sum id microsoft_Decode (microsoft_NewMPPESendKey key ra secret salt pad) =
     map_sum id (\<lambda>v. Some (microsoft_VendorTypeMPPESendKey, take 253 v)) (EncryptMPPEKey key ra secret salt pad)"
  "map_sum id microsoft_Decode (microsoft_NewMPPERecvKey key ra secret salt pad) =
     map_sum id (\<lambda>v. Some (microsoft_VendorTypeMPPERecvKey, take 253 v)) (EncryptMPPEKey key ra secret salt pad)"
  by (simp_all add: microsoft_NewMPPESendKey_def microsoft_NewMPPERecvKey_def microsoft.decode_new split: sum.split)

definition microsoft_composed_types :: "byte list" where
  "microsoft_composed_types = [microsoft_VendorTypeRASClientName, microsoft_VendorTypeIPv4RemediationServers,
     microsoft_VendorTypeIPv6RemediationServers, microsoft_VendorTypeMPPEKey, microsoft_VendorTypeMPPESendKey,
     microsoft_VendorTypeMPPERecvKey]"

lemma microsoft_all_sub_types_distinct:
  "distinct (map snd microsoft_string_ctors @ map snd microsoft_int_ctors @ map snd microsoft_ip4_ctors @
     map snd microsoft_ip6_ctors @ microsoft_composed_types)"
  by (simp add: microsoft_string_ctors_def microsoft_int_ctors_def microsoft_ip4_ctors_def microsoft_ip6_ctors_def
      microsoft_composed_types_def vendor_num)

text \<open>The untyped constructor of each package, beside its decoder.\<close>

definition vendor_news :: "((byte \<Rightarrow> bytes \<Rightarrow> attribute) \<times> (attribute \<Rightarrow> (byte \<times> bytes) option)) list" where
  "vendor_news = [(huawei_New, huawei_Decode), (h3c_New, h3c_Decode), (cisco_New, cisco_Decode),
     (juniper_New, juniper_Decode), (paloalto_New, paloalto_Decode), (redback_New, redback_Decode),
     (alcatel_New, alcatel_Decode), (microsoft_New, microsoft_Decode)]"

lemma vendor_news_read: "list_all (\<lambda>(new, decode). decode (new vt v) = Some (vt, take 253 v)) vendor_news"
  by (simp add: vendor_news_def huawei_New_def h3c_New_def cisco_New_def juniper_New_def paloalto_New_def
      redback_New_def alcatel_New_def microsoft_New_def huawei.decode_new h3c.decode_new cisco.decode_new
      juniper.decode_new paloalto.decode_new redback.decode_new alcatel.decode_new microsoft.decode_new)

lemma tunnel_type_sstp:
  "aType microsoft_NewTunnelTypeSSTP = AttrTunnelType" "attr_Integer microsoft_NewTunnelTypeSSTP = Inr 0x00013701"
  "filter (\<lambda>d. d microsoft_NewTunnelTypeSSTP \<noteq> None) vendor_decoders = []"
proof -
  show "aType microsoft_NewTunnelTypeSSTP = AttrTunnelType" by (simp add: microsoft_NewTunnelTypeSSTP_def NewInteger_def)
  show "attr_Integer microsoft_NewTunnelTypeSSTP = Inr 0x00013701"
    by (simp add: microsoft_NewTunnelTypeSSTP_def vendor_num attr_Integer_def NewInteger_def)
  have "MatchVSA microsoft_NewTunnelTypeSSTP vid = None" for vid
    by (simp add: MatchVSA_def DecodeVSA_def attr_VendorSpecific_def microsoft_NewTunnelTypeSSTP_def NewInteger_def attr_num)
  then show "filter (\<lambda>d. d microsoft_NewTunnelTypeSSTP \<noteq> None) vendor_decoders = []"
    by (simp add: vendor_decoders_match filter_empty_conv)
qed

text \<open>
  C40: Every constructor of the eight vendor packages, read back. A typed constructor of a
  string, number or address, and each of the Microsoft ones that compose their value from
  several arguments, builds an attribute that its package decodes to exactly the constructor's
  sub-type and the value (cut at 253 octets); the two session key constructors fail exactly when
  the encryption does, and hold its result otherwise; the untyped constructors are read back with
  the sub-type they are given. No two constructors of a package have the same sub-type, but for
  the two forms of MS-CHAP2-Success. Tunnel-Type SSTP is the one that builds no vendor
  attribute: it has the number of SSTP and no package recognises it. No attribute at all is
  recognised by two packages.
\<close>

theorem vendor_constructors:
  "list_all (builds huawei_Decode (\<lambda>s. s)) huawei_string_ctors
   \<and> list_all (builds huawei_Decode BE_PutUint32) huawei_int_ctors
   \<and> list_all (builds huawei_Decode ip6_value) huawei_ip6_ctors
   \<and> list_all (builds h3c_Decode (\<lambda>s. s)) h3c_string_ctors
   \<and> list_all (builds h3c_Decode BE_PutUint32) h3c_int_ctors
   \<and> list_all (builds h3c_Decode ip4_value) h3c_ip4_ctors
   \<and> list_all (builds cisco_Decode (\<lambda>s. s)) cisco_string_ctors
   \<and> list_all (builds juniper_Decode (\<lambda>s. s)) juniper_string_ctors
   \<and> list_all (builds juniper_Decode BE_PutUint32) juniper_int_ctors
   \<and> list_all (builds paloalto_Decode (\<lambda>s. s)) paloalto_string_ctors
   \<and> list_all (builds redback_Decode (\<lambda>s. s)) redback_string_ctors
   \<and> list_all (builds microsoft_Decode (\<lambda>s. s)) microsoft_string_ctors
   \<and> list_all (builds microsoft_Decode BE_PutUint32) microsoft_int_ctors
   \<and> list_all (builds microsoft_Decode ip4_value) microsoft_ip4_ctors
   \<and> list_all (builds microsoft_Decode ip6_value) microsoft_ip6_ctors
   \<and> builds microsoft_Decode (\<lambda>s. s @ [0]) (microsoft_NewRASClientName, microsoft_VendorTypeRASClientName)
   \<and> builds microsoft_Decode (\<lambda>ips. 0 # concat (map ip4_value ips))
       (microsoft_NewIPv4RemediationServers, microsoft_VendorTypeIPv4RemediationServers)
   \<and> builds microsoft_Decode (\<lambda>ips. 0 # concat (map ip6_value ips))
       (microsoft_NewIPv6RemediationServers, microsoft_VendorTypeIPv6RemediationServers)
   \<and> builds microsoft_Decode (\<lambda>(salt, n, key). [fst salt, snd salt, n] @ key)
       (\<lambda>(salt, n, key). microsoft_NewMPPEKey salt n key, microsoft_VendorTypeMPPEKey)
   \<and> builds microsoft_Decode
       (\<lambda>(md4, ac, pc, nt, user, pw). string_bytes (GenerateAuthenticatorResponse md4 ac pc nt user pw))
       (\<lambda>(md4, ac, pc, nt, user, pw). microsoft_NewMSCHAP2SuccessFromAuth md4 ac pc nt user pw,
        microsoft_VendorTypeMSCHAP2Success)
   \<and> map_sum id microsoft_Decode (microsoft_NewMPPESendKey key ra secret salt pad) =
       map_sum id (\<lambda>v. Some (microsoft_VendorTypeMPPESendKey, take 253 v)) (EncryptMPPEKey key ra secret salt pad)
   \<and> map_sum id microsoft_Decode (microsoft_NewMPPERecvKey key ra secret salt pad) =
       map_sum id (\<lambda>v. Some (microsoft_VendorTypeMPPERecvKey, take 253 v)) (EncryptMPPEKey key ra secret salt pad)
   \<and> list_all (\<lambda>(new, decode). decode (new vt v) = Some (vt, take 253 v)) vendor_news
   \<and> list_all distinct
      [map snd huawei_string_ctors @ map snd huawei_int_ctors @ map snd huawei_ip6_ctors,
       map snd h3c_string_ctors @ map snd h3c_int_ctors @ map snd h3c_ip4_ctors,
       map snd cisco_string_ctors, map snd juniper_string_ctors @ map snd juniper_int_ctors,
       map snd paloalto_string_ctors, map snd redback_string_ctors,
       map snd microsoft_string_ctors @ map snd microsoft_int_ctors @ map snd microsoft_ip4_ctors @
         map snd microsoft_ip6_ctors @ microsoft_composed_types]
   \<and> aType microsoft_NewTunnelTypeSSTP = AttrTunnelType \<and> attr_Integer microsoft_NewTunnelTypeSSTP = Inr 0x00013701
   \<and> filter (\<lambda>d. d microsoft_NewTunnelTypeSSTP \<noteq> None) vendor_decoders = []
   \<and> length (filter (\<lambda>d. d a \<noteq> None) vendor_decoders) \<le> 1"
  by (intro conjI vendor_news_read microsoft_composed_read microsoft_session_keys_read tunnel_type_sstp recognised_once)
    (simp_all only: list.pred_inject simp_thms huawei_string_ctors_read huawei_int_ctors_read huawei_ip6_ctors_read
      h3c_string_ctors_read h3c_int_ctors_read h3c_ip4_ctors_read cisco_string_ctors_read
      juniper_string_ctors_read juniper_int_ctors_read paloalto_string_ctors_read redback_string_ctors_read
      microsoft_string_ctors_read microsoft_int_ctors_read microsoft_ip4_ctors_read microsoft_ip6_ctors_read
      huawei_sub_types_distinct h3c_sub_types_distinct cisco_sub_types_distinct juniper_sub_types_distinct
      paloalto_sub_types_distinct redback_sub_types_distinct microsoft_all_sub_types_distinct)

section \<open>MPPE keys\<close>

lemma mppe_attribute:
  assumes "secret \<noteq> []" "length key \<le> 239" "length salt = 2" "length pad = saltedPaddingLen (length key)"
    and "vt = microsoft_VendorTypeMPPESendKey \<or> vt = microsoft_VendorTypeMPPERecvKey"
  shows "\<exists>v. EncryptMPPEKey key ra secret (Inr salt) (Inr pad) = Inr v \<and> length v \<le> 242
    \<and> microsoft_DecryptMPPEKeyAttribute (NewVSA microsoft_VendorID vt v) ra secret = Inr key"
proof -
  have s: "length (salt[0 := (salt ! 0) OR 0x80]) = 2" using assms(3) by simp
  from salted_roundtrip [OF assms(1) s assms(2,4), of ra] obtain v
    where e: "encryptSaltedPasswordWithPadding key ra secret (salt[0 := (salt ! 0) OR 0x80]) pad = Inr v"
      and l: "length v = 3 + length key + length pad" and d: "decryptSaltedAttribute v ra secret = Inr key" by blast
  have "1 + length key + length pad \<le> 240"
    using salted_padding_multiple [of "length key"] saltedPaddingLen_le [of "length key"] assms(2,4)
    by presburger
  with l have "length v \<le> 242" by simp
  moreover have "microsoft_Decode (NewVSA microsoft_VendorID vt v) = Some (vt, v)"
    using \<open>length v \<le> 242\<close> by (simp add: microsoft.decode_new)
  ultimately show ?thesis
    using e d assms by (auto simp: microsoft_DecryptMPPEKeyAttribute_def DecryptMPPEKey_def
        EncryptMPPEKey_def encryptSaltedPassword_def limit_num)
qed

text \<open>
  C21: The session keys a server derives from a password reach the NAS: put into the Send-Key
  and Recv-Key attributes, whatever the random salts and paddings, both attributes fit the wire,
  and decrypting them with the same secret and request authenticator gives exactly the derived
  keys. A Microsoft attribute of another sub-type, an attribute of another vendor, or one that is
  no such attribute is refused.
\<close>

theorem mppe_key_delivery:
  assumes "DeriveMPPEKeysFromPassword md4 pw nt n = Inr (send, recv)" "secret \<noteq> []"
    and "length salt = 2" "length pad = saltedPaddingLen (nat n)"
    and "length salt' = 2" "length pad' = saltedPaddingLen (nat n)"
  shows "(\<exists>a b w w'.
      microsoft_NewMPPESendKey send ra secret (Inr salt) (Inr pad) = Inr a
      \<and> microsoft_NewMPPERecvKey recv ra secret (Inr salt') (Inr pad') = Inr b
      \<and> MarshalBinary a = Inr w \<and> MarshalBinary b = Inr w'
      \<and> microsoft_DecryptMPPEKeyAttribute a ra secret = Inr send
      \<and> microsoft_DecryptMPPEKeyAttribute b ra secret = Inr recv)
    \<and> (fst (DecodeVSA c) \<noteq> microsoft_VendorID \<or> fst (snd (DecodeVSA c)) \<notin> {16, 17}
        \<longrightarrow> microsoft_DecryptMPPEKeyAttribute c ra secret = Inl ErrInvalidAttribute)"
proof (intro conjI impI)
  have n: "(n = 8 \<or> n = 16) \<and> length send = nat n \<and> length recv = nat n"
    by (rule mppe_keys_lengths [OF assms(1)])
  then have l: "length send \<le> 239" "length recv \<le> 239" by auto
  have p: "length pad = saltedPaddingLen (length send)" "length pad' = saltedPaddingLen (length recv)"
    using assms(4,6) n by simp_all
  have m: "\<exists>w. MarshalBinary (NewVSA vid vt v) = Inr w" if "length v \<le> 242" for vid vt v
    using that by (simp add: MarshalBinary_def NewVSA_payload NewVendorSpecific_def vsa_payload_def limit_num)
  from mppe_attribute [OF assms(2) l(1) assms(3) p(1), of microsoft_VendorTypeMPPESendKey ra]
    mppe_attribute [OF assms(2) l(2) assms(5) p(2), of microsoft_VendorTypeMPPERecvKey ra] m
  show "\<exists>a b w w'.
      microsoft_NewMPPESendKey send ra secret (Inr salt) (Inr pad) = Inr a
      \<and> microsoft_NewMPPERecvKey recv ra secret (Inr salt') (Inr pad') = Inr b
      \<and> MarshalBinary a = Inr w \<and> MarshalBinary b = Inr w'
      \<and> microsoft_DecryptMPPEKeyAttribute a ra secret = Inr send
      \<and> microsoft_DecryptMPPEKeyAttribute b ra secret = Inr recv"
    by (fastforce simp: microsoft_NewMPPESendKey_def microsoft_NewMPPERecvKey_def)
  show "microsoft_DecryptMPPEKeyAttribute c ra secret = Inl ErrInvalidAttribute"
    if "fst (DecodeVSA c) \<noteq> microsoft_VendorID \<or> fst (snd (DecodeVSA c)) \<notin> {16, 17}"
    using that
    by (auto simp: microsoft_DecryptMPPEKeyAttribute_def microsoft_Decode_def MatchVSA_def vendor_num split: prod.split)
qed

theorem mppe_key_delivery_witness:
  "\<exists>send recv a b.
      DeriveMPPEKeysFromPassword (\<lambda>_. []) ''secret'' (replicate 24 7) 16 = Inr (send, recv)
      \<and> microsoft_NewMPPESendKey send (replicate 16 1) [115] (Inr [4, 5]) (Inr (replicate 15 6)) = Inr a
      \<and> microsoft_NewMPPERecvKey recv (replicate 16 1) [115] (Inr [8, 9]) (Inr (replicate 15 0)) = Inr b
      \<and> microsoft_DecryptMPPEKeyAttribute a (replicate 16 1) [115] = Inr send
      \<and> microsoft_DecryptMPPEKeyAttribute b (replicate 16 1) [115] = Inr recv"
proof -
  obtain send recv where d: "DeriveMPPEKeysFromPassword (\<lambda>_. []) ''secret'' (replicate 24 7) 16 = Inr (send, recv)"
    using mppe_keys_derived [of 16] by blast
  have "length (replicate 15 (x :: byte)) = saltedPaddingLen (nat 16)" for x
    by (simp add: saltedPaddingLen_def Let_def)
  with mppe_key_delivery [OF d, of "[115]" "[4, 5]" "replicate 15 6" "[8, 9]" "replicate 15 0" "replicate 16 1"] d
  show ?thesis by fastforce
qed

end
