(* ===== verification/DictGen.thy ===== *)
theory DictGen
  imports DictParser Errors "HOL-Library.Multiset" "HOL-Library.List_Lexorder" "HOL-Library.Char_ord" "HOL-Library.Product_Lexorder"
begin

text \<open>
  \<open>dictionary/gen/gen.go\<close>: the generator of Go source from a parsed dictionary, and
  \<open>sanitizePkgName\<close> of \<open>cmd/dict-gen\<close>. An emitting function is the list of the texts it hands
  to \<open>Fprintf\<close>, in order; a writer has the results of its coming writes (an error comes with the
  number of octets written before it; used up: complete), and the first error ends everything.
\<close>

section \<open>Writing\<close>

record writer =
  wOut :: string
  wRes :: "(nat \<times> gerror) option list"

definition write_one :: "string \<Rightarrow> writer \<Rightarrow> gerror option \<times> writer" where
  "write_one s w =
    (case wRes w of [] \<Rightarrow> (None, w\<lparr>wOut := wOut w @ s\<rparr>)
     | None # rs \<Rightarrow> (None, w\<lparr>wOut := wOut w @ s, wRes := rs\<rparr>)
     | Some (n, e) # rs \<Rightarrow> (Some e, w\<lparr>wOut := wOut w @ take n s, wRes := rs\<rparr>))"

fun write_all :: "string list \<Rightarrow> writer \<Rightarrow> gerror option \<times> writer" where
  "write_all [] w = (None, w)"
| "write_all (s # ss) w =
    (case write_one s w of (Some e, w') \<Rightarrow> (Some e, w') | (None, w') \<Rightarrow> write_all ss w')"

definition nl :: string where "nl = [CHR 0x0A]"
definition tab :: string where "tab = [CHR 0x09]"

definition quoted :: "string \<Rightarrow> string" where
  "quoted s = [CHR 0x22] @ s @ [CHR 0x22]"

definition go_text :: "string list \<Rightarrow> string" where
  "go_text ls = concat (map (\<lambda>l. l @ nl) ls)"

section \<open>Names\<close>

definition stripHyphens :: "string \<Rightarrow> string" where
  "stripHyphens name = filter (\<lambda>c. c \<noteq> CHR '' '') (filter (\<lambda>c. c \<noteq> CHR ''-'') name)"

definition attrConstName :: "dict_attr \<Rightarrow> string" where
  "attrConstName a =
    (let base = ''Attr'';
         base = (if daVendor a \<noteq> [] then base @ stripHyphens (daVendor a) @ ''_'' else base)
     in base @ stripHyphens (daName a))"

definition attrIdentBase :: "dict_attr \<Rightarrow> string" where
  "attrIdentBase a =
    (if daVendor a \<noteq> [] then stripHyphens (daVendor a) @ ''_'' @ stripHyphens (daName a)
     else stripHyphens (daName a))"

definition valConstName :: "string \<Rightarrow> string \<Rightarrow> string" where
  "valConstName attrName valName = ''Val'' @ stripHyphens attrName @ stripHyphens valName"

section \<open>Accessors\<close>

record accessor_signature =
  asGoType :: string
  asCtor :: string
  asNeedsNet :: bool
  asGetBody :: string

definition get_checked :: "string \<Rightarrow> string \<Rightarrow> string \<Rightarrow> string" where
  "get_checked var call zero =
     var @ '', err := a.'' @ call @ ''()'' @ nl @ tab @ ''if err != nil {'' @ nl @ tab @ tab @
     ''return '' @ zero @ '', false'' @ nl @ tab @ ''}'' @ nl @ tab @ ''return '' @ var @ '', true''"

definition accessorSig :: "string \<Rightarrow> accessor_signature option" where
  "accessorSig vt =
    (if vt = ''string'' then Some \<lparr>asGoType = ''string'', asCtor = ''packet.NewString'', asNeedsNet = False,
        asGetBody = ''return string(a.Value), true''\<rparr>
     else if vt = ''integer'' then Some \<lparr>asGoType = ''uint32'', asCtor = ''packet.NewInteger'', asNeedsNet = False,
        asGetBody = get_checked ''n'' ''Integer'' ''0''\<rparr>
     else if vt = ''ipaddr'' then Some \<lparr>asGoType = ''net.IP'', asCtor = ''packet.NewIPAddr'', asNeedsNet = True,
        asGetBody = get_checked ''ip'' ''IPAddr'' ''nil''\<rparr>
     else if vt = ''ipv6addr'' then Some \<lparr>asGoType = ''net.IP'', asCtor = ''packet.NewIPv6Addr'', asNeedsNet = True,
        asGetBody = get_checked ''ip'' ''IPv6Addr'' ''nil''\<rparr>
     else if vt = ''octets'' \<or> vt = ''raw'' then Some \<lparr>asGoType = ''[]byte'', asCtor = ''packet.NewOctets'',
        asNeedsNet = False, asGetBody = ''return append([]byte(nil), a.Value...), true''\<rparr>
     else None)"

definition zeroValue :: "accessor_signature \<Rightarrow> string" where
  "zeroValue sig =
    (if asGoType sig = ''string'' then quoted []
     else if asGoType sig = ''uint32'' then ''0''
     else if asGoType sig = ''net.IP'' then ''nil''
     else if asGoType sig = ''[]byte'' then ''nil''
     else ''nil'')"

definition emitOneAccessor :: "dict_attr \<Rightarrow> accessor_signature \<Rightarrow> string list" where
  "emitOneAccessor a sig =
    (let constName = attrConstName a;
         addName = ''Add'' @ attrIdentBase a;
         getName = ''Get'' @ attrIdentBase a
     in [go_text
           [''// '' @ addName @ '' appends a '' @ daName a @ '' attribute.'',
            ''func '' @ addName @ ''(p *packet.Packet, v '' @ asGoType sig @ '') {'',
            tab @ ''p.Add('' @ asCtor sig @ ''('' @ constName @ '', v))'', ''}'', []],
         go_text
           [''// '' @ getName @ '' returns the first '' @ daName a @ '' attribute value, or false if absent.'',
            ''func '' @ getName @ ''(p *packet.Packet) ('' @ asGoType sig @ '', bool) {'',
            tab @ ''a, ok := p.GetOne('' @ constName @ '')'', tab @ ''if !ok {'',
            tab @ tab @ ''return '' @ zeroValue sig @ '', false'', tab @ ''}'',
            tab @ asGetBody sig, ''}'', []]])"

fun emitAccessors :: "dict_attr list \<Rightarrow> string list" where
  "emitAccessors [] = []"
| "emitAccessors (a # as) =
    (case accessorSig (daValueType a) of
       None \<Rightarrow> [go_text
           [''// '' @ attrConstName a @ '' is a '' @ daValueType a @ '' attribute; no typed accessor is generated.'',
            ''// Use packet.NewString / NewOctets or the vendor sub-package instead.'', []]]
     | Some sig \<Rightarrow> emitOneAccessor a sig) @ emitAccessors as"

section \<open>Constants\<close>

definition emitImports :: "bool \<Rightarrow> string list" where
  "emitImports needsNet =
    (if \<not> needsNet
     then [go_text [''import ('', tab @ quoted ''github.com/wxccs/radius/v2/packet'', '')'', []]]
     else [go_text [''import ('', tab @ quoted ''net'', [], tab @ quoted ''github.com/wxccs/radius/v2/packet'', '')'', []]])"

definition emitAttributeConstants :: "dict_attr list \<Rightarrow> string list" where
  "emitAttributeConstants attrs =
    (if attrs = [] then []
     else [go_text [''// Attribute type numbers.'', ''const ('']] @
       map (\<lambda>a. tab @ attrConstName a @ '' = '' @ dec_digits (unat (daType a)) @ nl) attrs @
       [go_text ['')'', []]])"

fun value_loop :: "string \<Rightarrow> dict_val list \<Rightarrow> string list" where
  "value_loop prevAttr [] = []"
| "value_loop prevAttr (v # vs) =
    (if dvAttributeName v \<noteq> prevAttr
     then (if prevAttr \<noteq> [] then [nl] else []) @ [tab @ ''// '' @ dvAttributeName v @ nl] else []) @
    [tab @ valConstName (dvAttributeName v) (dvName v) @ '' = '' @ dec_digits (unat (dvNumber v)) @ nl] @
    value_loop (dvAttributeName v) vs"

definition emitValueConstants :: "dict_val list \<Rightarrow> string list" where
  "emitValueConstants values =
    (if values = [] then []
     else [go_text [''// Enumerated values.'', ''const ('']] @ value_loop [] values @ [go_text ['')'', []]])"

section \<open>The generator\<close>

record gen_options =
  goPackage :: string
  goHeader :: string

fun needs_net :: "dict_attr list \<Rightarrow> bool" where
  "needs_net [] = False"
| "needs_net (a # as) = (if daValueType a = ''ipaddr'' \<or> daValueType a = ''ipv6addr'' then True else needs_net as)"

definition gen_chunks :: "dict_file \<Rightarrow> gen_options \<Rightarrow> string list" where
  "gen_chunks p opt =
    (let pkg = (if goPackage opt = [] then ''attrs'' else goPackage opt);
         attrs = sort_key (\<lambda>a. (daVendor a, daName a)) (dfAttributes p);
         vals = sort_key (\<lambda>v. (dvAttributeName v, dvName v)) (dfValues p)
     in [go_text [''// Code generated by dict-gen. DO NOT EDIT.'', []]] @
        (if goHeader opt \<noteq> [] then [goHeader opt @ nl @ nl] else []) @
        [''package '' @ pkg @ nl @ nl] @ emitImports (needs_net attrs) @
        emitAttributeConstants attrs @ emitValueConstants vals @ emitAccessors attrs)"

definition Gen :: "dict_file option \<Rightarrow> writer \<Rightarrow> gen_options \<Rightarrow> gerror option \<times> writer" where
  "Gen p w opt =
    (case p of None \<Rightarrow> (Some (ErrOther ''gen: nil parser.Dict''), w)
     | Some d \<Rightarrow> write_all (gen_chunks d opt) w)"

text \<open>\<open>sanitizePkgName\<close>\<close>

definition ident_rune :: "nat \<Rightarrow> bool" where
  "ident_rune c \<longleftrightarrow> (97 \<le> c \<and> c \<le> 122) \<or> (65 \<le> c \<and> c \<le> 90) \<or> (48 \<le> c \<and> c \<le> 57) \<or> c = 95"

definition sanitizePkgName :: "string \<Rightarrow> string" where
  "sanitizePkgName s =
    (if s = [] then ''attrs''
     else let out = map (\<lambda>c. if ident_rune c then c else 95) (runes s);
              out = (if 48 \<le> out ! 0 \<and> out ! 0 \<le> 57 then [95] @ out else out)
       in string_of_runes out)"

section \<open>Properties\<close>

lemma write_all_ok: "wRes w = [] \<Longrightarrow> write_all ss w = (None, w\<lparr>wOut := wOut w @ concat ss\<rparr>)"
  by (induction ss arbitrary: w) (simp_all add: write_one_def)

definition first_error :: "(nat \<times> gerror) option list \<Rightarrow> gerror option" where
  "first_error rs = (case dropWhile (\<lambda>r. r = None) rs of [] \<Rightarrow> None | r # _ \<Rightarrow> map_option snd r)"

lemma write_all_error: "fst (write_all ss w) = first_error (take (length ss) (wRes w))"
proof (induction ss arbitrary: w)
  case (Cons s ss)
  then show ?case
    by (cases "wRes w") (auto simp: write_one_def first_error_def split: option.split)
qed (simp add: first_error_def)

lemma needs_net_iff:
  "needs_net as \<longleftrightarrow> (\<exists>a \<in> set as. \<exists>sig. accessorSig (daValueType a) = Some sig \<and> asGoType sig = ''net.IP'')"
  by (induction as) (auto simp: accessorSig_def)

lemma needs_net_mset: "mset as = mset bs \<Longrightarrow> needs_net as = needs_net bs"
  by (metis needs_net_iff set_mset_mset)

lemma emitAccessors_split:
  "a \<in> set as \<Longrightarrow> accessorSig (daValueType a) = Some sig \<Longrightarrow>
   \<exists>pre post. emitAccessors as = pre @ emitOneAccessor a sig @ post"
proof (induction as)
  case (Cons b as)
  show ?case
  proof (cases "a = b")
    case True
    then show ?thesis using Cons.prems by (intro exI [of _ "[]"] exI [of _ "emitAccessors as"]) simp
  next
    case False
    with Cons obtain pre post where "emitAccessors as = pre @ emitOneAccessor a sig @ post" by auto
    moreover obtain x where "emitAccessors (b # as) = x @ emitAccessors as" by simp
    ultimately have "emitAccessors (b # as) = (x @ pre) @ emitOneAccessor a sig @ post" by simp
    then show ?thesis by blast
  qed
qed simp

definition attr_key :: "dict_attr \<Rightarrow> string \<times> string" where
  "attr_key a = (daVendor a, daName a)"

definition val_key :: "dict_val \<Rightarrow> string \<times> string" where
  "val_key v = (dvAttributeName v, dvName v)"

lemma sort_key_permuted:
  assumes "mset xs = mset ys" "inj_on f (set xs)"
  shows "sort_key f xs = sort_key f ys"
  by (rule sort_key_inj_key_eq [OF _ assms(2)]) (simp_all add: assms(1))

text \<open>The import block of a file whose accessors do, or do not, mention \<open>net.IP\<close>.\<close>

lemma import_block:
  "concat (emitImports (needs_net as)) =
    (if \<exists>a \<in> set as. \<exists>sig. accessorSig (daValueType a) = Some sig \<and> asGoType sig = ''net.IP''
     then go_text [''import ('', tab @ quoted ''net'', [], tab @ quoted ''github.com/wxccs/radius/v2/packet'', '')'', []]
     else go_text [''import ('', tab @ quoted ''github.com/wxccs/radius/v2/packet'', '')'', []])"
  unfolding needs_net_iff [symmetric] by (simp add: emitImports_def)

text \<open>What follows the imports: the constants and the accessors, of the sorted entries.\<close>

definition gen_body :: "dict_attr list \<Rightarrow> dict_val list \<Rightarrow> string" where
  "gen_body attrs vals = concat (emitAttributeConstants attrs) @ concat (emitValueConstants vals) @ concat (emitAccessors attrs)"

lemma generated_text:
  assumes "attrs = sort_key attr_key (dfAttributes p)" "vals = sort_key val_key (dfValues p)"
  shows "concat (gen_chunks p opt) =
    go_text [''// Code generated by dict-gen. DO NOT EDIT.'', []] @
    (if goHeader opt = [] then [] else goHeader opt @ nl @ nl) @
    ''package '' @ (if goPackage opt = [] then ''attrs'' else goPackage opt) @ nl @ nl @
    concat (emitImports (needs_net (dfAttributes p))) @ gen_body attrs vals"
proof -
  have "needs_net attrs = needs_net (dfAttributes p)" by (rule needs_net_mset) (simp add: assms(1))
  then show ?thesis
    by (simp add: gen_chunks_def gen_body_def Let_def assms(2) assms(1) [symmetric, unfolded attr_key_def [abs_def]]
        val_key_def [abs_def])
qed



text \<open>The text of the generator for a small dictionary.\<close>

lemma generator_vector:
  "wOut (snd (Gen (Some \<lparr>dfAttributes = [\<lparr>daName = ''X-Y'', daType = 7, daValueType = ''vsa'', daEncrypt = 0,
        daHasTag = False, daVendor = []\<rparr>], dfValues = [\<lparr>dvAttributeName = ''X-Y'', dvName = ''On'', dvNumber = 1\<rparr>],
      dfVendors = []\<rparr>) \<lparr>wOut = [], wRes = []\<rparr> \<lparr>goPackage = ''p'', goHeader = []\<rparr>)) =
   go_text [''// Code generated by dict-gen. DO NOT EDIT.'', [], ''package p'', [],
     ''import ('', tab @ quoted ''github.com/wxccs/radius/v2/packet'', '')'', [],
     ''// Attribute type numbers.'', ''const ('', tab @ ''AttrXY = 7'', '')'', [],
     ''// Enumerated values.'', ''const ('', tab @ ''// X-Y'', tab @ ''ValXYOn = 1'', '')'', [],
     ''// AttrXY is a vsa attribute; no typed accessor is generated.'',
     ''// Use packet.NewString / NewOctets or the vendor sub-package instead.'', []]"
  by code_simp

lemma string_of_ascii_runes: "\<forall>c \<in> set rs. c < 128 \<Longrightarrow> string_of_runes rs = map char_of rs"
  by (induction rs) (auto simp: string_of_runes_def EncodeRune_def RuneError_def)

lemma sanitize_identifier:
  "sanitizePkgName s \<noteq> [] \<and> (\<forall>c \<in> set (sanitizePkgName s). ident_rune (ord c))
   \<and> \<not> (48 \<le> ord (hd (sanitizePkgName s)) \<and> ord (hd (sanitizePkgName s)) \<le> 57)"
proof (cases "s = []")
  case True
  then show ?thesis by (simp add: sanitizePkgName_def) (code_simp)
next
  case False
  define out where "out = map (\<lambda>c. if ident_rune c then c else 95) (runes s)"
  define out' where "out' = (if 48 \<le> out ! 0 \<and> out ! 0 \<le> 57 then [95] @ out else out)"
  have ne: "out \<noteq> []" using False by (subst out_def, subst runes.simps) simp
  have id: "\<forall>c \<in> set out'. ident_rune c" by (auto simp: out'_def out_def ident_rune_def)
  have small: "ident_rune c \<Longrightarrow> c < 128" for c by (auto simp: ident_rune_def)
  have e: "sanitizePkgName s = map char_of out'"
    using False id small by (simp add: sanitizePkgName_def Let_def out_def [symmetric] out'_def [symmetric] string_of_ascii_runes)
  have o: "ord (char_of c) = c" if "c \<in> set out'" for c
  proof -
    have "c < 128" using id small that by blast
    then show ?thesis by (simp add: of_char_of)
  qed
  have "out' \<noteq> []" "\<not> (48 \<le> hd out' \<and> hd out' \<le> 57)"
    using ne by (auto simp: out'_def hd_conv_nth)
  with id o show ?thesis by (auto simp: e hd_map)
qed

end
