(* ===== verification/DictGenCmd.thy ===== *)
theory DictGenCmd
  imports DictGen
begin

text \<open>
  \<open>cmd/dict-gen/main.go\<close>: the command around the parser and the generator. The flags are those
  cobra parsed. The disk holds the files, the directory the command runs in, what the operating
  system answers when a path is opened for writing (the file it names), and the results of the
  writes to come.
\<close>

section \<open>The command\<close>

record gen_flags =
  gfIn :: "string list"
  gfOut :: string
  gfPkg :: string
  gfHeader :: string

datatype gen_cmd_error =
    InputRequired
  | OutputRequired
  | ParseFailed parse_error
  | OpenOutputFailed gerror
  | GenerateFailed gerror

record disk =
  dkFiles :: files
  dkCwd :: "abspath option"
  dkCreate :: "string \<Rightarrow> gerror + abspath"
  dkWrites :: "(nat \<times> gerror) option list"

text \<open>\<open>strings.TrimRight(s, "/")\<close>\<close>

definition TrimRight_slash :: "string \<Rightarrow> string" where
  "TrimRight_slash s = rev (dropWhile (\<lambda>c. c = CHR ''/'') (rev s))"

text \<open>The package named by the last component of a path, up to its first dot.\<close>

definition package_of_path :: "string \<Rightarrow> string" where
  "package_of_path out =
    (let parts = split_on (CHR ''/'') (TrimRight_slash out);
         last = parts ! (length parts - 1);
         pkg = (case IndexByte last (CHR ''.'') of
                  Some dot \<Rightarrow> if dot > 0 then take dot last else last
                | None \<Rightarrow> last)
     in sanitizePkgName pkg)"

text \<open>\<open>os.Create\<close> empties a file that exists; the content is what was written until the end.\<close>

definition write_file :: "abspath \<Rightarrow> string \<Rightarrow> files \<Rightarrow> files" where
  "write_file path content fs = (path, content) # filter (\<lambda>f. fst f \<noteq> path) fs"

definition gen_RunE :: "gen_flags \<Rightarrow> disk \<Rightarrow> (gen_cmd_error option \<times> disk) option" where
  "gen_RunE fl dk =
    (if length (gfIn fl) = 0 then Some (Some InputRequired, dk)
     else if gfOut fl = [] then Some (Some OutputRequired, dk)
     else let pkg = (if gfPkg fl = [] then package_of_path (gfOut fl) else gfPkg fl) in
       case ParseFiles (dkFiles dk) (dkCwd dk) (gfIn fl) of None \<Rightarrow> None
       | Some (Inl e) \<Rightarrow> Some (Some (ParseFailed e), dk)
       | Some (Inr d) \<Rightarrow>
           (case dkCreate dk (gfOut fl) of Inl e \<Rightarrow> Some (Some (OpenOutputFailed e), dk)
            | Inr path \<Rightarrow>
                let opt = \<lparr>goPackage = pkg, goHeader = gfHeader fl\<rparr>;
                    (err, w) = Gen (Some d) \<lparr>wOut = [], wRes = dkWrites dk\<rparr> opt;
                    dk' = dk\<lparr>dkFiles := write_file path (wOut w) (dkFiles dk), dkWrites := wRes w\<rparr>
                in Some (map_option GenerateFailed err, dk')))"

text \<open>\<open>main\<close>: an error is printed to standard error and the exit status is 1.\<close>

definition gen_main_status :: "gen_cmd_error option \<Rightarrow> int" where
  "gen_main_status e = (case e of Some x \<Rightarrow> 1 | None \<Rightarrow> 0)"

section \<open>A new file does not change what was parsed\<close>

definition keeps_results :: "('a \<Rightarrow> parse_result) \<Rightarrow> ('a \<Rightarrow> parse_result) \<Rightarrow> bool" where
  "keeps_results f g \<longleftrightarrow> (\<forall>a d. f a = Some (Inr d) \<longrightarrow> g a = Some (Inr d))"

lemma handleInclude_keeps:
  assumes "keeps_results f g" "handleInclude f base args n p = Some (Inr q)"
  shows "handleInclude g base args n p = Some (Inr q)"
proof -
  from assms(2) obtain dir sub where "length args = 1" "base = Some dir"
      "f (resolve_path dir (args ! 0)) = Some (Inr sub)" "q = p\<lparr>psDict := append_file (psDict p) sub\<rparr>"
    unfolding handleInclude_def by (auto split: if_splits option.splits sum.splits)
  with assms(1) show ?thesis by (simp add: handleInclude_def keeps_results_def)
qed

lemma parser_line_keeps:
  assumes "keeps_results f g" "parser_line f base l n p = Some (Inr q)"
  shows "parser_line g base l n p = Some (Inr q)"
proof (cases "Fields (stripComment l)")
  case (Cons directive args)
  show ?thesis
  proof (cases "directive = ''$INCLUDE''")
    case True
    with Cons assms show ?thesis by (simp add: parser_line_def handleInclude_keeps [OF assms(1)])
  next
    case False
    then have "parser_line g base l n p = parser_line f base l n p"
      unfolding parser_line_def Cons list.case by (simp only: False if_False)
    with assms(2) show ?thesis by simp
  qed
qed (use assms(2) in \<open>simp add: parser_line_def\<close>)

lemma parse_loop_keeps:
  "keeps_results f g \<Longrightarrow> parse_loop f base ls n p = Some (Inr d) \<Longrightarrow> parse_loop g base ls n p = Some (Inr d)"
proof (induction ls arbitrary: n p)
  case (Cons raw rest)
  from Cons.prems(2) obtain q where q: "\<not> maxLine \<le> int (length raw)"
      "parser_line f base (drop_cr raw) (n + 1) p = Some (Inr q)" "parse_loop f base rest (n + 1) q = Some (Inr d)"
    by (auto split: if_splits option.splits sum.splits)
  then show ?case using parser_line_keeps [OF Cons.prems(1) q(2)] Cons.IH [OF Cons.prems(1) q(3)] by simp
qed simp

lemma parseFile_keeps:
  assumes "\<And>p c. map_of fs p = Some c \<Longrightarrow> map_of fs' p = Some c"
  shows "parseFile fs visited path = Some (Inr d) \<Longrightarrow> parseFile fs' visited path = Some (Inr d)"
proof (induction visited path arbitrary: d rule: parseFile_induct [where fs = fs])
  case (1 visited path)
  from "1.prems" obtain content where c: "path \<notin> set visited" "map_of fs path = Some content"
      "parse_reader (\<lambda>inc. parseFile fs (path # visited) inc) (Some (path_Dir path)) content = Some (Inr d)"
    by (subst (asm) parseFile.simps) (auto split: if_splits option.splits)
  have "keeps_results (\<lambda>inc. parseFile fs (path # visited) inc) (\<lambda>inc. parseFile fs' (path # visited) inc)"
    using c(1,2) "1.IH" by (auto simp: keeps_results_def)
  from parse_loop_keeps [OF this] c(3)
  have "parse_reader (\<lambda>inc. parseFile fs' (path # visited) inc) (Some (path_Dir path)) content = Some (Inr d)"
    unfolding parse_reader_def by blast
  with c(1) assms [OF c(2)] show ?case by (subst parseFile.simps) simp
qed

lemma ParseFiles_keeps:
  assumes "\<And>p c. map_of fs p = Some c \<Longrightarrow> map_of fs' p = Some c"
    and "ParseFiles fs cwd paths = Some (Inr d)"
  shows "ParseFiles fs' cwd paths = Some (Inr d)"
proof -
  have one: "ParseFile fs cwd p = Some (Inr g) \<Longrightarrow> ParseFile fs' cwd p = Some (Inr g)" for p g
    using parseFile_keeps [of fs fs'] assms(1) by (auto simp: ParseFile_def split: if_splits option.splits)
  have "parse_files_loop fs cwd paths m = Some (Inr d) \<Longrightarrow> parse_files_loop fs' cwd paths m = Some (Inr d)" for m
    by (induction paths arbitrary: m) (auto dest: one split: option.splits sum.splits)
  with assms(2) show ?thesis by (simp add: ParseFiles_def)
qed

lemma map_of_write_file:
  "map_of (write_file path content fs) = (map_of fs)(path \<mapsto> content)"
proof -
  have "map_of (filter (\<lambda>f. fst f \<noteq> path) fs) p = (if p = path then None else map_of fs p)" for p
    by (induction fs) auto
  then show ?thesis by (simp add: write_file_def fun_eq_iff)
qed

section \<open>What a write leaves behind\<close>

lemma write_all_prefix:
  "\<exists>m. wOut (snd (write_all ss w)) = wOut w @ take m (concat ss)"
proof (induction ss arbitrary: w)
  case (Cons s ss)
  have cut: "\<exists>m. take n s = take m (s @ t)" for n t by (rule exI [of _ "min n (length s)"]) (simp add: min_def)
  have more: "\<exists>m. s @ take k t = take m (s @ t)" for k t by (rule exI [of _ "length s + k"]) simp
  show ?case
  proof (cases "fst (write_one s w)")
    case None
    then have o: "wOut (snd (write_one s w)) = wOut w @ s"
      by (auto simp: write_one_def split: list.splits option.splits)
    obtain m where "wOut (snd (write_all ss (snd (write_one s w)))) = wOut w @ s @ take m (concat ss)"
      using Cons.IH [of "snd (write_one s w)"] o by auto
    moreover obtain k where "s @ take m (concat ss) = take k (s @ concat ss)" using more by blast
    ultimately show ?thesis using None by (auto split: prod.split option.split)
  next
    case (Some e)
    then obtain n where "wOut (snd (write_one s w)) = wOut w @ take n s"
      by (auto simp: write_one_def split: list.splits option.splits)
    moreover obtain k where "take n s = take k (s @ concat ss)" using cut by blast
    ultimately show ?thesis using Some by (auto split: prod.split option.split)
  qed
qed simp

lemma write_all_complete: "fst (write_all ss w) = None \<Longrightarrow> wOut (snd (write_all ss w)) = wOut w @ concat ss"
proof (induction ss arbitrary: w)
  case (Cons s ss)
  then obtain w1 where w1: "write_one s w = (None, w1)" "fst (write_all ss w1) = None"
    by (auto split: prod.splits option.splits)
  then have "wOut w1 = wOut w @ s" by (auto simp: write_one_def split: list.splits option.splits)
  with w1 Cons.IH [OF w1(2)] show ?case by simp
qed simp

section \<open>The command as a whole\<close>

definition gen_package :: "gen_flags \<Rightarrow> string" where
  "gen_package fl = (if gfPkg fl = [] then package_of_path (gfOut fl) else gfPkg fl)"

definition gen_source :: "gen_flags \<Rightarrow> dict_file \<Rightarrow> string" where
  "gen_source fl d = concat (gen_chunks d \<lparr>goPackage = gen_package fl, goHeader = gfHeader fl\<rparr>)"

lemma gen_RunE_early:
  assumes "gen_RunE fl dk = Some (err, dk')" "err \<noteq> None" "\<nexists>e. err = Some (GenerateFailed e)"
  shows "dk' = dk"
  using assms unfolding gen_RunE_def
  by (auto simp: Let_def split: if_splits option.splits sum.splits prod.splits)

lemma gen_RunE_written:
  assumes "gen_RunE fl dk = Some (map_option GenerateFailed err, dk')"
  shows "\<exists>d path w. length (gfIn fl) \<noteq> 0 \<and> gfOut fl \<noteq> []
    \<and> ParseFiles (dkFiles dk) (dkCwd dk) (gfIn fl) = Some (Inr d) \<and> dkCreate dk (gfOut fl) = Inr path
    \<and> write_all (gen_chunks d \<lparr>goPackage = gen_package fl, goHeader = gfHeader fl\<rparr>)
        \<lparr>wOut = [], wRes = dkWrites dk\<rparr> = (err, w)
    \<and> dk' = dk\<lparr>dkFiles := write_file path (wOut w) (dkFiles dk), dkWrites := wRes w\<rparr>"
proof -
  have inj: "map_option GenerateFailed x = map_option GenerateFailed y \<longleftrightarrow> x = y" for x y
    by (cases x; cases y) auto
  show ?thesis
    using assms unfolding gen_RunE_def gen_package_def [symmetric]
    by (auto simp: Let_def Gen_def inj split: if_splits option.splits sum.splits prod.splits)
       (cases err; auto)+
qed

lemma gen_RunE_ok:
  assumes "length (gfIn fl) \<noteq> 0" "gfOut fl \<noteq> []"
    "ParseFiles (dkFiles dk) (dkCwd dk) (gfIn fl) = Some (Inr d)" "dkCreate dk (gfOut fl) = Inr path"
    "dkWrites dk = []"
  shows "gen_RunE fl dk = Some (None, dk\<lparr>dkFiles := write_file path (gen_source fl d) (dkFiles dk)\<rparr>)"
  using assms by (simp add: gen_RunE_def gen_package_def [symmetric] Gen_def write_all_ok gen_source_def)

lemma gen_RunE_returns: "\<exists>err dk'. gen_RunE fl dk = Some (err, dk')"
proof -
  obtain r where "ParseFiles (dkFiles dk) (dkCwd dk) (gfIn fl) = Some r"
    using ParseFiles_returns by blast
  then show ?thesis by (auto simp: gen_RunE_def Let_def split: sum.split prod.split)
qed

lemma constant_line:
  assumes "a \<in> set (dfAttributes d)"
  shows "\<exists>pre post. gen_source fl d = pre @ (tab @ attrConstName a @ '' = '' @ dec_digits (unat (daType a)) @ nl) @ post"
proof -
  let ?line = "\<lambda>a. tab @ attrConstName a @ '' = '' @ dec_digits (unat (daType a)) @ nl"
  let ?as = "sort_key (\<lambda>a. (daVendor a, daName a)) (dfAttributes d)"
  from assms obtain us vs where as: "?as = us @ a # vs" by (metis set_sort in_set_conv_decomp)
  then have e: "concat (emitAttributeConstants ?as) = (go_text [''// Attribute type numbers.'', ''const (''] @
      concat (map ?line us)) @ ?line a @ (concat (map ?line vs) @ go_text ['')'', []])"
    by (simp add: emitAttributeConstants_def)
  have "\<exists>x y. gen_source fl d = concat x @ concat (emitAttributeConstants ?as) @ concat y"
  proof -
    let ?pre = "[go_text [''// Code generated by dict-gen. DO NOT EDIT.'', []]] @
        (if gfHeader fl \<noteq> [] then [gfHeader fl @ nl @ nl] else []) @
        [''package '' @ (if gen_package fl = [] then ''attrs'' else gen_package fl) @ nl @ nl] @ emitImports (needs_net ?as)"
    let ?post = "emitValueConstants (sort_key (\<lambda>v. (dvAttributeName v, dvName v)) (dfValues d)) @ emitAccessors ?as"
    have "gen_chunks d \<lparr>goPackage = gen_package fl, goHeader = gfHeader fl\<rparr> = ?pre @ emitAttributeConstants ?as @ ?post"
      by (simp add: gen_chunks_def Let_def)
    then have "gen_source fl d = concat ?pre @ concat (emitAttributeConstants ?as) @ concat ?post"
      unfolding gen_source_def by (simp only: concat_append append.assoc)
    then show ?thesis by blast
  qed
  then obtain x y where "gen_source fl d = concat x @ concat (emitAttributeConstants ?as) @ concat y" by blast
  then have "gen_source fl d = (concat x @ go_text [''// Attribute type numbers.'', ''const (''] @
      concat (map ?line us)) @ ?line a @ (concat (map ?line vs) @ go_text ['')'', []] @ concat y)"
    unfolding e by (simp only: append.assoc)
  then show ?thesis by blast
qed

text \<open>
  C23: The command always returns. An error before the output is opened (flags, a dictionary that
  does not parse, the opening itself) leaves every file as it was; a failing write leaves the
  beginning of the source in the output file and every other file as it was; without an error
  the output file holds the whole source of the parsed dictionary, a constant with its number
  for every attribute, and a second run with the same flags writes the same file when the first
  one created it. The package name taken from the path is an identifier.
\<close>

theorem dict_gen_command:
  "(\<exists>err dk'. gen_RunE fl dk = Some (err, dk'))
   \<and> (gen_RunE fl dk = Some (err, dk') \<and> err \<noteq> None \<and> (\<nexists>e. err = Some (GenerateFailed e)) \<longrightarrow> dk' = dk)
   \<and> (gen_RunE fl dk = Some (Some (GenerateFailed e), dk') \<longrightarrow>
       (\<exists>d path m. ParseFiles (dkFiles dk) (dkCwd dk) (gfIn fl) = Some (Inr d) \<and> dkCreate dk (gfOut fl) = Inr path
          \<and> map_of (dkFiles dk') = (map_of (dkFiles dk))(path \<mapsto> take m (gen_source fl d))))
   \<and> (gen_RunE fl dk = Some (None, dk') \<longrightarrow>
       (\<exists>d path. ParseFiles (dkFiles dk) (dkCwd dk) (gfIn fl) = Some (Inr d) \<and> dkCreate dk (gfOut fl) = Inr path
          \<and> map_of (dkFiles dk') = (map_of (dkFiles dk))(path \<mapsto> gen_source fl d)
          \<and> (a \<in> set (dfAttributes d) \<longrightarrow>
               (\<exists>pre post. gen_source fl d = pre @ (tab @ attrConstName a @ '' = '' @ dec_digits (unat (daType a)) @ nl) @ post))
          \<and> (map_of (dkFiles dk) path = None \<and> dkWrites dk' = [] \<longrightarrow>
               (\<exists>dk2. gen_RunE fl dk' = Some (None, dk2) \<and> map_of (dkFiles dk2) = map_of (dkFiles dk')))))
   \<and> (gfPkg fl = [] \<longrightarrow> gen_package fl \<noteq> [] \<and> (\<forall>c \<in> set (gen_package fl). ident_rune (ord c))
        \<and> \<not> (48 \<le> ord (hd (gen_package fl)) \<and> ord (hd (gen_package fl)) \<le> 57))"
proof (intro conjI impI)
  show "\<exists>err dk'. gen_RunE fl dk = Some (err, dk')" by (rule gen_RunE_returns)
  show "dk' = dk" if "gen_RunE fl dk = Some (err, dk') \<and> err \<noteq> None \<and> (\<nexists>e. err = Some (GenerateFailed e))"
    using that gen_RunE_early by blast
next
  assume "gen_RunE fl dk = Some (Some (GenerateFailed e), dk')"
  then have "gen_RunE fl dk = Some (map_option GenerateFailed (Some e), dk')" by simp
  from gen_RunE_written [OF this] obtain d path w where r:
      "ParseFiles (dkFiles dk) (dkCwd dk) (gfIn fl) = Some (Inr d)" "dkCreate dk (gfOut fl) = Inr path"
      "write_all (gen_chunks d \<lparr>goPackage = gen_package fl, goHeader = gfHeader fl\<rparr>) \<lparr>wOut = [], wRes = dkWrites dk\<rparr> = (Some e, w)"
      "dk' = dk\<lparr>dkFiles := write_file path (wOut w) (dkFiles dk), dkWrites := wRes w\<rparr>"
    by blast
  moreover obtain m where "wOut w = take m (gen_source fl d)"
    using write_all_prefix [of "gen_chunks d \<lparr>goPackage = gen_package fl, goHeader = gfHeader fl\<rparr>" "\<lparr>wOut = [], wRes = dkWrites dk\<rparr>"] r(3)
    by (auto simp: gen_source_def)
  ultimately show "\<exists>d path m. ParseFiles (dkFiles dk) (dkCwd dk) (gfIn fl) = Some (Inr d) \<and> dkCreate dk (gfOut fl) = Inr path
      \<and> map_of (dkFiles dk') = (map_of (dkFiles dk))(path \<mapsto> take m (gen_source fl d))"
    by (auto simp: map_of_write_file)
next
  assume "gen_RunE fl dk = Some (None, dk')"
  then have "gen_RunE fl dk = Some (map_option GenerateFailed None, dk')" by simp
  from gen_RunE_written [OF this] obtain d path w where r: "length (gfIn fl) \<noteq> 0" "gfOut fl \<noteq> []"
      "ParseFiles (dkFiles dk) (dkCwd dk) (gfIn fl) = Some (Inr d)" "dkCreate dk (gfOut fl) = Inr path"
      "write_all (gen_chunks d \<lparr>goPackage = gen_package fl, goHeader = gfHeader fl\<rparr>) \<lparr>wOut = [], wRes = dkWrites dk\<rparr> = (None, w)"
      "dk' = dk\<lparr>dkFiles := write_file path (wOut w) (dkFiles dk), dkWrites := wRes w\<rparr>"
    by blast
  have w: "wOut w = gen_source fl d"
    using write_all_complete [of "gen_chunks d \<lparr>goPackage = gen_package fl, goHeader = gfHeader fl\<rparr>" "\<lparr>wOut = [], wRes = dkWrites dk\<rparr>"] r(5)
    by (simp add: gen_source_def)
  have again: "\<exists>dk2. gen_RunE fl dk' = Some (None, dk2) \<and> map_of (dkFiles dk2) = map_of (dkFiles dk')"
    if "map_of (dkFiles dk) path = None" "dkWrites dk' = []"
  proof -
    have "map_of (write_file path (wOut w) (dkFiles dk)) p = Some c" if "map_of (dkFiles dk) p = Some c" for p c
      using that \<open>map_of (dkFiles dk) path = None\<close> by (auto simp: map_of_write_file)
    from ParseFiles_keeps [OF this r(3)] have "ParseFiles (dkFiles dk') (dkCwd dk') (gfIn fl) = Some (Inr d)"
      by (simp add: r(6))
    from gen_RunE_ok [OF r(1,2) this _ that(2), of path] show ?thesis
      using r(4,6) w by (auto simp: map_of_write_file)
  qed
  show "\<exists>d path. ParseFiles (dkFiles dk) (dkCwd dk) (gfIn fl) = Some (Inr d) \<and> dkCreate dk (gfOut fl) = Inr path
      \<and> map_of (dkFiles dk') = (map_of (dkFiles dk))(path \<mapsto> gen_source fl d)
      \<and> (a \<in> set (dfAttributes d) \<longrightarrow>
           (\<exists>pre post. gen_source fl d = pre @ (tab @ attrConstName a @ '' = '' @ dec_digits (unat (daType a)) @ nl) @ post))
      \<and> (map_of (dkFiles dk) path = None \<and> dkWrites dk' = [] \<longrightarrow>
           (\<exists>dk2. gen_RunE fl dk' = Some (None, dk2) \<and> map_of (dkFiles dk2) = map_of (dkFiles dk')))"
    using r(3,4,6) w constant_line again by (intro exI [of _ d] exI [of _ path]) (simp add: map_of_write_file)
qed (use sanitize_identifier in \<open>auto simp: gen_package_def package_of_path_def Let_def\<close>)

definition sample_flags :: gen_flags where
  "sample_flags = \<lparr>gfIn = [''/d''], gfOut = ''gen/9-lives.gen.go'', gfPkg = [], gfHeader = []\<rparr>"

definition sample_disk :: disk where
  "sample_disk = \<lparr>dkFiles = [([''d''], print_dict sample_dict)], dkCwd = Some [],
     dkCreate = (\<lambda>p. Inr (resolve_path [] p)), dkWrites = []\<rparr>"

lemma sample_package: "gen_package sample_flags = ''_9_lives''"
proof -
  have "gen_package sample_flags = sanitizePkgName ''9-lives''"
    by (simp add: gen_package_def sample_flags_def package_of_path_def TrimRight_slash_def)
  also have "\<dots> = string_of_runes [95, 57, 95, 108, 105, 118, 101, 115]"
    by (simp add: sanitizePkgName_def runes_ascii ident_rune_def)
  also have "\<dots> = string_of_runes (map ord ''_9_lives'')" by simp
  also have "\<dots> = ''_9_lives''" by (rule string_of_runes_ascii) simp
  finally show ?thesis .
qed

lemma sample_parsed: "ParseFiles (dkFiles sample_disk) (dkCwd sample_disk) (gfIn sample_flags) = Some (Inr sample_dict)"
proof -
  have "parseFile (dkFiles sample_disk) [] [''d''] = Some (Inr sample_dict)"
    unfolding sample_disk_def disk.simps
    by (subst parseFile.simps) (simp add: parse_reader_print [OF printable_sample])
  then show ?thesis
    by (simp add: ParseFiles_def ParseFile_def sample_flags_def resolve_path_def clean_step_def append_file_def empty_file_def)
qed

theorem dict_gen_command_witness:
  "\<exists>dk'. gen_RunE sample_flags sample_disk = Some (None, dk')
     \<and> map_of (dkFiles dk') [''gen'', ''9-lives.gen.go''] = Some (gen_source sample_flags sample_dict)
     \<and> (\<exists>dk2. gen_RunE sample_flags dk' = Some (None, dk2) \<and> map_of (dkFiles dk2) = map_of (dkFiles dk'))"
proof -
  have ok: "gen_RunE sample_flags sample_disk = Some (None, sample_disk\<lparr>dkFiles :=
      write_file [''gen'', ''9-lives.gen.go''] (gen_source sample_flags sample_dict) (dkFiles sample_disk)\<rparr>)"
    by (rule gen_RunE_ok [OF _ _ sample_parsed])
       (simp_all add: sample_flags_def sample_disk_def resolve_path_def clean_step_def)
  let ?path = "[''gen'', ''9-lives.gen.go'']"
  obtain dk' where dk': "gen_RunE sample_flags sample_disk = Some (None, dk')"
      "dk' = sample_disk\<lparr>dkFiles := write_file ?path (gen_source sample_flags sample_dict) (dkFiles sample_disk)\<rparr>"
    using ok by blast
  have p: "dkCreate sample_disk (gfOut sample_flags) = Inr path \<longleftrightarrow> path = ?path" for path
    by (auto simp: sample_flags_def sample_disk_def resolve_path_def clean_step_def)
  have new: "map_of (dkFiles sample_disk) ?path = None" "dkWrites dk' = []"
    by (simp_all add: sample_disk_def dk'(2))
  obtain d path where w: "ParseFiles (dkFiles sample_disk) (dkCwd sample_disk) (gfIn sample_flags) = Some (Inr d)"
      "path = ?path" "map_of (dkFiles dk') = (map_of (dkFiles sample_disk))(path \<mapsto> gen_source sample_flags d)"
      "map_of (dkFiles sample_disk) path = None \<and> dkWrites dk' = [] \<longrightarrow>
        (\<exists>dk2. gen_RunE sample_flags dk' = Some (None, dk2) \<and> map_of (dkFiles dk2) = map_of (dkFiles dk'))"
    using dict_gen_command [where a = undefined, THEN conjunct2, THEN conjunct2, THEN conjunct2, THEN conjunct1, THEN mp, OF dk'(1)]
    unfolding p by (elim exE conjE) (rule that; assumption)
  moreover have "d = sample_dict" using w(1) sample_parsed by simp
  ultimately show ?thesis using dk'(1) new by auto
qed

end
