(* ===== verification/Tool.thy ===== *)
theory Tool
  imports Client_Package Server Format
begin

text \<open>
  \<open>cmd/radius-tool/\<close>: the command line tool. The flags cobra parsed and the settings viper
  looked up are the inputs (\<open>settings\<close>, \<open>access_flags\<close> and so on); the world a command
  meets (name resolution, dialling, listening, the exchange) is \<open>world\<close>. A command yields
  what it prints, its error, what it sent and whether it closed its client. Also what the tool
  uses of \<open>strings\<close> (\<open>ToUpper\<close>, \<open>ToLower\<close>) and of \<open>net\<close> (\<open>SplitHostPort\<close>,
  \<open>LookupPort\<close>).
\<close>

section \<open>Text\<close>

text \<open>
  Go's Unicode tables: which runes above U+00FF print, and the case mappings of the runes
  above U+007F.
\<close>

record unicode =
  uPrint :: "nat \<Rightarrow> bool"
  uUpper :: "nat \<Rightarrow> nat"
  uLower :: "nat \<Rightarrow> nat"

definition ToUpper_rune :: "unicode \<Rightarrow> nat \<Rightarrow> nat" where
  "ToUpper_rune u r = (if r < 128 then (if 97 \<le> r \<and> r \<le> 122 then r - 32 else r) else uUpper u r)"

definition ToLower_rune :: "unicode \<Rightarrow> nat \<Rightarrow> nat" where
  "ToLower_rune u r = (if r < 128 then (if 65 \<le> r \<and> r \<le> 90 then r + 32 else r) else uLower u r)"

definition ToUpper :: "unicode \<Rightarrow> string \<Rightarrow> string" where
  "ToUpper u s = string_of_runes (map (ToUpper_rune u) (runes s))"

definition ToLower :: "unicode \<Rightarrow> string \<Rightarrow> string" where
  "ToLower u s = string_of_runes (map (ToLower_rune u) (runes s))"

section \<open>Host and port\<close>

definition LastIndexByte :: "string \<Rightarrow> char \<Rightarrow> nat option" where
  "LastIndexByte s c = map_option (\<lambda>i. length s - 1 - i) (IndexByte (rev s) c)"

definition SplitHostPort :: "string \<Rightarrow> (string \<times> string) option" where
  "SplitHostPort s =
    (case LastIndexByte s (CHR '':'') of None \<Rightarrow> None
     | Some i \<Rightarrow>
         if hd s = CHR ''['' then
           (case IndexByte s (CHR '']'') of None \<Rightarrow> None
            | Some j \<Rightarrow>
                if Suc j = length s then None
                else if Suc j \<noteq> i then None
                else if CHR ''['' \<in> set (drop 1 s) \<or> CHR '']'' \<in> set (drop (Suc j) s) then None
                else Some (slice 1 j s, drop (Suc i) s))
         else if CHR '':'' \<in> set (take i s) then None
         else if CHR ''['' \<in> set s \<or> CHR '']'' \<in> set s then None
         else Some (take i s, drop (Suc i) s))"

text \<open>
  The decimal port of \<open>net.LookupPort\<close>; \<open>None\<close>: no number, the service has to be looked
  up by name. The accumulator is an unsigned 32-bit integer.
\<close>

fun parsePort_loop :: "32 word \<Rightarrow> string \<Rightarrow> 32 word option" where
  "parsePort_loop n [] = Some n"
| "parsePort_loop n (c # cs) =
    (if \<not> is_digit c then None
     else if n \<ge> 1073741824 then Some 4294967295
     else let m = n * 10; nn = m + word_of_nat (digit_val c) in
       if nn < m then Some 4294967295 else parsePort_loop nn cs)"

definition parsePort :: "string \<Rightarrow> int option" where
  "parsePort s =
    (if s = [] then Some 0
     else let neg = (hd s = CHR ''-'');
              ds = (if hd s = CHR ''+'' \<or> hd s = CHR ''-'' then tl s else s) in
       case parsePort_loop 0 ds of None \<Rightarrow> None
       | Some n \<Rightarrow>
          (let port = (if \<not> neg \<and> n \<ge> 1073741824 then 1073741823
                       else if neg \<and> n > 1073741824 then 1073741824 else uint n)
           in Some (if neg then - port else port)))"

definition port_networks :: "string list" where
  "port_networks = [''tcp'', ''tcp4'', ''tcp6'', ''udp'', ''udp4'', ''udp6'', ''ip'', []]"

text \<open>\<open>services\<close>: the resolver's answer for a service name.\<close>

definition LookupPort :: "(string \<Rightarrow> string \<Rightarrow> int option) \<Rightarrow> string \<Rightarrow> string \<Rightarrow> int option" where
  "LookupPort services network service =
    (case (case parsePort service of Some p \<Rightarrow> Some p
           | None \<Rightarrow> if network \<in> set port_networks then services network service else None) of
       None \<Rightarrow> None
     | Some p \<Rightarrow> if p < 0 \<or> p > 65535 then None else Some p)"

section \<open>Errors and settings\<close>

text \<open>
  The messages of the tool, by what they report; \<open>Unchanged\<close> errors come from the library.
  \<open>Panicked\<close> is no message: the call panicked, which ends the process once the deferred
  \<open>Close\<close> of the client has run.
\<close>

datatype tool_error =
    InvalidServer string
  | InvalidServerPort string
  | ResolveFailed string
  | SecretRequired
  | UnsupportedNetwork string
  | TimeoutNotPositive "64 word"
  | AttrWithoutColon string
  | AttrTypeOutOfRange int
  | UnknownAttrName string
  | InvalidAttrValue string gerror
  | InvalidStatus string
  | CallFailed string gerror
  | InvalidBind string
  | InvalidBindIP string
  | InvalidBindPort string
  | Unchanged gerror
  | Panicked

definition call_failure :: "string \<Rightarrow> gerror \<Rightarrow> tool_error" where
  "call_failure label e = (if e = GoPanic then Panicked else CallFailed label e)"

record settings =
  vpServer :: string
  vpSecret :: string
  vpNetwork :: string
  vpTimeout :: duration

text \<open>
  \<open>wDialUDP\<close> and \<open>wDialTCP\<close>: what dialling an address on a network gives; \<open>wLogger\<close>: the
  package-level logger \<open>initLogger\<close> left; \<open>wCall\<close>: the environment of the one call the command makes.
\<close>

record world =
  wLookupIP :: "string \<Rightarrow> gerror + bytes list"
  wDialUDP :: "net_addr \<Rightarrow> string \<Rightarrow> net_error + udp_sock"
  wDialTCP :: "net_addr \<Rightarrow> string \<Rightarrow> net_error + conn"
  wLogger :: logger
  wCall :: call_env

section \<open>Attributes from flags\<close>

text \<open>\<open>dictionary.Default()\<close>; the package does not initialise when a table panics.\<close>

definition Default :: dictionary where
  "Default = (case defaultDict of Inr d \<Rightarrow> d | Inl _ \<Rightarrow> NewDictionary)"

text \<open>The octets of a part, its first one in upper case, the others in lower case.\<close>

definition title_part :: "unicode \<Rightarrow> string \<Rightarrow> string" where
  "title_part u p = (if p = [] then p else ToUpper u (take 1 p) @ ToLower u (drop 1 p))"

definition canonicalAttrName :: "unicode \<Rightarrow> string \<Rightarrow> string" where
  "canonicalAttrName u s = join_with ''-'' (map (title_part u) (split_on (CHR ''-'') s))"

text \<open>The type and the canonical name, empty for a number without an entry.\<close>

definition resolveAttrType :: "unicode \<Rightarrow> string \<Rightarrow> tool_error + (byte \<times> string)" where
  "resolveAttrType u name =
    (case Atoi name of
       Some n \<Rightarrow>
         if n < 1 \<or> n > 255 then Inl (AttrTypeOutOfRange n)
         else let t = word_of_int n :: byte in
           (case dict_Lookup Default t of Some def \<Rightarrow> Inr (t, adName def) | None \<Rightarrow> Inr (t, []))
     | None \<Rightarrow>
         (case dict_LookupName Default name of Some def \<Rightarrow> Inr (adType def, adName def)
          | None \<Rightarrow>
              let canon = canonicalAttrName u name in
              if canon \<noteq> name then
                (case dict_LookupName Default canon of Some def \<Rightarrow> Inr (adType def, adName def)
                 | None \<Rightarrow> Inl (UnknownAttrName name))
              else Inl (UnknownAttrName name)))"

definition attr_from_flag :: "unicode \<Rightarrow> string \<Rightarrow> tool_error + attribute" where
  "attr_from_flag u raw =
    (case Cut_at (CHR '':'') raw of None \<Rightarrow> Inl (AttrWithoutColon raw)
     | Some (name0, v) \<Rightarrow>
        (case resolveAttrType u name0 of Inl e \<Rightarrow> Inl e
         | Inr (attrType, name) \<Rightarrow>
            if name \<noteq> [] then
              (case NewByName Default name (AnyString v) of Inl e \<Rightarrow> Inl (InvalidAttrValue raw e) | Inr a \<Rightarrow> Inr a)
            else Inr (NewString attrType (string_bytes v))))"

fun attrsFromFlags :: "unicode \<Rightarrow> string list \<Rightarrow> tool_error + attribute list" where
  "attrsFromFlags u [] = Inr []"
| "attrsFromFlags u (raw # raws) =
    (case attr_from_flag u raw of Inl e \<Rightarrow> Inl e
     | Inr a \<Rightarrow> (case attrsFromFlags u raws of Inl e \<Rightarrow> Inl e | Inr as \<Rightarrow> Inr (a # as)))"

fun print_loop :: "unicode \<Rightarrow> attribute list \<Rightarrow> string" where
  "print_loop u [] = []"
| "print_loop u (a # as) = ''  '' @ FormatAttribute (uPrint u) a (Some Default) @ [CHR 0x0A] @ print_loop u as"

definition printAttrs :: "unicode \<Rightarrow> attribute list \<Rightarrow> string" where
  "printAttrs u attrs = (if attrs = [] then ''  (no attributes)'' @ [CHR 0x0A] else print_loop u attrs)"

section \<open>The client\<close>

text \<open>The UDP address and the TCP address.\<close>

definition resolveServerAddr :: "(string \<Rightarrow> gerror + bytes list) \<Rightarrow> string \<Rightarrow> tool_error + (net_addr \<times> net_addr)" where
  "resolveServerAddr lookupIP hostport =
    (case SplitHostPort hostport of None \<Rightarrow> Inl (InvalidServer hostport)
     | Some (host, portStr) \<Rightarrow>
        (case Atoi portStr of None \<Rightarrow> Inl (InvalidServerPort hostport)
         | Some port \<Rightarrow>
            (case ParseIP host of Some ip \<Rightarrow> Inr (UDPAddr ip port [], TCPAddr ip port [])
             | None \<Rightarrow>
                (case lookupIP host of
                   Inr (ip # ips) \<Rightarrow> Inr (UDPAddr ip port [], TCPAddr ip port [])
                 | _ \<Rightarrow> Inl (ResolveFailed host)))))"

definition ensureTimeoutPositive :: "settings \<Rightarrow> tool_error + unit" where
  "ensureTimeoutPositive cfg = (if sint (vpTimeout cfg) \<le> 0 then Inl (TimeoutNotPositive (vpTimeout cfg)) else Inr ())"

datatype tool_client = ViaUDP udp_client | ViaTCP tcp_client

fun protocol_client :: "tool_client \<Rightarrow> client" where
  "protocol_client (ViaUDP c) = ucClient c"
| "protocol_client (ViaTCP c) = tcClient c"

definition client_settings :: "settings \<Rightarrow> client_config" where
  "client_settings cfg = \<lparr>ccNetwork = [], ccTimeout = vpTimeout cfg,
     ccRetransmit = \<lparr>rpMaxAttempts = 0, rpInitial = 0, rpMax = 0, rpJittered = False\<rparr>, ccJitterZero = True, ccLogger = None\<rparr>"

definition tool_newClient :: "unicode \<Rightarrow> settings \<Rightarrow> world \<Rightarrow> tool_error + tool_client" where
  "tool_newClient u cfg w =
    (case resolveServerAddr (wLookupIP w) (vpServer cfg) of Inl e \<Rightarrow> Inl e
     | Inr (udpAddr, tcpAddr) \<Rightarrow>
        (let secret = string_bytes (vpSecret cfg) in
         if secret = [] then Inl SecretRequired
         else let network = ToLower u (vpNetwork cfg) in
           if network \<in> set [''udp'', ''udp4'', ''udp6''] then
             (case NewUDPClient (wDialUDP w udpAddr) (wLogger w) secret (client_settings cfg) of
                Inl e \<Rightarrow> Inl (Unchanged e) | Inr c \<Rightarrow> Inr (ViaUDP c))
           else if network \<in> set [''tcp'', ''tcp4'', ''tcp6''] then
             (case NewTCPClient (wDialTCP w tcpAddr) (wLogger w) secret (client_settings cfg) of
                Inl e \<Rightarrow> Inl (Unchanged e) | Inr c \<Rightarrow> Inr (ViaTCP c))
           else Inl (UnsupportedNetwork (vpNetwork cfg))))"

definition callCtx :: "settings \<Rightarrow> nat \<Rightarrow> go_ctx" where
  "callCtx cfg now = \<lparr>cxDeadline = Some (now + unat (vpTimeout cfg)), cxErr = None\<rparr>"

section \<open>The client commands\<close>

record tool_run =
  trOut :: string
  trErr :: "tool_error option"
  trEvents :: "client_event list"
  trClosed :: bool

text \<open>A command that ends before it has a client.\<close>

definition refused :: "tool_error \<Rightarrow> tool_run" where
  "refused e = \<lparr>trOut = [], trErr = Some e, trEvents = [], trClosed = False\<rparr>"

definition id_suffix :: "byte \<Rightarrow> string" where
  "id_suffix i = '' (id='' @ dec_digits (unat i) @ '')'' @ [CHR 0x0A]"

record access_flags =
  afPassword :: string
  afEap :: bool
  afAttr :: "string list"

definition access_RunE :: "unicode \<Rightarrow> settings \<Rightarrow> world \<Rightarrow> access_flags \<Rightarrow> tool_run option" where
  "access_RunE u cfg w fl =
    (case ensureTimeoutPositive cfg of Inl e \<Rightarrow> Some (refused e)
     | Inr _ \<Rightarrow>
       (case attrsFromFlags u (afAttr fl) of Inl e \<Rightarrow> Some (refused e)
        | Inr as \<Rightarrow>
          (let attrs = (if afPassword fl \<noteq> []
                        then as @ [NewString AttrUserPassword (string_bytes (afPassword fl))] else as);
               meth = (if afEap fl then AuthEAP else AuthPAP) in
           case tool_newClient u cfg w of Inl e \<Rightarrow> Some (refused e)
           | Inr c \<Rightarrow>
              (case Authenticate (protocol_client c) (wCall w) (callCtx cfg (ceNow (wCall w)))
                      \<lparr>arAuthenticator = replicate 16 0, arAttributes = attrs, arMethod = meth\<rparr> of
                 None \<Rightarrow> None
               | Some (Inl e, evs, _) \<Rightarrow>
                   Some \<lparr>trOut = [], trErr = Some (call_failure ''access-request failed'' e),
                         trEvents = evs, trClosed = True\<rparr>
               | Some (Inr resp, evs, _) \<Rightarrow>
                   Some \<lparr>trOut = ''Reply: '' @ Code_String (rsCode resp) @ id_suffix (rsIdentifier resp) @
                           printAttrs u (rsAttributes resp),
                         trErr = None, trEvents = evs, trClosed = True\<rparr>))))"

record account_flags =
  cfStatus :: string
  cfAttr :: "string list"

definition acctStatusType :: "(string \<times> 32 word) list" where
  "acctStatusType = [(''start'', 1), (''stop'', 2), (''interim-update'', 3), (''accounting-on'', 7),
     (''accounting-off'', 8)]"

definition status_value :: "string \<Rightarrow> tool_error + 32 word" where
  "status_value s =
    (case map_of acctStatusType s of Some v \<Rightarrow> Inr v
     | None \<Rightarrow> (case ParseUint10 s 32 of Some n \<Rightarrow> Inr (word_of_nat n) | None \<Rightarrow> Inl (InvalidStatus s)))"

definition account_RunE :: "unicode \<Rightarrow> settings \<Rightarrow> world \<Rightarrow> account_flags \<Rightarrow> tool_run option" where
  "account_RunE u cfg w fl =
    (case ensureTimeoutPositive cfg of Inl e \<Rightarrow> Some (refused e)
     | Inr _ \<Rightarrow>
       (case attrsFromFlags u (cfAttr fl) of Inl e \<Rightarrow> Some (refused e)
        | Inr as \<Rightarrow>
          (case status_value (cfStatus fl) of Inl e \<Rightarrow> Some (refused e)
           | Inr status \<Rightarrow>
             (let attrs = NewInteger AttrAcctStatusType status # as in
              case tool_newClient u cfg w of Inl e \<Rightarrow> Some (refused e)
              | Inr c \<Rightarrow>
                (case Account (protocol_client c) (wCall w) (callCtx cfg (ceNow (wCall w))) \<lparr>acAttributes = attrs\<rparr> of
                   None \<Rightarrow> None
                 | Some (Inl e, evs, _) \<Rightarrow>
                     Some \<lparr>trOut = [], trErr = Some (call_failure ''accounting-request failed'' e),
                           trEvents = evs, trClosed = True\<rparr>
                 | Some (Inr resp, evs, _) \<Rightarrow>
                     Some \<lparr>trOut = ''Reply: Accounting-Response'' @ id_suffix (rsIdentifier resp) @
                             printAttrs u (rsAttributes resp),
                           trErr = None, trEvents = evs, trClosed = True\<rparr>)))))"

record dynauth_flags =
  dfMessageAuthenticator :: bool
  dfAttr :: "string list"

definition coa_RunE :: "unicode \<Rightarrow> settings \<Rightarrow> world \<Rightarrow> dynauth_flags \<Rightarrow> tool_run option" where
  "coa_RunE u cfg w fl =
    (case ensureTimeoutPositive cfg of Inl e \<Rightarrow> Some (refused e)
     | Inr _ \<Rightarrow>
       (case attrsFromFlags u (dfAttr fl) of Inl e \<Rightarrow> Some (refused e)
        | Inr attrs \<Rightarrow>
          (case tool_newClient u cfg w of Inl e \<Rightarrow> Some (refused e)
           | Inr c \<Rightarrow>
             (let req = \<lparr>coAttributes = attrs, coMessageAuthenticator = None\<rparr>;
                  req1 = (if dfMessageAuthenticator fl then req\<lparr>coMessageAuthenticator := Some True\<rparr> else req) in
              case SendCoA (protocol_client c) (wCall w) (callCtx cfg (ceNow (wCall w))) req1 of
                None \<Rightarrow> None
              | Some (Inl e, evs, _) \<Rightarrow>
                  Some \<lparr>trOut = [], trErr = Some (call_failure ''coa-request failed'' e),
                        trEvents = evs, trClosed = True\<rparr>
              | Some (Inr resp, evs, _) \<Rightarrow>
                  Some \<lparr>trOut = ''Reply: '' @ Code_String (rsCode resp) @ id_suffix (rsIdentifier resp) @
                          printAttrs u (rsAttributes resp),
                        trErr = None, trEvents = evs, trClosed = True\<rparr>))))"

definition disconnect_RunE :: "unicode \<Rightarrow> settings \<Rightarrow> world \<Rightarrow> dynauth_flags \<Rightarrow> tool_run option" where
  "disconnect_RunE u cfg w fl =
    (case ensureTimeoutPositive cfg of Inl e \<Rightarrow> Some (refused e)
     | Inr _ \<Rightarrow>
       (case attrsFromFlags u (dfAttr fl) of Inl e \<Rightarrow> Some (refused e)
        | Inr attrs \<Rightarrow>
          (case tool_newClient u cfg w of Inl e \<Rightarrow> Some (refused e)
           | Inr c \<Rightarrow>
             (let req = \<lparr>dcAttributes = attrs, dcMessageAuthenticator = None\<rparr>;
                  req1 = (if dfMessageAuthenticator fl then req\<lparr>dcMessageAuthenticator := Some True\<rparr> else req) in
              case SendDisconnect (protocol_client c) (wCall w) (callCtx cfg (ceNow (wCall w))) req1 of
                None \<Rightarrow> None
              | Some (Inl e, evs, _) \<Rightarrow>
                  Some \<lparr>trOut = [], trErr = Some (call_failure ''disconnect-request failed'' e),
                        trEvents = evs, trClosed = True\<rparr>
              | Some (Inr resp, evs, _) \<Rightarrow>
                  Some \<lparr>trOut = ''Reply: '' @ Code_String (rsCode resp) @ id_suffix (rsIdentifier resp) @
                          printAttrs u (rsAttributes resp),
                        trErr = None, trEvents = evs, trClosed = True\<rparr>))))"

text \<open>
  \<open>main\<close>: an error is printed to standard error and the exit status is 1; a panic gets past it
  to Go's run time, which ends the process with status 2.
\<close>

definition main_status :: "tool_run \<Rightarrow> int" where
  "main_status r = (case trErr r of None \<Rightarrow> 0 | Some Panicked \<Rightarrow> 2 | Some e \<Rightarrow> 1)"

section \<open>The echo server\<close>

definition echoAccessHandler :: handler where
  "echoAccessHandler ctx req =
    (if pCode (rqPacket req) \<noteq> AccessRequest then Inr None
     else Inr (Some \<lparr>pCode = AccessAccept, pIdentifier = pIdentifier (rqPacket req),
       pAuthenticator = pAuthenticator (rqPacket req),
       pAttributes = [NewString AttrReplyMessage (string_bytes ''accepted'')]\<rparr>))"

record server_flags =
  sfBind :: string
  sfNetwork :: string
  sfSecret :: string

text \<open>
  \<open>hwUDP\<close> and \<open>hwTCP\<close>: what binding an address on a network gives, with the local address of
  the socket. \<open>None\<close> for the context's error is a signal that has not come.
\<close>

record host_world =
  hwServices :: "string \<Rightarrow> string \<Rightarrow> int option"
  hwUDP :: "string \<Rightarrow> net_addr \<Rightarrow> net_error + (udp_sock \<times> net_addr)"
  hwTCP :: "string \<Rightarrow> net_addr \<Rightarrow> net_error + (accept_event list \<times> net_addr)"

text \<open>What \<open>Serve\<close> handed to goroutines, and the error it returned, unless it still reads.\<close>

datatype served =
    ServedUDP udp_server "(bytes \<times> net_addr \<times> bytes) list"
  | ServedTCP tcp_server "conn list"

definition bind_addr :: "host_world \<Rightarrow> string \<Rightarrow> tool_error + (bytes \<times> int)" where
  "bind_addr hw bind =
    (case SplitHostPort bind of None \<Rightarrow> Inl (InvalidBind bind)
     | Some (host, portStr) \<Rightarrow>
        (case ParseIP host of None \<Rightarrow> Inl (InvalidBindIP host)
         | Some ip \<Rightarrow>
            (case LookupPort (hwServices hw) ''network'' portStr of None \<Rightarrow> Inl (InvalidBindPort portStr)
             | Some port \<Rightarrow> Inr (ip, port))))"

definition listening_text :: "unicode \<Rightarrow> string \<Rightarrow> net_addr \<Rightarrow> string \<Rightarrow> string" where
  "listening_text u transport local secret =
    ''RADIUS '' @ transport @ '' server listening on '' @ addr_String local @ '' (secret='' @
      strconv_Quote (uPrint u) secret @ '')'' @ [CHR 0x0A]"

definition server_RunE :: "unicode \<Rightarrow> host_world \<Rightarrow> logger \<Rightarrow> go_ctx \<Rightarrow> server_flags
    \<Rightarrow> tool_error + (string \<times> served \<times> gerror option)" where
  "server_RunE u hw dflt ctx fl =
    (let secret = string_bytes (sfSecret fl) in
     case bind_addr hw (sfBind fl) of Inl e \<Rightarrow> Inl e
     | Inr (ip, port) \<Rightarrow>
        (let transportMode = (if sfNetwork fl = [] then ''udp'' else sfNetwork fl) in
         if transportMode \<in> set [''udp'', ''udp4'', ''udp6''] then
           (let ln = hwUDP hw transportMode (UDPAddr ip port []) in
            case NewUDPServer (map_sum id fst ln) dflt [] of Inl e \<Rightarrow> Inl (Unchanged e)
            | Inr srv \<Rightarrow>
               (let (spawned, res) = UDPServer_Serve (StaticSecret secret) srv ctx in
                Inr (listening_text u ''UDP'' (case ln of Inr (_, a) \<Rightarrow> a | Inl _ \<Rightarrow> OtherAddr []) (sfSecret fl),
                     ServedUDP srv spawned, res)))
         else if transportMode \<in> set [''tcp'', ''tcp4'', ''tcp6''] then
           (let ln = hwTCP hw transportMode (TCPAddr ip port []) in
            case NewTCPServer (map_sum id fst ln) dflt [] of Inl e \<Rightarrow> Inl (Unchanged e)
            | Inr srv \<Rightarrow>
               (let (conns, res) = TCPServer_Serve srv ctx in
                Inr (listening_text u ''TCP'' (case ln of Inr (_, a) \<Rightarrow> a | Inl _ \<Rightarrow> OtherAddr []) (sfSecret fl),
                     ServedTCP srv conns, res)))
         else Inl (UnsupportedNetwork transportMode)))"

section \<open>Vectors\<close>

definition ascii_unicode :: unicode where
  "ascii_unicode = \<lparr>uPrint = (\<lambda>_. False), uUpper = id, uLower = id\<rparr>"

lemma SplitHostPort_vectors:
  "SplitHostPort ''127.0.0.1:1812'' = Some (''127.0.0.1'', ''1812'')"
  "SplitHostPort ''[::1]:1812'' = Some (''::1'', ''1812'')"
  "SplitHostPort ''::1:1812'' = None"
  "SplitHostPort '':1812'' = Some ([], ''1812'')"
  "SplitHostPort ''host'' = None"
  "SplitHostPort ''[::1]'' = None"
  by (code_simp, code_simp, code_simp, code_simp, code_simp, code_simp)

lemma parsePort_vectors:
  "parsePort ''1812'' = Some 1812" "parsePort ''radius'' = None" "parsePort [] = Some 0"
  by (code_simp, code_simp, code_simp)

end
