(* ===== verification/Tool_Names.thy ===== *)
theory Tool_Names
  imports Tool
begin

text \<open>
  Attribute names on the command line: what \<open>canonicalAttrName\<close> does to ASCII text, and
  which spellings of a name of the default dictionary \<open>resolveAttrType\<close> finds.
\<close>

section \<open>The default dictionary\<close>

lemma Default_entries:
  "dict_inv Default" "dict_entries Default = set standard_attributes"
  "dict_Lookup Default t = Some e \<longleftrightarrow> e \<in> set standard_attributes \<and> adType e = t"
  "dict_LookupName Default n = Some e \<longleftrightarrow> e \<in> set standard_attributes \<and> adName e = n"
proof -
  let ?d = "foldl dict_store NewDictionary standard_attributes"
  have d: "Default = ?d" by (simp add: Default_def defaultDict_def registerStandardAttributes_fold)
  have i: "dict_inv ?d" by (rule dict.inv_stores [OF dict.inv_empty])
  have e: "dict_entries ?d = set standard_attributes"
    using dict_entries_stores [OF dict.inv_empty standard_distinct(1,2)] by (simp add: dict_entries_empty)
  show "dict_inv Default" "dict_entries Default = set standard_attributes"
    "dict_Lookup Default t = Some e \<longleftrightarrow> e \<in> set standard_attributes \<and> adType e = t"
    "dict_LookupName Default n = Some e \<longleftrightarrow> e \<in> set standard_attributes \<and> adName e = n"
    using i e by (auto simp: d dict_lookup_iff)
qed

section \<open>Names in any case\<close>

text \<open>
  ASCII letters without their case, on the bits of a character: the five low bits number the
  letter, the sixth tells the case.
\<close>

definition letter_bits :: "bool \<Rightarrow> bool \<Rightarrow> bool \<Rightarrow> bool \<Rightarrow> bool \<Rightarrow> bool" where
  "letter_bits b0 b1 b2 b3 b4 \<longleftrightarrow>
    (b0 \<or> b1 \<or> b2 \<or> b3 \<or> b4) \<and> \<not> (b4 \<and> b3 \<and> (b2 \<or> b1 \<and> b0))"

fun ascii_fold :: "char \<Rightarrow> char" where
  "ascii_fold (Char b0 b1 b2 b3 b4 b5 b6 b7) =
    Char b0 b1 b2 b3 b4 (b5 \<or> (b6 \<and> \<not> b7 \<and> letter_bits b0 b1 b2 b3 b4)) b6 b7"

fun ascii_upper :: "char \<Rightarrow> char" where
  "ascii_upper (Char b0 b1 b2 b3 b4 b5 b6 b7) =
    Char b0 b1 b2 b3 b4 (b5 \<and> \<not> (b6 \<and> \<not> b7 \<and> letter_bits b0 b1 b2 b3 b4)) b6 b7"

lemma ord_Char: "ord (Char b0 b1 b2 b3 b4 b5 b6 b7) = of_bool b0 + 2 * of_bool b1 + 4 * of_bool b2 +
    8 * of_bool b3 + 16 * of_bool b4 + 32 * of_bool b5 + 64 * of_bool b6 + 128 * of_bool b7"
  by (simp add: of_char_def)

lemma ord_fold: "ord (ascii_fold c) = (if 65 \<le> ord c \<and> ord c \<le> 90 then ord c + 32 else ord c)"
proof (cases c)
  case (Char b0 b1 b2 b3 b4 b5 b6 b7)
  show ?thesis unfolding Char ascii_fold.simps ord_Char letter_bits_def
    by (cases b7; cases b6; cases b5; cases b4; cases b3; cases b2; cases b1; cases b0; simp)
qed

lemma ord_upper: "ord (ascii_upper c) = (if 97 \<le> ord c \<and> ord c \<le> 122 then ord c - 32 else ord c)"
proof (cases c)
  case (Char b0 b1 b2 b3 b4 b5 b6 b7)
  show ?thesis unfolding Char ascii_upper.simps ord_Char letter_bits_def
    by (cases b7; cases b6; cases b5; cases b4; cases b3; cases b2; cases b1; cases b0; simp)
qed

lemma EncodeRune_ascii: "n < 128 \<Longrightarrow> EncodeRune n = [n]"
  by (simp add: EncodeRune_def)

definition title_ascii :: "string \<Rightarrow> string" where
  "title_ascii p = (case p of [] \<Rightarrow> [] | c # cs \<Rightarrow> ascii_upper c # map ascii_fold cs)"

definition title_name :: "string \<Rightarrow> string" where
  "title_name s = join_with ''-'' (map title_ascii (split_on (CHR ''-'') s))"

abbreviation is_ascii :: "string \<Rightarrow> bool" where
  "is_ascii s \<equiv> \<forall>c \<in> set s. ord c < 128"

lemma ToLower_ascii: "is_ascii s \<Longrightarrow> ToLower u s = map ascii_fold s"
proof (induction s)
  case (Cons c s)
  then have "ToLower_rune u (ord c) = ord (ascii_fold c)" "ord (ascii_fold c) < 128"
    by (simp_all add: ToLower_rune_def ord_fold)
  with Cons show ?case by (simp add: ToLower_def runes_ascii_Cons string_of_runes_def EncodeRune_ascii)
qed (simp add: ToLower_def string_of_runes_def)

lemma ToUpper_ascii: "is_ascii s \<Longrightarrow> ToUpper u s = map ascii_upper s"
proof (induction s)
  case (Cons c s)
  then have "ToUpper_rune u (ord c) = ord (ascii_upper c)" "ord (ascii_upper c) < 128"
    by (auto simp: ToUpper_rune_def ord_upper)
  with Cons show ?case by (simp add: ToUpper_def runes_ascii_Cons string_of_runes_def EncodeRune_ascii)
qed (simp add: ToUpper_def string_of_runes_def)

lemma split_on_nonempty [simp]: "split_on c s \<noteq> []"
  by (induction s) (auto split: list.split)

lemma join_split: "join_with [c] (split_on c s) = s"
proof (induction s)
  case (Cons x s)
  show ?case
  proof (cases "split_on c s")
    case (Cons f fs)
    with Cons.IH show ?thesis by (cases fs) auto
  qed simp
qed simp

lemma set_split_on: "p \<in> set (split_on c s) \<Longrightarrow> set p \<subseteq> set s"
proof (induction s arbitrary: p)
  case (Cons x s)
  show ?case
  proof (cases "split_on c s")
    case (Cons f fs)
    then have "set f \<subseteq> set s" using Cons.IH by simp
    with Cons Cons.IH Cons.prems show ?thesis by (fastforce split: if_splits)
  qed simp
qed simp

lemma canonical_ascii:
  assumes "is_ascii s" shows "canonicalAttrName u s = title_name s"
proof -
  have "title_part u p = title_ascii p" if "p \<in> set (split_on (CHR ''-'') s)" for p
  proof -
    have p: "is_ascii p" using set_split_on [OF that] assms by blast
    then show ?thesis
      by (cases p) (simp_all add: title_part_def title_ascii_def ToUpper_ascii ToLower_ascii)
  qed
  then show ?thesis by (simp add: canonicalAttrName_def title_name_def cong: map_cong)
qed

lemma fold_facts:
  "ascii_fold (ascii_fold c) = ascii_fold c" "ascii_upper (ascii_fold c) = ascii_upper c"
  "ascii_fold (ascii_upper c) = ascii_fold c"
  "ascii_fold c = CHR ''-'' \<longleftrightarrow> c = CHR ''-''"
  "ord (ascii_fold c) < 128 \<longleftrightarrow> ord c < 128"
  by (cases c; auto simp: letter_bits_def)+

lemma split_on_fold: "split_on (CHR ''-'') (map ascii_fold s) = map (map ascii_fold) (split_on (CHR ''-'') s)"
  by (induction s) (auto simp: fold_facts split: list.split)

lemma title_name_fold: "title_name (map ascii_fold s) = title_name s"
proof -
  have "title_ascii (map ascii_fold p) = title_ascii p" for p
    by (cases p) (simp_all add: title_ascii_def fold_facts)
  then show ?thesis by (simp add: title_name_def split_on_fold comp_def)
qed

lemma fold_join: "map ascii_fold (join_with ''-'' ps) = join_with ''-'' (map (map ascii_fold) ps)"
  by (induction ps rule: induct_list012) (simp_all add: fold_facts)

lemma fold_title_name: "map ascii_fold (title_name s) = map ascii_fold s"
proof -
  have "map ascii_fold (title_ascii p) = map ascii_fold p" for p
    by (cases p) (simp_all add: title_ascii_def fold_facts)
  then have "map ascii_fold (title_name s) = map ascii_fold (join_with ''-'' (split_on (CHR ''-'') s))"
    by (simp add: title_name_def fold_join comp_def)
  then show ?thesis by (simp add: join_split)
qed

lemma standard_folded:
  "distinct (map (\<lambda>e. map ascii_fold (adName e)) standard_attributes)"
  "list_all (\<lambda>e. list_all (\<lambda>c. ord c < 128) (adName e) \<and> 65 \<le> ord (hd (adName e)) \<and> ord (hd (adName e)) \<le> 90)
     standard_attributes"
  by code_simp+

lemma ascii_same: "map ascii_fold s = map ascii_fold t \<Longrightarrow> is_ascii t \<Longrightarrow> is_ascii s"
proof -
  assume a: "map ascii_fold s = map ascii_fold t" and t: "is_ascii t"
  have "is_ascii (map ascii_fold s)" unfolding a using t by (simp add: fold_facts)
  then show ?thesis by (simp add: fold_facts)
qed

lemma letter_digit: "65 \<le> n \<and> n \<le> 90 \<or> 97 \<le> n \<and> n \<le> 122 \<Longrightarrow> 97 \<le> lower_ord n \<and> lower_ord n \<le> 122"
proof -
  have "list_all (\<lambda>n. 97 \<le> lower_ord n \<and> lower_ord n \<le> 122) ([65..<91] @ [97..<123])" by code_simp
  then have "\<forall>n \<in> {65..<91} \<union> {97..<123}. 97 \<le> lower_ord n \<and> lower_ord n \<le> 122"
    by (simp only: list_all_iff set_append set_upt)
  then show "65 \<le> n \<and> n \<le> 90 \<or> 97 \<le> n \<and> n \<le> 122 \<Longrightarrow> 97 \<le> lower_ord n \<and> lower_ord n \<le> 122"
    by auto
qed

lemma Atoi_letter: "65 \<le> ord c \<and> ord c \<le> 90 \<or> 97 \<le> ord c \<and> ord c \<le> 122 \<Longrightarrow> Atoi (c # s) = None"
proof -
  assume c: "65 \<le> ord c \<and> ord c \<le> 90 \<or> 97 \<le> ord c \<and> ord c \<le> 122"
  then have "c \<noteq> CHR ''-''" "c \<noteq> CHR ''+''" by auto
  with c letter_digit [OF c] show ?thesis by (auto simp: Atoi_def ParseUint10_def digit_of_def)
qed

lemma fold_letter: "ascii_fold c = ascii_fold d \<Longrightarrow> 65 \<le> ord d \<Longrightarrow> ord d \<le> 90 \<Longrightarrow>
   65 \<le> ord c \<and> ord c \<le> 90 \<or> 97 \<le> ord c \<and> ord c \<le> 122"
proof -
  assume a: "ascii_fold c = ascii_fold d" and d: "65 \<le> ord d" "ord d \<le> 90"
  from a have "ord (ascii_fold c) = ord (ascii_fold d)" by simp
  with d show ?thesis by (auto simp: ord_fold split: if_splits)
qed

lemma folded_name:
  assumes "e \<in> set standard_attributes" "map ascii_fold s = map ascii_fold (adName e)"
  shows "is_ascii s" "Atoi s = None" "canonicalAttrName u s = canonicalAttrName u (adName e)"
    "dict_LookupName Default s = (if s = adName e then Some e else None)"
proof -
  have n: "is_ascii (adName e)" "65 \<le> ord (hd (adName e))" "ord (hd (adName e)) \<le> 90"
    using standard_folded(2) assms(1) by (auto simp: list_all_iff)
  then have ne: "adName e \<noteq> []" using standard_names assms(1) by blast
  show a: "is_ascii s" by (rule ascii_same [OF assms(2) n(1)])
  from ne assms(2) obtain c cs where s: "s = c # cs" and "ascii_fold c = ascii_fold (hd (adName e))"
    by (cases s; cases "adName e") auto
  then have "65 \<le> ord c \<and> ord c \<le> 90 \<or> 97 \<le> ord c \<and> ord c \<le> 122" using n(2,3) by (intro fold_letter)
  then show "Atoi s = None" unfolding s by (rule Atoi_letter)
  show "canonicalAttrName u s = canonicalAttrName u (adName e)"
    using assms(2) by (metis canonical_ascii [OF a] canonical_ascii [OF n(1)] title_name_fold)
  have same: "e' = e" if "e' \<in> set standard_attributes" "adName e' = s" for e'
    using standard_folded(1) assms that unfolding distinct_map inj_on_def by metis
  show "dict_LookupName Default s = (if s = adName e then Some e else None)"
  proof (cases "s = adName e")
    case True
    with assms(1) have "dict_LookupName Default s = Some e" by (simp only: Default_entries(4))
    with True show ?thesis by simp
  next
    case False
    have "dict_LookupName Default s \<noteq> Some e'" for e'
      using same [of e'] False by (auto simp only: Default_entries(4))
    then have "dict_LookupName Default s = None" by (cases "dict_LookupName Default s") blast+
    with False show ?thesis by simp
  qed
qed

text \<open>
  Whatever case a name of the standard dictionary is typed in, it can only resolve to that
  attribute; but it does so in every case only when the name itself is written with one capital at
  the start of each part. Names such as NAS-IP-Address or EAP-Message are found in their exact
  spelling and in no other.
\<close>

theorem attr_name_case:
  assumes "e \<in> set standard_attributes" and "map ascii_fold s = map ascii_fold (adName e)"
  shows "resolveAttrType u s =
    (if s = adName e \<or> canonicalAttrName u (adName e) = adName e then Inr (adType e, adName e)
     else Inl (UnknownAttrName s))"
proof -
  let ?c = "canonicalAttrName u s"
  note f = folded_name [OF assms]
  have c: "?c = canonicalAttrName u (adName e)" by (rule f(3))
  have "map ascii_fold ?c = map ascii_fold (adName e)"
    by (simp only: canonical_ascii [OF f(1)] fold_title_name assms(2))
  then have l: "dict_LookupName Default ?c = (if ?c = adName e then Some e else None)"
    by (rule folded_name(4) [OF assms(1)])
  show ?thesis
    unfolding resolveAttrType_def f(2) option.case f(4) Let_def l
    using c by auto
qed

theorem attr_name_case_witness:
  "resolveAttrType ascii_unicode ''uSER-nAME'' = Inr (1, ''User-Name'')
   \<and> resolveAttrType ascii_unicode ''nas-ip-address'' = Inl (UnknownAttrName ''nas-ip-address'')"
proof
  let ?e = "attr_def 1 ''User-Name'' TypeString 0 False"
  have e: "?e \<in> set standard_attributes" by (simp add: standard_attributes_def rfc2865_defs_def)
  have f: "map ascii_fold ''uSER-nAME'' = map ascii_fold (adName ?e)" by code_simp
  have "title_name (adName ?e) = adName ?e" by code_simp
  then have "canonicalAttrName ascii_unicode (adName ?e) = adName ?e"
    by (subst canonical_ascii) (simp_all add: attr_def_def)
  with attr_name_case [OF e f, of ascii_unicode]
  show "resolveAttrType ascii_unicode ''uSER-nAME'' = Inr (1, ''User-Name'')" by (simp add: attr_def_def)
next
  let ?e = "attr_def 4 ''NAS-IP-Address'' TypeIPAddr 0 False"
  have e: "?e \<in> set standard_attributes" by (simp add: standard_attributes_def rfc2865_defs_def)
  have f: "map ascii_fold ''nas-ip-address'' = map ascii_fold (adName ?e)" by code_simp
  have "title_name (adName ?e) \<noteq> adName ?e" by code_simp
  then have "canonicalAttrName ascii_unicode (adName ?e) \<noteq> adName ?e"
    by (subst canonical_ascii) (simp_all add: attr_def_def)
  with attr_name_case [OF e f, of ascii_unicode]
  show "resolveAttrType ascii_unicode ''nas-ip-address'' = Inl (UnknownAttrName ''nas-ip-address'')"
    by (simp add: attr_def_def)
qed

text \<open>Of the 88 names, 31 are not found in another case.\<close>

lemma mixed_case_count: "length (filter (\<lambda>e. title_name (adName e) \<noteq> adName e) standard_attributes) = 31"
  by code_simp

end
