(* ===== verification/Radius.thy ===== *)
theory Radius
  imports Tool_Names
begin

text \<open>
  \<open>radius.go\<close>: the constants the root package exports, by the name they are exported under.
  The lemmas compare each name with the texts the library has for its value: the printed form of
  a code, the name of an attribute in the standard dictionary.
\<close>

definition exported_codes :: "(string \<times> code) list" where
  "exported_codes =
    [(''AccessRequest'', AccessRequest), (''AccessAccept'', AccessAccept),
     (''AccessReject'', AccessReject), (''AccountingRequest'', AccountingRequest),
     (''AccountingResponse'', AccountingResponse), (''AccessChallenge'', AccessChallenge),
     (''CoARequest'', CoARequest), (''CoAACK'', CoAACK), (''CoANAK'', CoANAK),
     (''DisconnectRequest'', DisconnectRequest), (''DisconnectACK'', DisconnectACK),
     (''DisconnectNAK'', DisconnectNAK)]"

definition exported_attributes :: "(string \<times> byte) list" where
  "exported_attributes =
    [(''AttrUserName'', AttrUserName), (''AttrUserPassword'', AttrUserPassword), (''AttrCHAPPassword'', AttrCHAPPassword),
     (''AttrNASIPAddress'', AttrNASIPAddress), (''AttrNASPort'', AttrNASPort),
     (''AttrServiceType'', AttrServiceType), (''AttrFramedIPAddress'', AttrFramedIPAddress),
     (''AttrFramedIPNetmask'', AttrFramedIPNetmask), (''AttrFilterID'', AttrFilterID),
     (''AttrReplyMessage'', AttrReplyMessage), (''AttrState'', AttrState),
     (''AttrClass'', AttrClass), (''AttrVendorSpecific'', AttrVendorSpecific),
     (''AttrSessionTimeout'', AttrSessionTimeout), (''AttrIdleTimeout'', AttrIdleTimeout),
     (''AttrCalledStationID'', AttrCalledStationID),
     (''AttrCallingStationID'', AttrCallingStationID), (''AttrNASIdentifier'', AttrNASIdentifier),
     (''AttrProxyState'', AttrProxyState), (''AttrNASPortType'', AttrNASPortType),
     (''AttrAcctStatusType'', AttrAcctStatusType), (''AttrAcctDelayTime'', AttrAcctDelayTime),
     (''AttrAcctInputOctets'', AttrAcctInputOctets),
     (''AttrAcctOutputOctets'', AttrAcctOutputOctets), (''AttrAcctSessionID'', AttrAcctSessionID),
     (''AttrAcctAuthentic'', AttrAcctAuthentic), (''AttrAcctSessionTime'', AttrAcctSessionTime),
     (''AttrAcctInputPackets'', AttrAcctInputPackets),
     (''AttrAcctOutputPackets'', AttrAcctOutputPackets),
     (''AttrAcctTerminateCause'', AttrAcctTerminateCause),
     (''AttrAcctMultiSessionID'', AttrAcctMultiSessionID), (''AttrEAPMessage'', AttrEAPMessage),
     (''AttrMessageAuthenticator'', AttrMessageAuthenticator), (''AttrNASPortID'', AttrNASPortID),
     (''AttrAcctInterimInterval'', AttrAcctInterimInterval),
     (''AttrNASIPv6Address'', AttrNASIPv6Address), (''AttrFramedIPv6Prefix'', AttrFramedIPv6Prefix),
     (''AttrFramedIPv6Pool'', AttrFramedIPv6Pool), (''AttrErrorCause'', AttrErrorCause)]"

definition exported_numbers :: "(string \<times> nat) list" where
  "exported_numbers =
    [(''AuthenticatorLength'', AuthenticatorLength), (''PortAuth'', PortAuth),
     (''PortAccounting'', PortAccounting), (''PortCoA'', PortCoA), (''PortTCP'', PortTCP)]"

text \<open>The exported numbers fit sixteen bits, and no two are alike.\<close>

lemma exported_ports:
  "list_all (\<lambda>(n, k). 0 < k \<and> k < 65536) exported_numbers" "distinct (map snd exported_numbers)"
  by (simp_all add: exported_numbers_def limit_num)

text \<open>A name without its hyphens, in lower case.\<close>

definition plain_name :: "string \<Rightarrow> string" where
  "plain_name s = map ascii_fold (filter (\<lambda>c. c \<noteq> CHR ''-'') s)"

text \<open>
  Exactly the codes a packet may carry are exported, each under the name it is printed as, and no
  two alike.
\<close>

lemma exported_codes_named:
  "list_all (\<lambda>(n, c). isValidCode c \<and> plain_name (Code_String c) = plain_name n) exported_codes"
  "distinct (map snd exported_codes)"
  "isValidCode c \<longleftrightarrow> c \<in> snd ` set exported_codes"
  by (code_simp, code_simp) (auto simp: isValidCode_def exported_codes_def)

text \<open>Every exported attribute number is the one the dictionary has under that name.\<close>

lemma exported_attributes_table:
  "list_all (\<lambda>(n, t). list_ex (\<lambda>e. adType e = t \<and> plain_name (''Attr'' @ adName e) = plain_name n) standard_attributes)
     exported_attributes"
  by code_simp

lemma exported_attributes_named:
  assumes "(n, t) \<in> set exported_attributes"
  shows "\<exists>def. dict_Lookup Default t = Some def \<and> plain_name (''Attr'' @ adName def) = plain_name n"
  using exported_attributes_table assms unfolding list_all_iff list_ex_iff Default_entries(3) by fast

end
