(* ===== verification/Tool_Props.thy ===== *)
theory Tool_Props
  imports Tool_Names EndToEnd
begin

text \<open>
  Properties of the command line tool: what attribute flags become, addresses given as text,
  how a client command runs, and the tool's client commands against its own echo server.
\<close>

section \<open>Attribute flags\<close>

lemma Cut_at_iff: "Cut_at c s = Some (x, y) \<longleftrightarrow> s = x @ c # y \<and> c \<notin> set x"
proof (induction s arbitrary: x)
  case (Cons a s)
  show ?case
  proof (cases "a = c")
    case False
    then have "Cut_at c (a # s) = Some (x, y) \<longleftrightarrow> (\<exists>xs. x = a # xs \<and> Cut_at c s = Some (xs, y))"
      by (auto split: option.splits)
    with Cons.IH False show ?thesis by (cases x) auto
  qed (cases x, auto)
qed simp

lemma Cut_at_none: "Cut_at c s = None \<longleftrightarrow> c \<notin> set s"
  by (induction s) (auto split: option.splits)

text \<open>The ways to name the attribute type \<open>t\<close> on the command line.\<close>

definition names_type :: "unicode \<Rightarrow> string \<Rightarrow> byte \<Rightarrow> bool" where
  "names_type u name t \<longleftrightarrow> t \<noteq> 0 \<and>
    (case Atoi name of Some n \<Rightarrow> n = uint t
     | None \<Rightarrow> (\<exists>e \<in> set standard_attributes. adType e = t \<and>
         (adName e = name \<or> adName e = canonicalAttrName u name)))"

lemma standard_types: "e \<in> set standard_attributes \<Longrightarrow> adType e \<noteq> 0 \<and> adName e \<noteq> []"
proof -
  have "list_all (\<lambda>e. adType e \<noteq> 0) standard_attributes" by code_simp
  then show "e \<in> set standard_attributes \<Longrightarrow> adType e \<noteq> 0 \<and> adName e \<noteq> []"
    using standard_names by (auto simp: list_all_iff)
qed

lemma resolve_names:
  assumes "resolveAttrType u name = Inr (t, cn)"
  shows "names_type u name t" "cn = (case dict_Lookup Default t of Some e \<Rightarrow> adName e | None \<Rightarrow> [])"
proof -
  have found: "names_type u name t \<and> cn = (case dict_Lookup Default t of Some e \<Rightarrow> adName e | None \<Rightarrow> [])"
    if "Atoi name = None" "dict_LookupName Default n = Some e" "n = name \<or> n = canonicalAttrName u name"
      "t = adType e" "cn = adName e" for n e
  proof -
    have e: "e \<in> set standard_attributes" "adName e = n" using that(2) by (simp_all only: Default_entries(4))
    then have "dict_Lookup Default t = Some e" using that(4) by (simp only: Default_entries(3))
    with e that standard_types [OF e(1)] show ?thesis by (auto simp: names_type_def)
  qed
  have "names_type u name t \<and> cn = (case dict_Lookup Default t of Some e \<Rightarrow> adName e | None \<Rightarrow> [])"
  proof (cases "Atoi name")
    case (Some n)
    with assms have n: "1 \<le> n" "n \<le> 255" "t = word_of_int n"
      by (auto simp: resolveAttrType_def Let_def split: if_splits option.splits)
    then have "uint t = n" by (simp add: uint_word_of_int)
    then show ?thesis
      using assms Some n by (auto simp: resolveAttrType_def Let_def names_type_def split: option.splits)
  next
    case None
    show ?thesis
    proof (cases "dict_LookupName Default name")
      case (Some e)
      with assms None have "t = adType e" "cn = adName e" by (simp_all add: resolveAttrType_def)
      with found [OF None Some] show ?thesis by blast
    next
      case n: None
      then obtain e where e: "dict_LookupName Default (canonicalAttrName u name) = Some e"
          "t = adType e" "cn = adName e"
        using assms None by (auto simp: resolveAttrType_def Let_def split: if_splits option.splits)
      with found [OF None e(1)] show ?thesis by blast
    qed
  qed
  then show "names_type u name t" "cn = (case dict_Lookup Default t of Some e \<Rightarrow> adName e | None \<Rightarrow> [])"
    by auto
qed

text \<open>What the flag \<open>raw\<close> asks for, as far as the attribute shows it.\<close>

definition flag_means :: "unicode \<Rightarrow> string \<Rightarrow> attribute \<Rightarrow> bool" where
  "flag_means u raw a \<longleftrightarrow> (\<exists>name v. raw = name @ CHR '':'' # v \<and> CHR '':'' \<notin> set name
     \<and> names_type u name (aType a)
     \<and> (case dict_Lookup Default (aType a) of
          None \<Rightarrow> aValue a = string_bytes v
        | Some def \<Rightarrow> (\<exists>x. any_value (adValueType def) (AnyString v) = Inr x \<and> attr_Decode a Default = Inr x)))"

lemma attr_from_flag_means:
  assumes "attr_from_flag u raw = Inr a" shows "flag_means u raw a"
proof -
  from assms obtain name v t cn where c: "Cut_at (CHR '':'') raw = Some (name, v)"
    and r: "resolveAttrType u name = Inr (t, cn)"
    and a: "if cn \<noteq> [] then NewByName Default cn (AnyString v) = Inr a else a = NewString t (string_bytes v)"
    by (auto simp: attr_from_flag_def split: option.splits sum.splits if_splits)
  note s = resolve_names [OF r]
  have "names_type u name (aType a) \<and> (case dict_Lookup Default (aType a) of
          None \<Rightarrow> aValue a = string_bytes v
        | Some def \<Rightarrow> (\<exists>x. any_value (adValueType def) (AnyString v) = Inr x \<and> attr_Decode a Default = Inr x))"
  proof (cases "dict_Lookup Default t")
    case None
    with s a show ?thesis by (simp add: NewString_def)
  next
    case (Some e)
    then have e: "e \<in> set standard_attributes" "adType e = t" by (simp_all only: Default_entries(3))
    then have n: "dict_LookupName Default cn = Some e" "cn \<noteq> []"
      using s(2) Some standard_types [OF e(1)] by (simp_all add: Default_entries(4))
    with a have enc: "encode_as e (AnyString v) = Inr a" by (simp add: NewByName_def)
    have l: "dict_Lookup Default (adType e) = Some e" using Some e(2) by simp
    obtain x where "any_value (adValueType e) (AnyString v) = Inr x"
      using enc encode_as_iff [of e "AnyString v"] by (cases "any_value (adValueType e) (AnyString v)") auto
    with encode_as_decode [OF enc l] s(1) e(2) l show ?thesis by auto
  qed
  with c show ?thesis unfolding flag_means_def Cut_at_iff by blast
qed

text \<open>
  C29: The attributes built from \<open>--attr\<close> flags are, in order, what the flags ask for: the type
  the part before the first colon names (a number from 1 to 255, a dictionary name or one that
  is a dictionary name once capitalised), and a value that decodes in the default dictionary to
  what the text after the colon stands for, or is that text when the type is not registered.
  One flag that is wrong makes the whole command fail with the error of the first such flag.
\<close>

theorem attrs_from_flags:
  "case attrsFromFlags u raws of
     Inr as \<Rightarrow> list_all2 (flag_means u) raws as
   | Inl e \<Rightarrow> (\<exists>good bad rest as. raws = good @ bad # rest \<and> attrsFromFlags u good = Inr as
        \<and> attr_from_flag u bad = Inl e)"
proof (induction raws)
  case (Cons raw raws)
  show ?case
  proof (cases "attr_from_flag u raw")
    case (Inl e)
    have e: "attrsFromFlags u (raw # raws) = Inl e" using Inl by simp
    have "raw # raws = [] @ raw # raws" "attrsFromFlags u [] = Inr []" by simp_all
    with Inl show ?thesis unfolding e sum.case by blast
  next
    case (Inr a)
    show ?thesis
    proof (cases "attrsFromFlags u raws")
      case (Inr as)
      with Cons.IH \<open>attr_from_flag u raw = Inr a\<close> attr_from_flag_means show ?thesis by simp
    next
      case (Inl e)
      with Cons.IH obtain good bad rest as where "raws = good @ bad # rest" "attrsFromFlags u good = Inr as"
        "attr_from_flag u bad = Inl e" by auto
      moreover have "raw # good @ bad # rest = (raw # good) @ bad # rest" by simp
      moreover have e: "attrsFromFlags u (raw # raws) = Inl e" using Inl Inr by simp
      moreover have "attrsFromFlags u (raw # good) = Inr (a # as)" using Inr \<open>attrsFromFlags u good = Inr as\<close> by simp
      ultimately show ?thesis unfolding e sum.case by blast
    qed
  qed
qed simp

section \<open>Addresses given as text\<close>

lemma LastIndexByte_append: "c \<notin> set y \<Longrightarrow> LastIndexByte (x @ c # y) c = Some (length x)"
  by (simp add: LastIndexByte_def IndexByte_append)

lemma SplitHostPort_plain:
  assumes "set host \<inter> set '':[]'' = {}" "set port \<inter> set '':[]'' = {}" "host \<noteq> []"
  shows "SplitHostPort (host @ CHR '':'' # port) = Some (host, port)"
proof -
  have "LastIndexByte (host @ CHR '':'' # port) (CHR '':'') = Some (length host)"
    using assms(2) by (intro LastIndexByte_append) auto
  moreover have "hd (host @ CHR '':'' # port) \<noteq> CHR ''[''" using assms(1,3) by (cases host) auto
  ultimately show ?thesis using assms(1,2) by (auto simp: SplitHostPort_def)
qed

lemma digits_plain: "set (dec_digits n) \<inter> set '':[]'' = {}"
  using dec_digits_facts(1) [of n] by (auto simp: list_all_iff is_digit_def)

lemma ipv4_plain: "length ip = 4 \<Longrightarrow> set (IP_String ip) \<inter> set '':[]'' = {}"
  using ipv4_chars(1) [of ip] by (auto simp: is_digit_def)

lemma addr_text:
  assumes "length ip = 4" "0 \<le> port"
  shows "addr_String (UDPAddr ip port []) = IP_String ip @ CHR '':'' # dec_digits (nat port)"
  using assms ipv4_plain [OF assms(1)] by (auto simp: JoinHostPort_def ipEmptyString_def itoa_def)

lemma foldl_mono: "acc \<le> foldl (\<lambda>a c. 10 * a + digit_val c) acc ds"
proof (induction ds arbitrary: acc)
  case (Cons d ds)
  from Cons.IH [of "10 * acc + digit_val d"] show ?case by simp
qed simp

lemma parsePort_loop_digits:
  "list_all is_digit ds \<Longrightarrow> foldl (\<lambda>a c. 10 * a + digit_val c) acc ds \<le> 65535 \<Longrightarrow>
   parsePort_loop (word_of_nat acc) ds = Some (word_of_nat (foldl (\<lambda>a c. 10 * a + digit_val c) acc ds))"
proof (induction ds arbitrary: acc)
  case (Cons d ds)
  let ?a = "10 * acc + digit_val d"
  have le: "?a \<le> 65535" using foldl_mono [of ?a ds] Cons.prems(2) by simp
  have u: "unat (word_of_nat k :: 32 word) = k" if "k \<le> 65535" for k
    using that by (simp add: unat_of_nat take_bit_nat_def)
  have "\<not> (1073741824 :: 32 word) \<le> word_of_nat acc" using u [of acc] le by (simp add: word_le_nat_alt)
  moreover have m: "word_of_nat acc * 10 + word_of_nat (digit_val d) = (word_of_nat ?a :: 32 word)"
    by simp
  moreover have "\<not> (word_of_nat ?a :: 32 word) < word_of_nat acc * 10"
  proof -
    have "word_of_nat acc * 10 = (word_of_nat (10 * acc) :: 32 word)" by simp
    then show ?thesis using u [of ?a] u [of "10 * acc"] le by (simp only: word_less_nat_alt)
  qed
  ultimately show ?case using Cons.IH [of ?a] Cons.prems by (simp add: Let_def mult.commute)
qed simp

lemma LookupPort_digits:
  assumes "n \<le> 65535" shows "LookupPort services network (dec_digits n) = Some (int n)"
proof -
  have d: "list_all is_digit (dec_digits n)" "dec_digits n \<noteq> []" by (rule dec_digits_facts)+
  then have h: "hd (dec_digits n) \<noteq> CHR ''-''" "hd (dec_digits n) \<noteq> CHR ''+''"
    by (cases "dec_digits n"; auto simp: is_digit_def)+
  have v: "foldl (\<lambda>a c. 10 * a + digit_val c) 0 (dec_digits n) = n"
    using dec_digits_facts(2) [of n] by (simp add: dec_value_def)
  have "parsePort_loop 0 (dec_digits n) = Some (word_of_nat n)"
    using parsePort_loop_digits [OF d(1), of 0] v assms by simp
  moreover have u: "unat (word_of_nat n :: 32 word) = n" using assms by (simp add: unat_of_nat take_bit_nat_def)
  moreover have "\<not> (1073741824 :: 32 word) \<le> word_of_nat n" using u assms by (simp add: word_le_nat_alt)
  moreover have "uint (word_of_nat n :: 32 word) = int n" using u by (metis uint_nat)
  ultimately have "parsePort (dec_digits n) = Some (int n)"
    using d(2) h by (simp add: parsePort_def Let_def)
  with assms show ?thesis by (simp add: LookupPort_def)
qed

text \<open>
  An IPv4 socket address printed as text, as the tool prints its own, is read back by
  \<open>--server\<close> and by \<open>--bind\<close> as the same address and port, with no name looked up. A
  port given by name is refused by \<open>--bind\<close> whatever the service database holds.
\<close>

theorem address_text_roundtrip:
  assumes "length ip = 4" and "0 \<le> port" and "port \<le> 65535"
  shows "resolveServerAddr lookup (addr_String (UDPAddr ip port [])) =
      Inr (UDPAddr (v4InV6Prefix @ ip) port [], TCPAddr (v4InV6Prefix @ ip) port [])
    \<and> bind_addr hw (addr_String (UDPAddr ip port [])) = Inr (v4InV6Prefix @ ip, port)
    \<and> (parsePort name = None \<and> set name \<inter> set '':[]'' = {} \<longrightarrow>
        bind_addr hw (IP_String ip @ CHR '':'' # name) = Inl (InvalidBindPort name))"
proof -
  note p = ParseIP_ipv4_String [OF assms(1)] and i = ipv4_plain [OF assms(1)]
  have ne: "IP_String ip \<noteq> []" by (rule ipv4_chars(2) [OF assms(1)])
  have s: "SplitHostPort (addr_String (UDPAddr ip port [])) = Some (IP_String ip, dec_digits (nat port))"
    unfolding addr_text [OF assms(1,2)] by (rule SplitHostPort_plain [OF i digits_plain ne])
  have a: "Atoi (dec_digits (nat port)) = Some port"
    using Atoi_itoa [of port] assms(2,3) by (simp add: itoa_def)
  have l: "LookupPort (hwServices hw) ''network'' (dec_digits (nat port)) = Some port"
    using LookupPort_digits [of "nat port"] assms(2,3) by simp
  have n: "bind_addr hw (IP_String ip @ CHR '':'' # name) = Inl (InvalidBindPort name)"
    if "parsePort name = None" "set name \<inter> set '':[]'' = {}"
  proof -
    have "LookupPort (hwServices hw) ''network'' name = None"
      using that(1) by (simp add: LookupPort_def port_networks_def)
    then show ?thesis by (simp add: bind_addr_def SplitHostPort_plain [OF i that(2) ne] p)
  qed
  have "resolveServerAddr lookup (addr_String (UDPAddr ip port [])) =
      Inr (UDPAddr (v4InV6Prefix @ ip) port [], TCPAddr (v4InV6Prefix @ ip) port [])"
    unfolding resolveServerAddr_def s option.case prod.case a p ..
  moreover have "bind_addr hw (addr_String (UDPAddr ip port [])) = Inr (v4InV6Prefix @ ip, port)"
    unfolding bind_addr_def s option.case prod.case l p ..
  ultimately show ?thesis using n by blast
qed

theorem address_text_roundtrip_witness:
  "resolveServerAddr (\<lambda>_. Inr []) (addr_String (UDPAddr [127, 0, 0, 1] 1812 [])) =
      Inr (UDPAddr (v4InV6Prefix @ [127, 0, 0, 1]) 1812 [], TCPAddr (v4InV6Prefix @ [127, 0, 0, 1]) 1812 [])
   \<and> bind_addr \<lparr>hwServices = (\<lambda>_ _. Some 1812), hwUDP = (\<lambda>_ _. Inl io_EOF), hwTCP = (\<lambda>_ _. Inl io_EOF)\<rparr>
       (IP_String [127, 0, 0, 1] @ '':radius'') = Inl (InvalidBindPort ''radius'')"
  using address_text_roundtrip [of "[127, 0, 0, 1]" 1812 "\<lambda>_. Inr []"
      "\<lparr>hwServices = (\<lambda>_ _. Some 1812), hwUDP = (\<lambda>_ _. Inl io_EOF), hwTCP = (\<lambda>_ _. Inl io_EOF)\<rparr>" "''radius''"]
    parsePort_vectors(2) by simp

section \<open>The client commands\<close>

text \<open>
  The four commands share one course: check the settings and the flags, make a client, make the
  call, print.
\<close>

definition run_tool :: "unicode \<Rightarrow> settings \<Rightarrow> world \<Rightarrow> (tool_error + 'a)
    \<Rightarrow> (client \<Rightarrow> 'a \<Rightarrow> (response res \<times> client_event list \<times> client) option)
    \<Rightarrow> string \<Rightarrow> (response \<Rightarrow> string) \<Rightarrow> tool_run option" where
  "run_tool u cfg w prep call label title =
    (case prep of Inl e \<Rightarrow> Some (refused e)
     | Inr x \<Rightarrow>
        (case tool_newClient u cfg w of Inl e \<Rightarrow> Some (refused e)
         | Inr c \<Rightarrow>
            (case call (protocol_client c) x of None \<Rightarrow> None
             | Some (Inl e, evs, _) \<Rightarrow>
                 Some \<lparr>trOut = [], trErr = Some (call_failure label e), trEvents = evs, trClosed = True\<rparr>
             | Some (Inr resp, evs, _) \<Rightarrow>
                 Some \<lparr>trOut = title resp @ id_suffix (rsIdentifier resp) @ printAttrs u (rsAttributes resp),
                       trErr = None, trEvents = evs, trClosed = True\<rparr>)))"

definition then_attrs :: "unicode \<Rightarrow> settings \<Rightarrow> string list \<Rightarrow> (attribute list \<Rightarrow> tool_error + 'a) \<Rightarrow> tool_error + 'a" where
  "then_attrs u cfg raws f =
    (case ensureTimeoutPositive cfg of Inl e \<Rightarrow> Inl e
     | Inr _ \<Rightarrow> (case attrsFromFlags u raws of Inl e \<Rightarrow> Inl e | Inr as \<Rightarrow> f as))"

definition access_prep :: "unicode \<Rightarrow> settings \<Rightarrow> access_flags \<Rightarrow> tool_error + access_request" where
  "access_prep u cfg fl = then_attrs u cfg (afAttr fl) (\<lambda>as. Inr
     \<lparr>arAuthenticator = replicate 16 0,
      arAttributes = (if afPassword fl \<noteq> [] then as @ [NewString AttrUserPassword (string_bytes (afPassword fl))] else as),
      arMethod = (if afEap fl then AuthEAP else AuthPAP)\<rparr>)"

definition account_prep :: "unicode \<Rightarrow> settings \<Rightarrow> account_flags \<Rightarrow> tool_error + accounting_request" where
  "account_prep u cfg fl = then_attrs u cfg (cfAttr fl) (\<lambda>as.
     case status_value (cfStatus fl) of Inl e \<Rightarrow> Inl e
     | Inr status \<Rightarrow> Inr \<lparr>acAttributes = NewInteger AttrAcctStatusType status # as\<rparr>)"

definition call_title :: "response \<Rightarrow> string" where
  "call_title resp = ''Reply: '' @ Code_String (rsCode resp)"

lemma access_run:
  "access_RunE u cfg w fl = run_tool u cfg w (access_prep u cfg fl)
     (\<lambda>c. Authenticate c (wCall w) (callCtx cfg (ceNow (wCall w)))) ''access-request failed'' call_title"
  unfolding access_RunE_def run_tool_def access_prep_def then_attrs_def call_title_def Let_def append_assoc
  by (simp split: sum.split)

lemma account_run:
  "account_RunE u cfg w fl = run_tool u cfg w (account_prep u cfg fl)
     (\<lambda>c. Account c (wCall w) (callCtx cfg (ceNow (wCall w)))) ''accounting-request failed''
     (\<lambda>_. ''Reply: Accounting-Response'')"
  unfolding account_RunE_def run_tool_def account_prep_def then_attrs_def Let_def append_assoc
  by (simp split: sum.split)

lemma coa_run:
  "coa_RunE u cfg w fl = run_tool u cfg w
     (then_attrs u cfg (dfAttr fl) (\<lambda>as. Inr \<lparr>coAttributes = as,
        coMessageAuthenticator = (if dfMessageAuthenticator fl then Some True else None)\<rparr>))
     (\<lambda>c. SendCoA c (wCall w) (callCtx cfg (ceNow (wCall w)))) ''coa-request failed'' call_title"
  unfolding coa_RunE_def run_tool_def then_attrs_def call_title_def Let_def append_assoc
  by (simp split: sum.split)

lemma disconnect_run:
  "disconnect_RunE u cfg w fl = run_tool u cfg w
     (then_attrs u cfg (dfAttr fl) (\<lambda>as. Inr \<lparr>dcAttributes = as,
        dcMessageAuthenticator = (if dfMessageAuthenticator fl then Some True else None)\<rparr>))
     (\<lambda>c. SendDisconnect c (wCall w) (callCtx cfg (ceNow (wCall w)))) ''disconnect-request failed'' call_title"
  unfolding disconnect_RunE_def run_tool_def then_attrs_def call_title_def Let_def append_assoc
  by (simp split: sum.split)

text \<open>The client of a command: fresh, and by its transport one attempt or three.\<close>

definition tcp_network :: "unicode \<Rightarrow> settings \<Rightarrow> bool" where
  "tcp_network u cfg \<longleftrightarrow> ToLower u (vpNetwork cfg) \<in> set [''tcp'', ''tcp4'', ''tcp6'']"

lemma tool_client_fresh:
  assumes "tool_newClient u cfg w = Inr c"
  shows "clPool (protocol_client c) = NewIdentifierPool" "clSecret (protocol_client c) = string_bytes (vpSecret cfg)"
    "nat (Attempts (clRetransmit (protocol_client c))) = (if tcp_network u cfg then 1 else 3)"
proof -
  note defs = tool_newClient_def NewUDPClient_def NewTCPClient_def NewClient_two client_settings_def
    retransmitOrZero_def Attempts_def DefaultRetransmitPolicy_def tcp_network_def
  show "clPool (protocol_client c) = NewIdentifierPool" "clSecret (protocol_client c) = string_bytes (vpSecret cfg)"
    "nat (Attempts (clRetransmit (protocol_client c))) = (if tcp_network u cfg then 1 else 3)"
    using assms by (auto simp: defs Let_def split: sum.splits prod.splits if_splits)
qed

definition any_command :: "unicode \<Rightarrow> settings \<Rightarrow> world \<Rightarrow> access_flags \<Rightarrow> account_flags \<Rightarrow> dynauth_flags
    \<Rightarrow> tool_run option list" where
  "any_command u cfg w af cf df =
    [access_RunE u cfg w af, account_RunE u cfg w cf, coa_RunE u cfg w df, disconnect_RunE u cfg w df]"

lemma run_call_fresh:
  assumes "clPool c = NewIdentifierPool"
  shows "\<exists>r evs c'. run_call c env ctx build ok = Some (r, evs, c')
    \<and> (\<exists>n raw. sends evs = replicate n raw \<and> n \<le> nat (Attempts (clRetransmit c)))
    \<and> (\<forall>resp. r = Inr resp \<longrightarrow> rsIdentifier resp = 0)"
proof -
  have p: "clPool c = 0 # map word_of_nat [1..<256]"
    using assms by (simp add: NewIdentifierPool_def upt_rec [of 0 256])
  then have "run_call c env ctx build ok \<noteq> None"
    by (auto simp: run_call_def acquireID_cases split: sum.split prod.split)
  then obtain r evs c' where r: "run_call c env ctx build ok = Some (r, evs, c')" by auto
  have "rsIdentifier resp = 0" if "r = Inr resp" for resp
  proof -
    from run_call_reply [OF r [unfolded that]] p obtain auth reply pkt where
      "VerifyResponse reply 0 auth (clSecret c) = Inr pkt" "resp = to_response pkt" by auto
    then show ?thesis
      by (auto simp: VerifyResponse_def to_response_def split: prod.splits sum.splits if_splits)
  qed
  with r run_call_sends [OF r] show ?thesis by blast
qed

definition good_run :: "bool \<Rightarrow> tool_run \<Rightarrow> bool" where
  "good_run tcp r \<longleftrightarrow> (\<exists>n raw. sends (trEvents r) = replicate n raw \<and> n \<le> (if tcp then 1 else 3))
    \<and> (case trErr r of
         Some e \<Rightarrow> trOut r = [] \<and> main_status r = (if e = Panicked then 2 else 1)
           \<and> (\<not> trClosed r \<longrightarrow> trEvents r = [] \<and> e \<noteq> Panicked)
       | None \<Rightarrow> trClosed r \<and> main_status r = 0
           \<and> (\<exists>title rest. trOut r = ''Reply: '' @ title @ '' (id=0)'' @ [CHR 0x0A] @ rest))"

lemma good_refused: "e \<noteq> Panicked \<Longrightarrow> good_run tcp (refused e)"
  by (simp add: good_run_def refused_def main_status_def exI [of _ 0] split: tool_error.split)

text \<open>Nothing before the call panics.\<close>

lemma flags_do_not_panic:
  "resolveAttrType u name \<noteq> Inl Panicked" "attr_from_flag u raw \<noteq> Inl Panicked" "attrsFromFlags u raws \<noteq> Inl Panicked"
  "status_value t \<noteq> Inl Panicked" "tool_newClient u cfg w \<noteq> Inl Panicked"
proof -
  show r: "resolveAttrType u name \<noteq> Inl Panicked" for name
    by (simp add: resolveAttrType_def Let_def split: option.split)
  show a: "attr_from_flag u raw \<noteq> Inl Panicked" for raw
    using r by (auto simp: attr_from_flag_def split: option.split sum.split)
  show "attrsFromFlags u raws \<noteq> Inl Panicked" by (induction raws) (use a in \<open>auto split: sum.split\<close>)
  show "status_value t \<noteq> Inl Panicked" by (simp add: status_value_def split: option.split)
  have "resolveServerAddr l h \<noteq> Inl Panicked" for l h
    by (auto simp: resolveServerAddr_def split: option.split sum.split list.split)
  then show "tool_newClient u cfg w \<noteq> Inl Panicked"
    by (auto simp: tool_newClient_def Let_def split: sum.split)
qed

lemma prepared_without_panic:
  "(\<And>as. f as \<noteq> Inl Panicked) \<Longrightarrow> then_attrs u cfg raws f \<noteq> Inl Panicked"
  "access_prep u cfg af \<noteq> Inl Panicked" "account_prep u cfg cf \<noteq> Inl Panicked"
  using flags_do_not_panic
  by (auto simp: access_prep_def account_prep_def then_attrs_def ensureTimeoutPositive_def split: sum.split)

lemma id_suffix_0: "id_suffix 0 = '' (id=0)'' @ [CHR 0x0A]"
  unfolding id_suffix_def by code_simp

lemma run_tool_good:
  assumes call: "\<And>c x. \<exists>build ok. call c x = run_call c env ctx build ok"
    and title: "\<And>resp. \<exists>t. title resp = ''Reply: '' @ t" and prep: "prep \<noteq> Inl Panicked"
  shows "\<exists>r. run_tool u cfg w prep call label title = Some r \<and> good_run (tcp_network u cfg) r"
proof (cases "\<exists>x c. prep = Inr x \<and> tool_newClient u cfg w = Inr c")
  case False
  then show ?thesis using prep flags_do_not_panic(5) [of u cfg w]
    by (cases prep; cases "tool_newClient u cfg w") (auto simp: run_tool_def good_refused)
next
  case True
  then obtain x c where x: "prep = Inr x" "tool_newClient u cfg w = Inr c" by blast
  note fresh = tool_client_fresh [OF x(2)]
  from call obtain build ok where b: "call (protocol_client c) x = run_call (protocol_client c) env ctx build ok" by blast
  from run_call_fresh [OF fresh(1), of env ctx build ok] obtain r evs c' where
    r: "call (protocol_client c) x = Some (r, evs, c')" "\<forall>resp. r = Inr resp \<longrightarrow> rsIdentifier resp = 0"
    and n: "\<exists>n raw. sends evs = replicate n raw \<and> n \<le> (if tcp_network u cfg then 1 else 3)"
    unfolding b fresh(3) by blast
  show ?thesis
  proof (cases r)
    case (Inl e)
    with x r n show ?thesis by (simp add: run_tool_def good_run_def main_status_def call_failure_def)
  next
    case (Inr resp)
    then have i: "rsIdentifier resp = 0" using r(2) by blast
    obtain t where t: "title resp = ''Reply: '' @ t" using title by blast
    have "run_tool u cfg w prep call label title = Some \<lparr>trOut = ''Reply: '' @ t @ '' (id=0)'' @ [CHR 0x0A] @
        printAttrs u (rsAttributes resp), trErr = None, trEvents = evs, trClosed = True\<rparr>"
      using x r(1) Inr by (simp add: run_tool_def i id_suffix_0 t)
    with n show ?thesis by (auto simp: good_run_def main_status_def)
  qed
qed

text \<open>
  C25: Every client command of the tool ends. It sends at most one datagram on TCP and at most
  three, all equal, on UDP. It prints a reply exactly when it ends with status 0, and
  that reply has identifier 0, as each run draws from a fresh pool; with an error the status is
  1 and nothing is printed, and a command refused before it has a client has sent nothing. The
  status is 2 when the call panicked, and only then; only a command that has a client can panic.
  Whenever a client was made, it is closed.
\<close>

theorem tool_commands:
  assumes "cmd \<in> set (any_command u cfg w af cf df)"
  shows "\<exists>r. cmd = Some r \<and> good_run (tcp_network u cfg) r"
proof -
  have t: "\<exists>t. call_title resp = ''Reply: '' @ t" for resp by (simp add: call_title_def)
  have a: "\<exists>t. ''Reply: Accounting-Response'' = ''Reply: '' @ t"
    by (rule exI [of _ "''Accounting-Response''"]) simp
  have "\<exists>r. access_RunE u cfg w af = Some r \<and> good_run (tcp_network u cfg) r"
    unfolding access_run by (rule run_tool_good) (use Authenticate_run t prepared_without_panic(2) in blast)+
  moreover have "\<exists>r. account_RunE u cfg w cf = Some r \<and> good_run (tcp_network u cfg) r"
    unfolding account_run by (rule run_tool_good) (use Account_run a prepared_without_panic(3) in blast)+
  moreover have "\<exists>r. coa_RunE u cfg w df = Some r \<and> good_run (tcp_network u cfg) r"
    unfolding coa_run by (rule run_tool_good [OF _ _ prepared_without_panic(1)]) (use SendCoA_run t in \<open>blast | simp\<close>)+
  moreover have "\<exists>r. disconnect_RunE u cfg w df = Some r \<and> good_run (tcp_network u cfg) r"
    unfolding disconnect_run by (rule run_tool_good [OF _ _ prepared_without_panic(1)]) (use SendDisconnect_run t in \<open>blast | simp\<close>)+
  ultimately show ?thesis using assms by (auto simp: any_command_def)
qed

text \<open>Concrete settings, and a world in which every attempt meets the same reply.\<close>

definition demo_settings :: settings where
  "demo_settings = \<lparr>vpServer = ''127.0.0.1:1812'', vpSecret = ''s'', vpNetwork = ''UDP'', vpTimeout = 5 * time_Second\<rparr>"

definition demo_sock :: "(net_error + (bytes \<times> net_addr)) list \<Rightarrow> udp_sock" where
  "demo_sock rs = \<lparr>uIn = rs, uOut = [], uWr = [], uDlErr = None, uReadDl = None, uWriteDl = None, uClosed = False\<rparr>"

definition demo_world :: "gerror + bytes \<Rightarrow> world" where
  "demo_world reply = \<lparr>wLookupIP = (\<lambda>_. Inr []), wDialUDP = (\<lambda>_ _. Inr (demo_sock [])),
     wDialTCP = (\<lambda>_ _. Inl io_EOF), wLogger = LogrusL (initLogger False), wCall = demo_env (\<lambda>k. reply)\<rparr>"

lemma demo_prep: "sint (vpTimeout demo_settings) = 5000000000"
  by (simp add: demo_settings_def time_Second_def)

lemma demo_client:
  "\<exists>c. tool_newClient ascii_unicode demo_settings (demo_world reply) = Inr c"
proof -
  have "ToLower ascii_unicode ''UDP'' = ''udp''" by (simp add: ToLower_ascii letter_bits_def)
  moreover have "Atoi ''1812'' = Some 1812" "ParseIP ''127.0.0.1'' = Some (v4InV6Prefix @ [127, 0, 0, 1])"
    by code_simp+
  ultimately show ?thesis
    using SplitHostPort_vectors(1)
    by (simp add: tool_newClient_def resolveServerAddr_def demo_settings_def demo_world_def Let_def
        NewUDPClient_def DialUDP_def string_bytes_def)
qed

theorem tool_commands_witness:
  "let df = \<lparr>dfMessageAuthenticator = True, dfAttr = []\<rparr>; w = demo_world (Inl ErrTimeout) in
   \<exists>r. coa_RunE ascii_unicode demo_settings w df = Some r
     \<and> good_run (tcp_network ascii_unicode demo_settings) r"
proof -
  let ?df = "\<lparr>dfMessageAuthenticator = True, dfAttr = []\<rparr>" and ?w = "demo_world (Inl ErrTimeout)"
  have "coa_RunE ascii_unicode demo_settings ?w ?df \<in> set (any_command ascii_unicode demo_settings ?w
      \<lparr>afPassword = [], afEap = False, afAttr = []\<rparr> \<lparr>cfStatus = [], cfAttr = []\<rparr> ?df)"
    by (simp add: any_command_def)
  from tool_commands [OF this] show ?thesis unfolding Let_def .
qed

section \<open>The network flag\<close>

text \<open>
  \<open>--network\<close> chooses between UDP and TCP only: whatever it says, the client dials with the
  IPv4 network of that transport.
\<close>

lemma dials_ipv4_only:
  assumes "\<forall>a. wDialUDP w a ''udp4'' = wDialUDP w' a ''udp4''" "\<forall>a. wDialTCP w a ''tcp4'' = wDialTCP w' a ''tcp4''"
    and "wLookupIP w = wLookupIP w'" "wLogger w = wLogger w'"
  shows "tool_newClient u cfg w = tool_newClient u cfg w'"
proof -
  have "NewUDPClient (wDialUDP w a) (wLogger w) s (client_settings cfg) = NewUDPClient (wDialUDP w' a) (wLogger w') s (client_settings cfg)"
    "NewTCPClient (wDialTCP w a) (wLogger w) s (client_settings cfg) = NewTCPClient (wDialTCP w' a) (wLogger w') s (client_settings cfg)" for a s
    using assms(1,2,4) by (simp_all add: NewUDPClient_def NewTCPClient_def client_settings_def)
  then show ?thesis by (simp only: tool_newClient_def assms(3))
qed

section \<open>Against the echo server\<close>

text \<open>A signal cancels the context of the server, but the UDP loop only looks at it after an error.\<close>

lemma serve_loop_deaf:
  "list_all (\<lambda>r. case r of Inl _ \<Rightarrow> False | Inr _ \<Rightarrow> True) rs \<Longrightarrow> snd (serve_loop lookup ctx rs) = None"
proof (induction rs)
  case (Cons r rs)
  then obtain dg src where r: "r = Inr (dg, src)" by (cases r) auto
  show ?case using Cons by (auto simp: r split: option.split prod.split)
qed simp

lemma udp_server_deaf_to_signals:
  assumes "server_RunE u hw dflt ctx fl = Inr (txt, ServedUDP srv spawned, res)"
    and "uDlErr (usListener srv) = None"
    and "list_all (\<lambda>r. case r of Inl _ \<Rightarrow> False | Inr _ \<Rightarrow> True) (uIn (usListener srv))"
  shows "res = None"
  using assms serve_loop_deaf [OF assms(3), of "StaticSecret (string_bytes (sfSecret fl))" ctx]
  by (auto simp: server_RunE_def UDPServer_Serve_def Let_def split: sum.splits prod.splits if_splits)

lemma echo_text:
  "printAttrs u [NewString AttrReplyMessage (string_bytes ''accepted'')] =
     ''  Reply-Message (18) = '' @ [CHR 0x22] @ ''accepted'' @ [CHR 0x22, CHR 0x0A]"
proof -
  let ?e = "attr_def 18 ''Reply-Message'' TypeString 0 False"
  have "?e \<in> set standard_attributes" by (simp add: standard_attributes_def rfc2865_defs_def)
  then have l: "dict_Lookup Default 18 = Some ?e"
    by (subst Default_entries(3)) (simp add: attr_def_def)
  have b: "bytes_string (string_bytes ''accepted'') = ''accepted''" by (rule bytes_string_inverse)
  have q: "strconv_Quote p ''accepted'' = [CHR 0x22] @ ''accepted'' @ [CHR 0x22]" for p
    by (simp add: strconv_Quote_def quote_loop.simps rune_at_ascii RuneError_def escaped_rune_def
        IsPrint_def string_of_runes_def EncodeRune_def) code_simp
  have d: "dec_digits 18 = ''18''" by code_simp
  show ?thesis
    by (simp add: printAttrs_def FormatAttribute_def formatAttrValue_def NewString_def attr_num l
        attr_def_def format_as_def b q d)
qed

lemma tool_ctx: "applyDefaultTimeout c now (callCtx cfg now') = callCtx cfg now'"
  by (simp add: applyDefaultTimeout_def callCtx_def)

definition echo_reply :: string where
  "echo_reply = ''Reply: Access-Accept (id=0)'' @ [CHR 0x0A] @ ''  Reply-Message (18) = '' @ [CHR 0x22] @
     ''accepted'' @ [CHR 0x22, CHR 0x0A]"

lemma access_command_answered:
  assumes prep: "access_prep u cfg fl = Inr req" and client: "tool_newClient u cfg w = Inr c"
    and rnd: "ceRand (wCall w) = Inr ra" and live: "\<not> ceCanceled (wCall w)"
    and m: "Marshal (access_packet req ra 0) (string_bytes (vpSecret cfg)) = Inr raw"
    and v: "VerifyResponse out 0 ra (string_bytes (vpSecret cfg)) =
      Inr \<lparr>pCode = AccessAccept, pIdentifier = 0, pAuthenticator = auth,
        pAttributes = [NewString AttrReplyMessage (string_bytes ''accepted'')]\<rparr>"
    and rep: "aeReply (ceAttempt (wCall w) (callCtx cfg (ceNow (wCall w))) 0) = Inr out"
  shows "\<exists>evs. access_RunE u cfg w fl = Some \<lparr>trOut = echo_reply, trErr = None, trEvents = evs, trClosed = True\<rparr>"
proof -
  let ?c = "protocol_client c" and ?ctx = "callCtx cfg (ceNow (wCall w))"
  let ?pkt = "\<lparr>pCode = AccessAccept, pIdentifier = 0, pAuthenticator = auth,
    pAttributes = [NewString AttrReplyMessage (string_bytes ''accepted'')]\<rparr>"
  note fresh = tool_client_fresh [OF client]
  have pool: "clPool ?c = 0 # map word_of_nat [1..<256]" "length (clPool ?c) \<le> 256"
    using fresh(1) by (simp_all add: NewIdentifierPool_def upt_rec [of 0 256])
  have zero: "arAuthenticator req = replicate 16 0"
    using prep by (auto simp: access_prep_def then_attrs_def split: sum.splits)
  have build: "build_access (clSecret ?c) (ceRand (wCall w)) req 0 = Inr (raw, ra)"
    using m by (simp add: build_access_def zero rnd NewAccessRequestAuthenticator_def fresh(2))
  have "\<exists>evs. Authenticate ?c (wCall w) ?ctx req =
      Some (Inr (to_response ?pkt), evs, ?c\<lparr>clPool := map word_of_nat [1..<256] @ [0]\<rparr>)"
    by (rule access_answered [OF pool live build v [folded fresh(2)]]) (use rep in \<open>simp_all add: tool_ctx\<close>)
  then obtain evs where "Authenticate ?c (wCall w) ?ctx req =
      Some (Inr (to_response ?pkt), evs, ?c\<lparr>clPool := map word_of_nat [1..<256] @ [0]\<rparr>)" by blast
  moreover have "Code_String AccessAccept = ''Access-Accept''" by code_simp
  ultimately show ?thesis
    by (simp add: access_run run_tool_def prep client to_response_def call_title_def id_suffix_0 echo_text echo_reply_def)
qed

text \<open>The echo server's answer to any Access-Request that was marshalled with its secret.\<close>

lemma echo_served:
  assumes ra: "length ra = 16" and sized: "ma_sized (arAttributes req)"
    and m: "Marshal (access_packet req ra 0) s = Inr raw"
    and srv: "fresh_request srv now src 0" "plain_sock (usListener srv)"
  shows "\<exists>srv' out auth. handleOne echoAccessHandler srv now sctx raw src s = Done (True, srv')
    \<and> uOut (usListener srv') = uOut (usListener srv) @ [(out, src)]
    \<and> VerifyResponse out 0 ra s = Inr \<lparr>pCode = AccessAccept, pIdentifier = 0, pAuthenticator = auth,
          pAttributes = [NewString AttrReplyMessage (string_bytes ''accepted'')]\<rparr>"
proof -
  let ?attrs = "[NewString AttrReplyMessage (string_bytes ''accepted'')]"
  let ?p = "\<lparr>pCode = AccessAccept, pIdentifier = 0, pAuthenticator = ra, pAttributes = ?attrs\<rparr>"
  have "wf_packet (access_packet req ra 0)" "ma_sized (pAttributes (access_packet req ra 0))"
    using ra sized by (simp_all add: access_packet_def wf_packet_def with_ma_sized)
  note mar = marshalled [OF this m]
  have echo: "echoAccessHandler sctx rq = Inr (Some (request_ReplyWith rq AccessAccept ?attrs))"
    if "pCode (rqPacket rq) = AccessRequest" for rq
    using that by (simp add: echoAccessHandler_def request_ReplyWith_def request_Reply_def)
  have z: "ma_sized ?attrs" by (simp add: ma_sized_def is_ma_def NewString_def attr_num)
  have wf: "wf_packet ?p" using ra by (simp add: wf_packet_def)
  have "sendable ?p s"
    using mar(1) by (simp add: sendable_def sealable_def isValidCode_def marshal_len_seal seal_def code_num attr_num
        attr_fits_def ma_count_def is_ma_def maxLengthForCode_def limit_num IsAccounting_def padded_len_def
        NewString_def string_bytes_def)
  then obtain out where out: "Marshal ?p s = Inr out" using Marshal_total [OF wf] z by auto
  have co: "AccessAccept \<in> set [AccessAccept, AccessReject, AccessChallenge]" by simp
  have "sent_attrs ?p s = ?attrs"
    using sent_attrs_reply [of ?p s] by (auto simp: list_all2_Cons1 NewString_def attr_num code_num)
  with served_access [where now = now and src = src and h = echoAccessHandler and sctx = sctx and p = ?p,
      OF ra sized z m echo co srv refl out] show ?thesis by auto
qed

text \<open>
  C14: The tool against itself, as its documentation proposes it for a smoke test: the
  \<open>access\<close> command's request, arriving at the \<open>server\<close> command's socket, is handed to the
  echo handler and answered with one datagram; when the command receives that datagram it ends
  without an error and prints Access-Accept, identifier 0 and the Reply-Message, whatever
  password, mode and attributes were asked for, as long as every Message-Authenticator given with
  \<open>--attr\<close> has 16 octets and the request fits a packet. Both must have been given the same
  secret; the server listens on any of its UDP networks, the default included. It then still
  reads: a signal does not end it (its context only cancels).
\<close>

theorem tool_smoke_test:
  assumes prep: "access_prep u cfg fl = Inr req" and client: "tool_newClient u cfg w = Inr c"
    and env: "ceRand (wCall w) = Inr ra" "length ra = 16" "\<not> ceCanceled (wCall w)"
    and sized: "ma_sized (arAttributes req)"
    and m: "Marshal (access_packet req ra 0) (string_bytes (vpSecret cfg)) = Inr raw"
    and bind: "bind_addr hw (sfBind sf) = Inr (ip, port)"
    and net: "network = (if sfNetwork sf = [] then ''udp'' else sfNetwork sf)" "network \<in> set [''udp'', ''udp4'', ''udp6'']"
    and sock: "hwUDP hw network (UDPAddr ip port []) =
      Inr (\<lparr>uIn = [Inr (raw, src)], uOut = [], uWr = [], uDlErr = None, uReadDl = None, uWriteDl = None, uClosed = False\<rparr>, local)"
    and same: "sfSecret sf = vpSecret cfg"
  shows "\<exists>srv srv' out. server_RunE u hw dflt sctx sf =
      Inr (listening_text u ''UDP'' local (vpSecret cfg),
           ServedUDP srv [(raw, src, string_bytes (vpSecret cfg))], None)
    \<and> handleOne echoAccessHandler srv now sctx raw src (string_bytes (vpSecret cfg)) = Done (True, srv')
    \<and> uOut (usListener srv') = [(out, src)]
    \<and> (aeReply (ceAttempt (wCall w) (callCtx cfg (ceNow (wCall w))) 0) = Inr out \<longrightarrow>
        (\<exists>evs. access_RunE u cfg w fl =
          Some \<lparr>trOut = echo_reply, trErr = None, trEvents = evs, trClosed = True\<rparr>))"
proof -
  let ?s = "string_bytes (vpSecret cfg)" and ?q = "access_packet req ra 0"
  let ?srv = "\<lparr>usListener = \<lparr>uIn = [Inr (raw, src)], uOut = [], uWr = [], uDlErr = None, uReadDl = None, uWriteDl = None, uClosed = False\<rparr>,
    usDedup = None, usLog = dflt\<rparr>"
  have wfq: "wf_packet ?q" "ma_sized (pAttributes ?q)"
    using env(2) sized by (simp_all add: access_packet_def wf_packet_def with_ma_sized)
  note mar = marshalled [OF wfq m]
  have len: "length raw \<le> 4096"
    using mar(1) length_sent_attrs [OF wfq(2), of ?s] maxLength_le [of "pCode ?q"] wfq(1)
    by (simp add: mar(2) wire_def sendable_def)
  have serve: "server_RunE u hw dflt sctx sf =
      Inr (listening_text u ''UDP'' local (vpSecret cfg), ServedUDP ?srv [(raw, src, ?s)], None)"
    using len net(2) by (simp add: server_RunE_def bind net(1) [symmetric] sock same NewUDPServer_def ListenUDP_def Let_def
        UDPServer_Serve_def StaticSecret_def limit_num)
  have "fresh_request ?srv now src 0" "plain_sock (usListener ?srv)" by (simp_all add: fresh_request_def plain_sock_def)
  from echo_served [OF env(2) sized m this] obtain srv' out auth where
    served: "handleOne echoAccessHandler ?srv now sctx raw src ?s = Done (True, srv')"
      "uOut (usListener srv') = uOut (usListener ?srv) @ [(out, src)]"
    and v: "VerifyResponse out 0 ra ?s = Inr \<lparr>pCode = AccessAccept, pIdentifier = 0, pAuthenticator = auth,
      pAttributes = [NewString AttrReplyMessage (string_bytes ''accepted'')]\<rparr>" by blast
  have "\<exists>evs. access_RunE u cfg w fl = Some \<lparr>trOut = echo_reply, trErr = None, trEvents = evs, trClosed = True\<rparr>"
    if "aeReply (ceAttempt (wCall w) (callCtx cfg (ceNow (wCall w))) 0) = Inr out"
    by (rule access_command_answered [OF prep client env(1,3) m v that])
  with serve served show ?thesis by (intro exI [of _ ?srv] exI [of _ srv'] exI [of _ out]) simp
qed

definition demo_host :: "bytes \<Rightarrow> host_world" where
  "demo_host raw = \<lparr>hwServices = (\<lambda>_ _. None), hwUDP = (\<lambda>_ a. Inr (demo_sock [Inr (raw, demo_addr)], a)),
     hwTCP = (\<lambda>_ _. Inl io_EOF)\<rparr>"

definition demo_bind :: server_flags where
  "demo_bind = \<lparr>sfBind = ''127.0.0.1:1812'', sfNetwork = ''udp'', sfSecret = ''s''\<rparr>"

definition smoke_flags :: access_flags where
  "smoke_flags = \<lparr>afPassword = ''pw'', afEap = True, afAttr = []\<rparr>"

definition smoke_request :: access_request where
  "smoke_request = \<lparr>arAuthenticator = replicate 16 0, arAttributes = [NewString AttrUserPassword [112, 119]],
     arMethod = AuthEAP\<rparr>"

lemma smoke_texts: "string_bytes ''pw'' = [112, 119]" "string_bytes ''s'' = [115]"
  by (simp_all add: string_bytes_def)

lemma smoke_prep: "access_prep ascii_unicode demo_settings smoke_flags = Inr smoke_request"
  using demo_prep
  by (simp add: access_prep_def then_attrs_def ensureTimeoutPositive_def smoke_texts smoke_flags_def smoke_request_def)

lemma smoke_marshal:
  "ma_sized (arAttributes smoke_request)"
  "\<exists>raw. Marshal (access_packet smoke_request (replicate 16 7) 0) [115] = Inr raw"
proof -
  let ?q = "access_packet smoke_request (replicate 16 7) 0"
  show "ma_sized (arAttributes smoke_request)"
    by (simp add: smoke_request_def ma_sized_def is_ma_def NewString_def attr_num)
  have q: "?q = \<lparr>pCode = 1, pIdentifier = 0, pAuthenticator = replicate 16 7,
      pAttributes = [NewOctets 80 (replicate 16 0), NewString 2 [112, 119]]\<rparr>"
    by (simp add: smoke_request_def access_packet_def with_ma_def AuthPAP_def AuthEAP_def code_num attr_num
        containsMessageAuthenticator_def NewString_def)
  have "sendable ?q [115]" unfolding q
    by (simp add: sendable_def sealable_def isValidCode_def marshal_len_seal seal_def code_num attr_num
        attr_fits_def ma_count_def is_ma_def maxLengthForCode_def limit_num IsAccounting_def padded_len_def
        NewString_def NewOctets_def)
  moreover have "wf_packet ?q" "ma_sized (pAttributes ?q)"
    unfolding q by (simp_all add: wf_packet_def ma_sized_def is_ma_def NewString_def NewOctets_def attr_num)
  ultimately show "\<exists>raw. Marshal ?q [115] = Inr raw" using Marshal_total by blast
qed

lemma smoke_bind:
  "bind_addr (demo_host raw) (sfBind demo_bind) = Inr (v4InV6Prefix @ [127, 0, 0, 1], 1812)"
proof -
  have "ParseIP ''127.0.0.1'' = Some (v4InV6Prefix @ [127, 0, 0, 1])" by code_simp
  then show ?thesis
    using SplitHostPort_vectors(1) parsePort_vectors(1) by (simp add: bind_addr_def demo_bind_def LookupPort_def)
qed

theorem tool_smoke_test_witness:
  "let sctx = \<lparr>cxDeadline = None, cxErr = Some CtxCanceled\<rparr> in
   \<exists>raw txt srv srv' out evs.
     server_RunE ascii_unicode (demo_host raw) initial_Default sctx demo_bind =
       Inr (txt, ServedUDP srv [(raw, demo_addr, [115])], None)
     \<and> handleOne echoAccessHandler srv 0 sctx raw demo_addr [115] = Done (True, srv')
     \<and> uOut (usListener srv') = [(out, demo_addr)]
     \<and> access_RunE ascii_unicode demo_settings (demo_world (Inr out)) smoke_flags =
         Some \<lparr>trOut = echo_reply, trErr = None, trEvents = evs, trClosed = True\<rparr>"
proof -
  let ?sctx = "\<lparr>cxDeadline = None, cxErr = Some CtxCanceled\<rparr> :: go_ctx" and ?u = ascii_unicode
  let ?a = "UDPAddr (v4InV6Prefix @ [127, 0, 0, 1]) 1812 []"
  have sec: "string_bytes (vpSecret demo_settings) = [115]" "sfSecret demo_bind = vpSecret demo_settings"
    by (simp_all add: demo_settings_def demo_bind_def smoke_texts)
  obtain raw where raw: "Marshal (access_packet smoke_request (replicate 16 7) 0) [115] = Inr raw"
    using smoke_marshal(2) by blast
  have net: "''udp'' = (if sfNetwork demo_bind = [] then ''udp'' else sfNetwork demo_bind)"
    "''udp'' \<in> set [''udp'', ''udp4'', ''udp6'']" by (simp_all add: demo_bind_def)
  have sock: "hwUDP (demo_host raw) ''udp'' ?a =
      Inr (\<lparr>uIn = [Inr (raw, demo_addr)], uOut = [], uWr = [], uDlErr = None, uReadDl = None, uWriteDl = None, uClosed = False\<rparr>, ?a)"
    by (simp add: demo_host_def demo_sock_def)
  have inst: "\<exists>srv srv' out. server_RunE ?u (demo_host raw) initial_Default ?sctx demo_bind =
      Inr (listening_text ?u ''UDP'' ?a (vpSecret demo_settings), ServedUDP srv [(raw, demo_addr, [115])], None)
    \<and> handleOne echoAccessHandler srv 0 ?sctx raw demo_addr [115] = Done (True, srv')
    \<and> uOut (usListener srv') = [(out, demo_addr)]
    \<and> (reply = Inr out \<longrightarrow> (\<exists>evs. access_RunE ?u demo_settings (demo_world reply) smoke_flags =
          Some \<lparr>trOut = echo_reply, trErr = None, trEvents = evs, trClosed = True\<rparr>))" for reply
  proof -
    obtain c where c: "tool_newClient ?u demo_settings (demo_world reply) = Inr c" using demo_client by blast
    have w: "ceRand (wCall (demo_world reply)) = Inr (replicate 16 7)" "\<not> ceCanceled (wCall (demo_world reply))"
      "aeReply (ceAttempt (wCall (demo_world reply)) x 0) = reply" for x
      by (simp_all add: demo_world_def demo_env_def)
    show ?thesis
      using tool_smoke_test [OF smoke_prep c w(1) _ w(2) smoke_marshal(1) raw [folded sec(1)] smoke_bind net sock sec(2),
          of initial_Default ?sctx 0]
      by (simp add: sec(1) w(3))
  qed
  from inst [of "Inl ErrTimeout"] obtain srv srv' out where
    s: "server_RunE ?u (demo_host raw) initial_Default ?sctx demo_bind =
      Inr (listening_text ?u ''UDP'' ?a (vpSecret demo_settings), ServedUDP srv [(raw, demo_addr, [115])], None)"
    "handleOne echoAccessHandler srv 0 ?sctx raw demo_addr [115] = Done (True, srv')"
    "uOut (usListener srv') = [(out, demo_addr)]" by blast
  with inst [of "Inr out"] obtain evs where
    "access_RunE ?u demo_settings (demo_world (Inr out)) smoke_flags =
          Some \<lparr>trOut = echo_reply, trErr = None, trEvents = evs, trClosed = True\<rparr>" by auto
  with s show ?thesis unfolding Let_def by blast
qed

end
