(* ===== verification/Spec2Isabelle.thy ===== *)
theory Spec2Isabelle
  imports EndToEnd Server_Replies Shutdown Client_Concurrent Extended Transport_Props Format Vendors Client_Package DictGenCmd Client_Transport Radius Tool_Props
begin

text \<open>
  A verification development for the Go RADIUS library under \<open>src/\<close> (RFC 2865, 2866, 2868,
  2869, 5176, 6613, 6614, 6929, 7360; MS-CHAPv2 of RFC 2759 and 3079).

  \<^bold>\<open>The program.\<close> \<open>types/\<close> numbers codes, attributes and limits; \<open>errors/\<close> names the errors.
  \<open>crypto/\<close> computes authenticators and hides passwords. \<open>packet/\<close> turns a \<open>Packet\<close> into octets
  and back. \<open>transport/\<close> moves octets over UDP, TCP, TLS and DTLS. \<open>protocol/\<close> is the client:
  it takes an identifier from a pool, marshals a request, exchanges it with retransmission, and
  verifies the reply. \<open>client/\<close> builds such clients over a dialled socket. \<open>server/\<close> reads
  requests, verifies them, suppresses duplicates and calls a handler. \<open>dictionary/\<close> names
  attributes and loads FreeRADIUS dictionary files; \<open>packet/dict_helper.go\<close> and
  \<open>packet/format.go\<close> use it; \<open>vendors/\<close> builds vendor-specific attributes. \<open>log/\<close> is the logger
  interface. Two commands stand on top: \<open>cmd/radius-tool\<close> makes one call or runs an echo server,
  \<open>cmd/dict-gen\<close> generates Go source from dictionary files.

  \<^bold>\<open>Conventions.\<close> Octets are \<open>8 word\<close>, integers keep their width, a fixed array is a byte list
  (its length is a hypothesis where it matters). A Go result with an error is a sum
  (\<open>'a res\<close>, theory Errors), a panic the error \<open>GoPanic\<close> (or \<open>None\<close> where a function has no
  other failure). An operation that mutates returns the new state. Randomness, the clock, the
  sockets, the context and the file system are arguments: what they are going to answer. Locks
  are left out (an operation under a lock is one step; the clock \<open>Seen\<close> reads before it locks is
  a step of its own), and so is what the library logs. An operation that can block returns an
  \<open>option\<close>, \<open>None\<close> when it blocks; a goroutine of the server ends in a \<open>task\<close> (theory Errors):
  done, blocked for ever, or in a panic nobody recovers, which ends the process. In the tool such
  a panic is the error \<open>Panicked\<close>, with Go's exit status 2.

  \<^bold>\<open>Theories.\<close>

  \<^item> Prelude: slices and copies, big-endian integers, the interface \<open>tlv_codec\<close> of
    self-delimiting encodings (interpreted for attributes and for framed packets).
  \<^item> Types, Errors: \<open>types/types.go\<close>, \<open>errors/errors.go\<close>, \<open>protocol/errors.go\<close>.
  \<^item> Digest, Sha1, Des: MD5, HMAC-MD5, SHA-1 and DES of Go's standard library, executable, with
    published vectors for MD5, HMAC-MD5 and DES; \<open>block_digest\<close> is the interface of a digest.
  \<^item> NetIP, GoText: what the sources use of \<open>net\<close>, \<open>unicode/utf8\<close>, \<open>strings\<close>, \<open>bufio\<close> and
    \<open>strconv\<close>.
  \<^item> Logging: \<open>log/\<close> and the logrus bridge of \<open>cmd/radius-tool/root.go\<close>; \<open>structured_logger\<close> is what
    every logger promises of \<open>With\<close>.
  \<^item> Password, Tunnel, Chap: \<open>crypto/crypto.go\<close>, \<open>crypto/tunnel.go\<close>, \<open>crypto/chap.go\<close> and the key
    attributes of \<open>crypto/mppe.go\<close>; \<open>feedback_cipher\<close> is the MD5 chaining both kinds of hidden
    password share.
  \<^item> Mschap, Mschap_Props: \<open>crypto/mschapv2.go\<close> and the key derivation of \<open>crypto/mppe.go\<close>.
  \<^item> Attribute, Packet, Packet_Wire, Packet_Props, Extended: \<open>packet/attribute.go\<close>,
    \<open>packet/packet.go\<close> and \<open>packet/extended.go\<close>. A packet is the record \<open>packet\<close>.
  \<^item> Transport, Transport_Props: \<open>transport/\<close>. A connection (\<open>conn\<close>) and a UDP socket
    (\<open>udp_sock\<close>) carry the script of their coming reads and writes.
  \<^item> Protocol, Client, Client_Props, Client_Calls: \<open>protocol/\<close>. The pool of identifiers is a queue
    (\<open>token_pool\<close> is its interface), a call is given by what its attempts meet (\<open>attempt_env\<close>)
    and returns its result, the datagrams it sent and the client.
  \<^item> Client_Package: \<open>client/client.go\<close>, and runs of calls on one client.
  \<^item> Client_Transport: the client's retransmission loop with the state of a transport threaded
    through it, and its agreement with the loop over scripted attempts. \<open>reply_queue\<close> is a
    transport that keeps unread replies in order (interpreted for UDP, TCP, TLS and DTLS).
  \<^item> Closing: clients over a transport that is closed; \<open>closed_transport\<close> is what the client relies
    on (interpreted for UDP, TCP, TLS and DTLS).
  \<^item> Client_Concurrent: calls that share one UDP client, as the step relation \<open>calls_step\<close> over the
    client, its socket, the clock and the list of calls in flight (\<open>flight\<close>); \<open>flMet\<close> records what
    the attempts of a call met, so that it can be compared with the call on its own.
  \<^item> Dedup, Server, Server_Props: \<open>server/\<close>. The duplicate table is a heap of entries behind an
    association list; handling one request is a function of the server's state and the clock,
    and the goroutines of many requests are the step relation \<open>srv_step\<close>: reading the clock, the
    locked section, the start of the handler, its reply and the sending are separate steps.
  \<^item> Server_Replies: where the datagrams a server sends come from, under any interleaving.
  \<^item> Shutdown: the life of a UDP server as the step relation \<open>life_step\<close>: its loop of reads, the
    handlers it starts, the wait group and a call of \<open>Shutdown\<close>.
  \<^item> EndToEnd: a client and a server together.
  \<^item> DictParser, Dictionary, Dictionary_Props: \<open>dictionary/parser/parser.go\<close>,
    \<open>dictionary/dictionary.go\<close>, \<open>register.go\<close> and \<open>rfc*.go\<close>; \<open>keyed_registry\<close> is the contract of a
    table with two keys.
  \<^item> DictGen, DictGenCmd: \<open>dictionary/gen/gen.go\<close>, whose generated source is the list of texts
    written to a scripted writer, and the command \<open>cmd/dict-gen/main.go\<close> over a disk (\<open>disk\<close>).
  \<^item> DictHelper, Format: \<open>packet/dict_helper.go\<close>, \<open>packet/format.go\<close>.
  \<^item> Vsa: \<open>vendors/vendors.go\<close> and the interface \<open>vendor_package\<close>; Huawei, H3C, Cisco, Juniper,
    PaloAlto, Redback, Alcatel, Microsoft: the packages under \<open>vendors/\<close>, whose names carry the
    package as a prefix; Vendors: what spans them.
  \<^item> Tool, Tool_Names, Tool_Props: \<open>cmd/radius-tool/\<close>. A command is a function of the parsed flags,
    the settings and the world it meets (\<open>world\<close>, \<open>host_world\<close>); its outcome (\<open>tool_run\<close>) is what
    it prints, its error, what it sent and whether it closed its client.
  \<^item> Radius: the constants \<open>radius.go\<close> exports, compared with the names the library prints.

  \<^bold>\<open>What the lemmas show.\<close> The codec: what \<open>Marshal\<close> writes, \<open>Unmarshal\<close> reads back and the
  verifiers accept; exactly which packets marshal and which datagrams parse. Passwords, tunnel
  attributes and keys decrypt to what was hidden. The transports deliver exactly the framed
  packets. The client: identifiers are unique and always come back, the outcome of an exchange is
  decided by its first attempt that is no retry, a returned response is authentic. The server:
  of two runs of the handler for one key, one took the lock a time-to-live after the other read
  the clock, what happens to duplicates, when a reply brings the process down, and
  every datagram sent answers a request of the address it goes to. End to end, the client gets
  what the handler chose; and over a transport, replies that come after their call are never
  discarded, so that they spoil the calls that follow. Of concurrent calls: the identifiers stay
  unique, each call returns what it would return alone, meeting what it met, but they share one
  deadline. Closing: an exchange over a closed transport sends nothing and fails, after
  all its attempts; a server that shuts down sends nothing more, and has no handler running when
  \<open>Shutdown\<close> returns nil, though a datagram read before may still start one. The dictionary's two indexes stay
  consistent, its parser always returns and reads back what is printed, the generated source
  does not depend on the order of the entries, and the generator command leaves the disk alone
  unless it writes that source. The commands of the tool end, report an error or print the
  reply, and the tool's client and its echo server understand each other. The NT-Response and the
  session keys are those of the RFCs, and the keys arrive at the other end. Every vendor
  constructor is read back. The properties that follow a packet over the wire assume that its
  Message-Authenticators are given with 16 octets (\<open>ma_sized\<close>): \<open>Marshal\<close> does not check it.

  \<^bold>\<open>Bounds and termination.\<close> Loops are structural or have a measure. The loop of retransmissions
  counts its attempts down. Reading a file of a dictionary recurses through its includes as a
  \<open>partial_function\<close>; \<open>parse_files_return\<close> proves that it returns for every set of files. The
  identifier pool has 256 tokens; lengths of packets are bounded as in \<open>types/types.go\<close>. Where a
  program limit has no numeral evaluation (1 MiB lines) it is kept as an integer.

  \<^bold>\<open>Parameters.\<close> MD4 (\<open>golang.org/x/crypto\<close>) is an argument of the definitions that use it and
  nothing is assumed of it. Handlers and secret lookups are arguments. The scaled delay a float
  jitter gives, which code points above ASCII are printable and their case mappings, the answers
  of the resolver, and the flags and settings that cobra and viper parsed are arguments.

  \<^bold>\<open>Not modelled.\<close> The types and functions \<open>radius.go\<close> re-exports (aliases of names modelled under
  their own packages), the registration of flags and subcommands with cobra and viper, the texts of error messages (errors
  are constructors), what the library logs. Concurrency is modelled as sequences of atomic steps; the Go memory model is not.
\<close>

end
